(* ===== verification/Prelude.thy ===== *)
theory Prelude
  imports Main
begin

text \<open>
  Shared vocabulary of the tracecat model.  Python exceptions are values of
  \<open>exc\<close>; a computation that may raise returns \<open>'a res\<close> (\<open>Inl\<close> the exception).
  \<open>rbind\<close> sequences two such computations the way a Python statement
  sequence propagates an exception.  \<open>map_res\<close> is a Python \<open>for\<close> loop that
  builds a list and stops at the first exception.  The collection
  \<open>res_simps\<close> holds the rewriting facts every component proof uses.
\<close>

named_theorems res_simps "facts on exception-propagating computations"

datatype exc =
    TypeError
  | KeyError
  | AttributeError
  | NoResultFound
  | MultipleResultsFound
  | IntegrityError
  | DataError
  | ResponseValidationError
  | ColumnNotFoundError
  | HTTPException nat

type_synonym 'a res = "exc + 'a"

definition rbind :: "'a res \<Rightarrow> ('a \<Rightarrow> 'b res) \<Rightarrow> 'b res" where
  "rbind m f = (case m of Inl e \<Rightarrow> Inl e | Inr x \<Rightarrow> f x)"

fun map_res :: "('a \<Rightarrow> 'b res) \<Rightarrow> 'a list \<Rightarrow> 'b list res" where
  "map_res f [] = Inr []"
| "map_res f (x # xs) = rbind (f x) (\<lambda>y. rbind (map_res f xs) (\<lambda>ys. Inr (y # ys)))"

text \<open>SQLAlchemy's \<open>Result.one()\<close>: exactly one row, or an exception.\<close>

definition result_one :: "'a list \<Rightarrow> 'a res" where
  "result_one xs =
     (case xs of [] \<Rightarrow> Inl NoResultFound | [x] \<Rightarrow> Inr x | _ \<Rightarrow> Inl MultipleResultsFound)"

text \<open>FastAPI validates what an endpoint function returns against the declared
  response model.  The shapes a returned value has in this code: \<open>None\<close> (a
  function that ends without \<open>return\<close>), a list, an instance of the declared
  model, or an instance of another model that lacks fields the declared model
  requires (\<open>RetOther\<close>).  Only the declared shape validates; the others raise
  \<open>ResponseValidationError\<close>, which FastAPI answers with status 500.\<close>

datatype 'a returned = RetNone | RetList "'a list" | RetObj 'a | RetOther

fun response_obj :: "'a returned \<Rightarrow> 'a res" where
  "response_obj (RetObj x) = Inr x"
| "response_obj _ = Inl ResponseValidationError"

fun response_list :: "'a returned \<Rightarrow> 'a list res" where
  "response_list (RetList xs) = Inr xs"
| "response_list _ = Inl ResponseValidationError"

text \<open>What a handler answers after its body ran: the response built from the
  body's result, with the state the body left (a commit is not undone by a
  failing response).\<close>

definition respond :: "('a \<Rightarrow> 'b res) \<Rightarrow> 'a res \<times> 's \<Rightarrow> 'b res \<times> 's" where
  "respond f p = (rbind (fst p) f, snd p)"

text \<open>Every exception a computation raises satisfies \<open>P\<close>.\<close>

definition err_in :: "(exc \<Rightarrow> bool) \<Rightarrow> 'a res \<Rightarrow> bool" where
  "err_in P m \<longleftrightarrow> (case m of Inl e \<Rightarrow> P e | Inr _ \<Rightarrow> True)"

text \<open>The exceptions Python's own operations raise on JSON values.\<close>

definition py_error :: "exc \<Rightarrow> bool" where
  "py_error e \<longleftrightarrow> e = TypeError \<or> e = KeyError \<or> e = AttributeError"

lemma rbind_Inl [simp, res_simps]: "rbind (Inl e) f = Inl e"
  by (simp add: rbind_def)

lemma rbind_Inr [simp, res_simps]: "rbind (Inr x) f = f x"
  by (simp add: rbind_def)

lemma rbind_eq_Inr [res_simps]:
  "rbind m f = Inr y \<longleftrightarrow> (\<exists>x. m = Inr x \<and> f x = Inr y)"
  by (cases m) (simp_all add: rbind_def)

lemma rbind_eq_Inl [res_simps]:
  "rbind m f = Inl e \<longleftrightarrow> m = Inl e \<or> (\<exists>x. m = Inr x \<and> f x = Inl e)"
  by (cases m) (simp_all add: rbind_def)

lemma respond_snd [simp]: "snd (respond f p) = snd p"
  by (simp add: respond_def)

lemma respond_Inl [simp]: "respond f (Inl e, s) = (Inl e, s)"
  by (simp add: respond_def)

lemma respond_Inr [simp]: "respond f (Inr x, s) = (f x, s)"
  by (simp add: respond_def)

lemma rbind_isl [res_simps]: "isl m \<Longrightarrow> isl (rbind m f)"
  by (cases m) simp_all

lemma map_res_Inr_iff [res_simps]:
  "map_res f xs = Inr ys \<longleftrightarrow> list_all2 (\<lambda>x y. f x = Inr y) xs ys"
proof (induction xs arbitrary: ys)
  case Nil
  then show ?case by auto
next
  case (Cons x xs)
  then show ?case by (cases ys) (auto simp: rbind_eq_Inr)
qed

lemma map_res_Inr_not_isl:
  "map_res f xs = Inr ys \<Longrightarrow> x \<in> set xs \<Longrightarrow> \<not> isl (f x)"
proof (induction xs arbitrary: ys)
  case Nil
  then show ?case by simp
next
  case (Cons y xs)
  then show ?case by (auto simp: rbind_eq_Inr)
qed

lemma map_res_length:
  "map_res f xs = Inr ys \<Longrightarrow> length ys = length xs"
  by (simp add: map_res_Inr_iff list_all2_lengthD)

lemma map_res_fail:
  "x \<in> set xs \<Longrightarrow> isl (f x) \<Longrightarrow> isl (map_res f xs)"
proof (induction xs)
  case Nil
  then show ?case by simp
next
  case (Cons y ys)
  then show ?case
    by (cases "f y"; cases "map_res f ys") auto
qed

lemma result_one_Inr [res_simps]: "result_one xs = Inr x \<longleftrightarrow> xs = [x]"
  by (auto simp: result_one_def split: list.splits)

lemma filter_unique_key:
  assumes "distinct (map key rows)" and "x \<in> set rows" and "P x"
    and "\<And>y. y \<in> set rows \<Longrightarrow> P y \<Longrightarrow> key y = key x"
  shows "filter P rows = [x]"
  using assms
proof (induction rows)
  case Nil
  then show ?case by simp
next
  case (Cons r rs)
  from Cons.prems(1) have nk: "key r \<notin> key ` set rs" by simp
  show ?case
  proof (cases "r = x")
    case True
    have "\<forall>y\<in>set rs. \<not> P y"
    proof
      fix y assume y: "y \<in> set rs"
      then have "key y \<in> key ` set rs" by simp
      with nk True have "key y \<noteq> key x" by auto
      with Cons.prems(4) [of y] y show "\<not> P y" by auto
    qed
    with True Cons.prems(3) show ?thesis by (simp add: filter_empty_conv)
  next
    case False
    with Cons.prems(2) have x: "x \<in> set rs" by simp
    then have "key x \<in> key ` set rs" by simp
    with nk have "key r \<noteq> key x" by auto
    with Cons.prems(4) [of r] have nP: "\<not> P r" by auto
    have "filter P rs = [x]"
    proof (rule Cons.IH)
      show "distinct (map key rs)" using Cons.prems(1) by simp
      show "x \<in> set rs" by (rule x)
      show "P x" by (rule Cons.prems(3))
      fix y assume "y \<in> set rs" and "P y"
      then show "key y = key x" by (intro Cons.prems(4)) simp_all
    qed
    with nP show ?thesis by simp
  qed
qed

lemma result_one_unique_key:
  assumes "distinct (map key rows)" and "x \<in> set rows" and "P x"
    and "\<And>y. y \<in> set rows \<Longrightarrow> P y \<Longrightarrow> key y = key x"
  shows "result_one (filter P rows) = Inr x"
proof -
  from assms have "filter P rows = [x]" by (rule filter_unique_key)
  then show ?thesis by (simp add: result_one_def)
qed

lemma those_map_Some:
  "those (map f xs) = Some ys \<longleftrightarrow> list_all2 (\<lambda>x y. f x = Some y) xs ys"
proof (induction xs arbitrary: ys)
  case Nil
  then show ?case by auto
next
  case (Cons x xs)
  then show ?case by (cases ys) (auto split: option.splits)
qed

lemma list_all2_compose_map:
  assumes "list_all2 R xs ys" and "list_all2 S xs ps"
    and "\<And>x y p. R x y \<Longrightarrow> S x p \<Longrightarrow> T y (g p)"
  shows "list_all2 T ys (map g ps)"
  using assms by (auto simp: list_all2_conv_all_nth)

lemma list_all2_right_all:
  "list_all2 R xs ys \<Longrightarrow> (\<And>x y. R x y \<Longrightarrow> P y) \<Longrightarrow> list_all P ys"
proof (induction xs arbitrary: ys)
  case Nil
  then show ?case by simp
next
  case (Cons x xs)
  then show ?case by (cases ys) auto
qed

lemma upt_split_at: "i \<le> j \<Longrightarrow> j \<le> k \<Longrightarrow> [i..<k] = [i..<j] @ [j..<k]"
  using upt_add_eq_append [of i j "k - j"] by simp

lemma map_res_succeeds:
  "(\<And>x. x \<in> set xs \<Longrightarrow> \<exists>y. f x = Inr y) \<Longrightarrow> \<exists>ys. map_res f xs = Inr ys"
proof (induction xs)
  case Nil
  then show ?case by simp
next
  case (Cons x xs)
  then obtain y ys where "f x = Inr y" "map_res f xs = Inr ys" by fastforce
  then show ?case by simp
qed

lemma err_in_Inl [simp]: "err_in P (Inl e) = P e"
  by (simp add: err_in_def)

lemma err_in_Inr [simp]: "err_in P (Inr x)"
  by (simp add: err_in_def)

lemma err_in_rbind_iff:
  "err_in P (rbind m f) \<longleftrightarrow> err_in P m \<and> (\<forall>x. m = Inr x \<longrightarrow> err_in P (f x))"
  by (cases m) simp_all

lemma err_in_map_res:
  "(\<And>x. x \<in> set xs \<Longrightarrow> err_in P (f x)) \<Longrightarrow> err_in P (map_res f xs)"
  by (induction xs) (auto simp: err_in_rbind_iff)

lemma err_in_eq_Inl: "err_in P m \<Longrightarrow> m = Inl e \<Longrightarrow> P e"
  by simp

end
