(* ===== verification/Json.thy ===== *)
theory Json
  imports Prelude
begin

text \<open>
  Values produced by Python's \<open>json.loads\<close>, and the Python operations the
  clone code applies to them (\<^verbatim>\<open>src/tracecat/db.py\<close>, \<open>clone_workflow\<close>):
  subscript \<open>d[k]\<close>, assignment \<open>d[k] = v\<close>, \<open>d.update(k=v, ...)\<close> and
  iteration \<open>for x in c\<close>.  A Python dict is an association list in insertion
  order: assigning an existing key keeps its position, a new key goes last.
  Each operation raises what CPython raises on a value of the wrong type.
\<close>

datatype json =
    JNull
  | JBool bool
  | JInt int
  | JStr string
  | JList "json list"
  | JDict "(string \<times> json) list"

type_synonym dict = "(string \<times> json) list"

fun dict_set :: "dict \<Rightarrow> string \<Rightarrow> json \<Rightarrow> dict" where
  "dict_set [] k v = [(k, v)]"
| "dict_set ((k', v') # kvs) k v =
     (if k' = k then (k, v) # kvs else (k', v') # dict_set kvs k v)"

text \<open>\<open>d.update(k1=v1, k2=v2, ...)\<close> assigns the keywords left to right.\<close>

definition dict_update :: "dict \<Rightarrow> dict \<Rightarrow> dict" where
  "dict_update d kvs = foldl (\<lambda>acc (k, v). dict_set acc k v) d kvs"

text \<open>\<open>obj[k]\<close> with a string key.\<close>

fun json_getitem :: "json \<Rightarrow> string \<Rightarrow> json res" where
  "json_getitem (JDict d) k = (case map_of d k of Some v \<Rightarrow> Inr v | None \<Rightarrow> Inl KeyError)"
| "json_getitem _ k = Inl TypeError"

text \<open>\<open>obj[k] = v\<close> with a string key.\<close>

fun json_setitem :: "json \<Rightarrow> string \<Rightarrow> json \<Rightarrow> json res" where
  "json_setitem (JDict d) k v = Inr (JDict (dict_set d k v))"
| "json_setitem _ k v = Inl TypeError"

text \<open>\<open>obj.update(...)\<close>: only a dict has the method.\<close>

fun json_update :: "json \<Rightarrow> dict \<Rightarrow> json res" where
  "json_update (JDict d) kvs = Inr (JDict (dict_update d kvs))"
| "json_update _ kvs = Inl AttributeError"

text \<open>\<open>for x in obj\<close>: a list yields its items, a dict its keys, a string its
  characters; anything else is not iterable.\<close>

fun py_iter :: "json \<Rightarrow> json list res" where
  "py_iter (JList xs) = Inr xs"
| "py_iter (JDict d) = Inr (map (JStr \<circ> fst) d)"
| "py_iter (JStr s) = Inr (map (\<lambda>c. JStr [c]) s)"
| "py_iter _ = Inl TypeError"

text \<open>
  A loop \<open>for x in obj: body(x)\<close> whose body mutates each item in place.
  The items of a list are the objects the list holds, so the list afterwards
  holds the mutated items.  The items of a dict or string iteration are fresh
  strings; the body's effect on them is not observable, so the container is
  unchanged if the body never raises.
\<close>

definition py_for_inplace :: "(json \<Rightarrow> json res) \<Rightarrow> json \<Rightarrow> json res" where
  "py_for_inplace f c =
     (case c of
        JList xs \<Rightarrow> rbind (map_res f xs) (\<lambda>ys. Inr (JList ys))
      | _ \<Rightarrow> rbind (py_iter c) (\<lambda>xs. rbind (map_res f xs) (\<lambda>_. Inr c)))"

text \<open>\<open>len(obj)\<close>.\<close>

fun py_len :: "json \<Rightarrow> nat res" where
  "py_len (JList xs) = Inr (length xs)"
| "py_len (JDict d) = Inr (length d)"
| "py_len (JStr s) = Inr (length s)"
| "py_len _ = Inl TypeError"

subsection \<open>Dictionary lemmas\<close>

lemma map_of_dict_set [simp]: "map_of (dict_set d k v) = (map_of d)(k \<mapsto> v)"
  by (induction d k v rule: dict_set.induct) (auto simp: fun_eq_iff)

lemma keys_dict_set: "map fst (dict_set d k v) =
    (if k \<in> set (map fst d) then map fst d else map fst d @ [k])"
  by (induction d k v rule: dict_set.induct) auto

lemma distinct_dict_set: "distinct (map fst d) \<Longrightarrow> distinct (map fst (dict_set d k v))"
  by (auto simp: keys_dict_set)

lemma map_of_dict_update [simp]: "map_of (dict_update d kvs) = map_of d ++ map_of (rev kvs)"
proof (induction kvs arbitrary: d rule: rev_induct)
  case Nil
  then show ?case by (simp add: dict_update_def)
next
  case (snoc kv kvs)
  then show ?case by (cases kv) (simp add: dict_update_def map_add_def fun_eq_iff)
qed

lemma json_getitem_Inr [res_simps]:
  "json_getitem j k = Inr v \<longleftrightarrow> (\<exists>d. j = JDict d \<and> map_of d k = Some v)"
  by (cases j) (auto split: option.splits)

lemma json_setitem_Inr [res_simps]:
  "json_setitem j k v = Inr j' \<longleftrightarrow> (\<exists>d. j = JDict d \<and> j' = JDict (dict_set d k v))"
  by (cases j) auto

lemma json_update_Inr [res_simps]:
  "json_update j kvs = Inr j' \<longleftrightarrow> (\<exists>d. j = JDict d \<and> j' = JDict (dict_update d kvs))"
  by (cases j) auto

text \<open>A value read back right after it was assigned.\<close>

lemma json_getitem_setitem [simp]:
  "json_getitem (JDict (dict_set d k v)) k = Inr v"
  by simp

lemma py_for_inplace_Inr:
  assumes "py_for_inplace f c = Inr c'"
  shows "(\<exists>xs ys. c = JList xs \<and> c' = JList ys \<and> list_all2 (\<lambda>x y. f x = Inr y) xs ys)
       \<or> ((\<forall>xs. c \<noteq> JList xs) \<and> c' = c
           \<and> (\<exists>xs. py_iter c = Inr xs \<and> (\<forall>x\<in>set xs. \<not> isl (f x))))"
proof (cases c)
  case (JList xs)
  with assms show ?thesis
    by (auto simp: py_for_inplace_def rbind_eq_Inr map_res_Inr_iff)
next
  case JNull
  with assms show ?thesis by (simp add: py_for_inplace_def)
next
  case (JBool b)
  with assms show ?thesis by (simp add: py_for_inplace_def)
next
  case (JInt i)
  with assms show ?thesis by (simp add: py_for_inplace_def)
next
  case (JStr s)
  with assms show ?thesis
    by (auto simp: py_for_inplace_def rbind_eq_Inr dest: map_res_Inr_not_isl)
next
  case (JDict d)
  with assms show ?thesis
    by (auto simp: py_for_inplace_def rbind_eq_Inr dest: map_res_Inr_not_isl)
qed

lemma json_ops_py_error [simp]:
  "err_in py_error (json_getitem j k)" "err_in py_error (json_setitem j k v)"
  "err_in py_error (json_update j kvs)" "err_in py_error (py_iter j)"
  by (cases j; simp add: py_error_def split: option.splits)+

lemma py_for_inplace_py_error:
  "(\<And>x. err_in py_error (f x)) \<Longrightarrow> err_in py_error (py_for_inplace f c)"
  by (cases c) (simp_all add: py_for_inplace_def err_in_rbind_iff err_in_map_res py_error_def)

end
