(* ===== verification/Identity.thy ===== *)
theory Identity
  imports Prelude
begin

text \<open>
  Identity derivation.  \<^verbatim>\<open>src/tracecat/db.py\<close> derives a composite key
  \<open>f"{id}.{slug}"\<close> for workflows and actions (\<open>Workflow.key\<close>,
  \<open>Action.key\<close>, both \<open>slugify(title, separator="_")\<close>), and a webhook's
  secret \<open>auth.compute_hash(id)\<close> and URL
  \<open>f"{TRACECAT__RUNNER_URL}/webhook/{id}/{secret}"\<close> (\<open>Webhook.secret\<close>,
  \<open>Webhook.url\<close>).  The process environment the code reads (the random
  identifier source \<open>uuid4().hex\<close>, the keyed hash and the secret encryption of
  \<open>tracecat.auth\<close> and the runner URL of \<open>tracecat.config\<close>) is the record \<open>env\<close>: its functions are
  not under \<^verbatim>\<open>src/\<close>, so the model takes them as parameters.
  \<open>slugify\<close> is the python-slugify library, modelled after the spec
  (section 4.1) on ASCII text: lower-case, every run of characters other than
  \<open>a-z0-9\<close> becomes one separator, no separator at either end.
\<close>

record env =
  uuid4_hex :: "nat \<Rightarrow> string"
  compute_hash :: "string \<Rightarrow> string"
  runner_url :: string
  encrypt_key :: "string \<Rightarrow> string"

subsection \<open>Slugs\<close>

definition lower_char :: "char \<Rightarrow> char" where
  "lower_char c =
     (let n = (of_char c :: nat) in if 65 \<le> n \<and> n \<le> 90 then char_of (n + 32) else c)"

definition slug_char :: "char \<Rightarrow> bool" where
  "slug_char c \<longleftrightarrow>
     (let n = (of_char c :: nat) in (97 \<le> n \<and> n \<le> 122) \<or> (48 \<le> n \<and> n \<le> 57))"

text \<open>The maximal runs of slug characters, in order; \<open>w\<close> is the current run, reversed.\<close>

fun slug_runs :: "string \<Rightarrow> string \<Rightarrow> string list" where
  "slug_runs w [] = (if w = [] then [] else [rev w])"
| "slug_runs w (c # cs) =
     (if slug_char c then slug_runs (c # w) cs
      else if w = [] then slug_runs [] cs
      else rev w # slug_runs [] cs)"

text \<open>\<open>sep.join(words)\<close>.\<close>

fun str_join :: "char \<Rightarrow> string list \<Rightarrow> string" where
  "str_join sep [] = []"
| "str_join sep [w] = w"
| "str_join sep (w # ws) = w @ sep # str_join sep ws"

definition slugify :: "char \<Rightarrow> string \<Rightarrow> string" where
  "slugify sep s = str_join sep (slug_runs [] (map lower_char s))"

subsection \<open>Derived identifiers\<close>

text \<open>\<open>f"{self.id}.{slug}"\<close> with \<open>slug = slugify(self.title, separator="_")\<close>.\<close>

definition derive_key :: "string \<Rightarrow> string \<Rightarrow> string" where
  "derive_key i title = i @ ''.'' @ slugify (CHR ''_'') title"

definition webhook_secret :: "env \<Rightarrow> string \<Rightarrow> string" where
  "webhook_secret E wid = compute_hash E wid"

definition webhook_url :: "env \<Rightarrow> string \<Rightarrow> string" where
  "webhook_url E wid = runner_url E @ ''/webhook/'' @ wid @ ''/'' @ webhook_secret E wid"

text \<open>Reading a key or a webhook URL back: the part before the first
  separator, and the part after it.\<close>

definition split_at :: "char \<Rightarrow> string \<Rightarrow> string \<times> string" where
  "split_at x s = (takeWhile (\<lambda>c. c \<noteq> x) s, drop 1 (dropWhile (\<lambda>c. c \<noteq> x) s))"

subsection \<open>Lemmas on slugs\<close>

lemma slug_runs_words:
  "w' \<in> set (slug_runs w s) \<Longrightarrow> \<forall>c\<in>set w. slug_char c \<Longrightarrow>
     w' \<noteq> [] \<and> (\<forall>c\<in>set w'. slug_char c)"
proof (induction w s rule: slug_runs.induct)
  case (1 w)
  then show ?case by (simp split: if_splits)
next
  case (2 w c cs)
  show ?case
  proof (cases "slug_char c")
    case True
    with "2.prems" show ?thesis by (intro "2.IH"(1)) simp_all
  next
    case False
    show ?thesis
    proof (cases "w = []")
      case True
      with False "2.prems" show ?thesis by (intro "2.IH"(2)) simp_all
    next
      case nonempty: False
      with False "2.prems"(1) have "w' = rev w \<or> w' \<in> set (slug_runs [] cs)" by simp
      then show ?thesis
      proof
        assume "w' = rev w"
        with nonempty "2.prems"(2) show ?thesis by simp
      next
        assume "w' \<in> set (slug_runs [] cs)"
        with False nonempty show ?thesis by (intro "2.IH"(3)) simp_all
      qed
    qed
  qed
qed

lemma lower_char_slug_char: "slug_char c \<Longrightarrow> lower_char c = c"
  by (auto simp: slug_char_def lower_char_def Let_def)

lemma lower_char_underscore [simp]: "lower_char (CHR ''_'') = CHR ''_''"
  by (simp add: lower_char_def)

lemma slug_char_underscore [simp]: "\<not> slug_char (CHR ''_'')"
  by (simp add: slug_char_def)

lemma slug_runs_word:
  "\<forall>c\<in>set v. slug_char c \<Longrightarrow> slug_runs w (v @ rest) = slug_runs (rev v @ w) rest"
proof (induction v arbitrary: w)
  case Nil
  show ?case by simp
next
  case (Cons a v)
  from Cons.prems have "slug_char a" by simp
  then have "slug_runs w ((a # v) @ rest) = slug_runs (a # w) (v @ rest)" by simp
  also have "\<dots> = slug_runs (rev v @ a # w) rest" using Cons by simp
  finally show ?case by simp
qed

text \<open>Joining slug words and splitting the result again gives the words back.\<close>

lemma slug_runs_str_join:
  assumes "\<not> slug_char sep" and "\<forall>v\<in>set ws. v \<noteq> [] \<and> (\<forall>c\<in>set v. slug_char c)"
  shows "slug_runs [] (str_join sep ws) = ws"
  using assms
proof (induction sep ws rule: str_join.induct)
  case (1 sep)
  then show ?case by simp
next
  case (2 sep w)
  then have "slug_runs [] (w @ []) = slug_runs (rev w @ []) []"
    by (intro slug_runs_word) simp
  with "2.prems" show ?case by simp
next
  case (3 sep w v vs)
  then have "slug_runs [] (w @ sep # str_join sep (v # vs)) =
      slug_runs (rev w @ []) (sep # str_join sep (v # vs))"
    by (intro slug_runs_word) simp
  also have "\<dots> = w # slug_runs [] (str_join sep (v # vs))"
    using "3.prems" by simp
  also have "\<dots> = w # v # vs"
    using "3.prems" by (simp add: "3.IH")
  finally show ?case by simp
qed

lemma set_str_join: "set (str_join sep ws) \<subseteq> insert sep (\<Union>v\<in>set ws. set v)"
  by (induction sep ws rule: str_join.induct) auto

lemma lower_char_str_join_slug:
  assumes "lower_char sep = sep" and "\<forall>v\<in>set ws. \<forall>c\<in>set v. slug_char c"
  shows "map lower_char (str_join sep ws) = str_join sep ws"
proof (rule map_idI)
  fix c assume "c \<in> set (str_join sep ws)"
  with set_str_join [of sep ws] have "c = sep \<or> (\<exists>v\<in>set ws. c \<in> set v)" by blast
  with assms show "lower_char c = c" by (auto simp: lower_char_slug_char)
qed

lemma slug_runs_empty_iff:
  "slug_runs w xs = [] \<longleftrightarrow> w = [] \<and> (\<forall>c\<in>set xs. \<not> slug_char c)"
  by (induction w xs rule: slug_runs.induct) auto

lemma str_join_empty_iff:
  "\<forall>v\<in>set ws. v \<noteq> [] \<Longrightarrow> str_join sep ws = [] \<longleftrightarrow> ws = []"
  by (induction sep ws rule: str_join.induct) auto

lemma slugify_words:
  "\<forall>v\<in>set (slug_runs [] (map lower_char s)). v \<noteq> [] \<and> (\<forall>c\<in>set v. slug_char c)"
  using slug_runs_words [of _ "[]"] by simp

lemma set_slugify: "set (slugify sep s) \<subseteq> insert sep {c. slug_char c}"
  using set_str_join [of sep "slug_runs [] (map lower_char s)"] slugify_words [of s]
  by (auto simp: slugify_def)

subsection \<open>Properties of the derived identifiers\<close>

text \<open>Slugify with the code's separator is idempotent: a slug is its own
  slug, so re-deriving a key from a slugified title changes nothing.\<close>

theorem slugify_idempotent:
  "slugify (CHR ''_'') (slugify (CHR ''_'') s) = slugify (CHR ''_'') s"
proof -
  let ?ws = "slug_runs [] (map lower_char s)"
  have w: "\<forall>v\<in>set ?ws. v \<noteq> [] \<and> (\<forall>c\<in>set v. slug_char c)"
    by (rule slugify_words)
  then have "map lower_char (str_join (CHR ''_'') ?ws) = str_join (CHR ''_'') ?ws"
    by (intro lower_char_str_join_slug) simp_all
  moreover from w have "slug_runs [] (str_join (CHR ''_'') ?ws) = ?ws"
    by (intro slug_runs_str_join) simp_all
  ultimately show ?thesis by (simp add: slugify_def)
qed

lemma slugify_empty_iff:
  "slugify sep s = [] \<longleftrightarrow> (\<forall>c\<in>set s. \<not> slug_char (lower_char c))"
proof -
  have "slugify sep s = [] \<longleftrightarrow> slug_runs [] (map lower_char s) = []"
    unfolding slugify_def using slugify_words [of s] by (intro str_join_empty_iff) blast
  then show ?thesis by (simp add: slug_runs_empty_iff)
qed

lemma split_at_append:
  "x \<notin> set i \<Longrightarrow> split_at x (i @ x # r) = (i, r)"
  by (induction i) (auto simp: split_at_def)

text \<open>A webhook URL carries the webhook's id and its secret: after the
  prefix \<open>{runner}/webhook/\<close>, the path splits at its first slash into the id and
  the secret, for an id without a slash.\<close>

lemma webhook_url_split:
  assumes "CHR ''/'' \<notin> set wid"
  shows "take (length (runner_url E @ ''/webhook/'')) (webhook_url E wid) = runner_url E @ ''/webhook/''
       \<and> split_at (CHR ''/'') (drop (length (runner_url E @ ''/webhook/'')) (webhook_url E wid))
         = (wid, webhook_secret E wid)"
  using assms by (simp add: webhook_url_def split_at_append)

end
