(* ===== verification/Store.thy ===== *)
theory Store
  imports Json Identity
begin

text \<open>
  The relational store of \<^verbatim>\<open>src/tracecat/db.py\<close>.  Each SQLModel table class
  is a record with the class's columns (the \<open>Resource\<close> timestamps
  \<open>created_at\<close>/\<open>updated_at\<close> are set by the database server and left out); a
  table is the list of its rows in insertion order; \<open>db\<close> holds all tables.
  A JSON-serialised column (\<open>Workflow.object\<close>, \<open>Action.inputs\<close>) holds the
  value \<open>json.loads\<close> reads from it, \<open>None\<close> for SQL NULL.
  \<open>db_integrity\<close> is the schema's primary and foreign keys (PostgreSQL
  enforces them at commit); \<open>commit_inserts\<close> is a session commit of pending
  inserts: all rows become visible together, or the commit raises
  \<open>IntegrityError\<close> and none does.
\<close>

record user =
  u_id :: string
  u_tier :: string
  u_settings :: "string option"

record secret =
  sec_id :: string
  sec_name :: "string option"
  sec_encrypted_api_key :: "string option"
  sec_owner_id :: string

record case_action =
  ca_id :: string
  ca_tag :: string
  ca_value :: string
  ca_user_id :: "string option"
  ca_owner_id :: string

record case_context =
  cc_id :: string
  cc_tag :: string
  cc_value :: string
  cc_user_id :: "string option"
  cc_owner_id :: string

record workflow =
  wf_id :: string
  wf_title :: string
  wf_description :: string
  wf_status :: string
  wf_object :: "json option"
  wf_icon_url :: "string option"
  wf_owner_id :: string

record workflow_run =
  wr_id :: string
  wr_status :: string
  wr_workflow_id :: "string option"
  wr_owner_id :: string

record action =
  act_id :: string
  act_type :: string
  act_title :: string
  act_description :: string
  act_status :: string
  act_inputs :: "json option"
  act_workflow_id :: "string option"
  act_owner_id :: string

record action_run =
  ar_id :: string
  ar_status :: string
  ar_action_id :: "string option"
  ar_workflow_run_id :: string
  ar_owner_id :: string

record webhook =
  wh_id :: string
  wh_action_id :: "string option"
  wh_workflow_id :: "string option"
  wh_owner_id :: string

text \<open>An object handed to \<open>session.add\<close>.\<close>

datatype row =
    RUser user
  | RSecret secret
  | RCaseAction case_action
  | RCaseContext case_context
  | RWorkflow workflow
  | RWorkflowRun workflow_run
  | RAction action
  | RActionRun action_run
  | RWebhook webhook

record db =
  users :: "user list"
  secrets :: "secret list"
  case_actions :: "case_action list"
  case_contexts :: "case_context list"
  workflows :: "workflow list"
  workflow_runs :: "workflow_run list"
  actions :: "action list"
  action_runs :: "action_run list"
  webhooks :: "webhook list"

text \<open>\<open>json.loads\<close> of a JSON column and \<open>json.dumps\<close> into one: a column holds
  the parsed value, and \<open>json.loads(None)\<close> raises \<open>TypeError\<close>.\<close>

definition json_loads :: "json option \<Rightarrow> json res" where
  "json_loads t = (case t of None \<Rightarrow> Inl TypeError | Some j \<Rightarrow> Inr j)"

definition json_dumps :: "json \<Rightarrow> json option" where
  "json_dumps j = Some j"

text \<open>\<open>Workflow.key\<close> and \<open>Action.key\<close>.\<close>

definition workflow_key :: "workflow \<Rightarrow> string" where
  "workflow_key w = derive_key (wf_id w) (wf_title w)"

definition action_key :: "action \<Rightarrow> string" where
  "action_key a = derive_key (act_id a) (act_title a)"

text \<open>The \<open>Workflow.actions\<close> relationship: the actions whose foreign key names
  the workflow.\<close>

definition workflow_actions :: "db \<Rightarrow> string \<Rightarrow> action list" where
  "workflow_actions d wid = filter (\<lambda>a. act_workflow_id a = Some wid) (actions d)"

definition fk_opt :: "string option \<Rightarrow> string list \<Rightarrow> bool" where
  "fk_opt r ids = (case r of None \<Rightarrow> True | Some x \<Rightarrow> x \<in> set ids)"

definition db_integrity :: "db \<Rightarrow> bool" where
  "db_integrity d \<longleftrightarrow>
     distinct (map u_id (users d)) \<and>
     distinct (map sec_id (secrets d)) \<and>
     distinct (map ca_id (case_actions d)) \<and>
     distinct (map cc_id (case_contexts d)) \<and>
     distinct (map wf_id (workflows d)) \<and>
     distinct (map wr_id (workflow_runs d)) \<and>
     distinct (map act_id (actions d)) \<and>
     distinct (map ar_id (action_runs d)) \<and>
     distinct (map wh_id (webhooks d)) \<and>
     (\<forall>s\<in>set (secrets d). sec_owner_id s \<in> set (map u_id (users d))) \<and>
     (\<forall>c\<in>set (case_actions d). fk_opt (ca_user_id c) (map u_id (users d))) \<and>
     (\<forall>c\<in>set (case_contexts d). fk_opt (cc_user_id c) (map u_id (users d))) \<and>
     (\<forall>w\<in>set (workflows d). wf_owner_id w \<in> set (map u_id (users d))) \<and>
     (\<forall>r\<in>set (workflow_runs d). fk_opt (wr_workflow_id r) (map wf_id (workflows d))) \<and>
     (\<forall>a\<in>set (actions d). fk_opt (act_workflow_id a) (map wf_id (workflows d))) \<and>
     (\<forall>r\<in>set (action_runs d). fk_opt (ar_action_id r) (map act_id (actions d))
                              \<and> ar_workflow_run_id r \<in> set (map wr_id (workflow_runs d))) \<and>
     (\<forall>h\<in>set (webhooks d). fk_opt (wh_action_id h) (map act_id (actions d))
                           \<and> fk_opt (wh_workflow_id h) (map wf_id (workflows d)))"

primrec insert_row :: "row \<Rightarrow> db \<Rightarrow> db" where
  "insert_row (RUser x) d = d\<lparr>users := users d @ [x]\<rparr>"
| "insert_row (RSecret x) d = d\<lparr>secrets := secrets d @ [x]\<rparr>"
| "insert_row (RCaseAction x) d = d\<lparr>case_actions := case_actions d @ [x]\<rparr>"
| "insert_row (RCaseContext x) d = d\<lparr>case_contexts := case_contexts d @ [x]\<rparr>"
| "insert_row (RWorkflow x) d = d\<lparr>workflows := workflows d @ [x]\<rparr>"
| "insert_row (RWorkflowRun x) d = d\<lparr>workflow_runs := workflow_runs d @ [x]\<rparr>"
| "insert_row (RAction x) d = d\<lparr>actions := actions d @ [x]\<rparr>"
| "insert_row (RActionRun x) d = d\<lparr>action_runs := action_runs d @ [x]\<rparr>"
| "insert_row (RWebhook x) d = d\<lparr>webhooks := webhooks d @ [x]\<rparr>"

text \<open>
  \<open>session.commit()\<close> after \<open>session.add\<close> of each pending row.  The database
  checks its constraints on the rows it inserts; in a state that already
  satisfies them (\<open>db_integrity\<close>), that is the check of the whole state
  after the insert.
\<close>

definition commit_inserts :: "row list \<Rightarrow> db \<Rightarrow> db res" where
  "commit_inserts rows d =
     (let d' = fold insert_row rows d in
      if db_integrity d' then Inr d' else Inl IntegrityError)"

text \<open>The rows of one kind among the pending rows.\<close>

definition pending_actions :: "row list \<Rightarrow> action list" where
  "pending_actions rows = [a. RAction a \<leftarrow> rows]"

definition pending_webhooks :: "row list \<Rightarrow> webhook list" where
  "pending_webhooks rows = [h. RWebhook h \<leftarrow> rows]"

definition pending_workflows :: "row list \<Rightarrow> workflow list" where
  "pending_workflows rows = [w. RWorkflow w \<leftarrow> rows]"

subsection \<open>Lemmas\<close>

lemma json_loads_Inr [simp]: "json_loads t = Inr j \<longleftrightarrow> t = Some j"
  by (simp add: json_loads_def split: option.splits)

lemma json_loads_Some [simp]: "json_loads (Some j) = Inr j"
  by (simp add: json_loads_def)

lemma json_loads_None [simp]: "json_loads None = Inl TypeError"
  by (simp add: json_loads_def)

lemma commit_inserts_Inr:
  "commit_inserts rows d = Inr d' \<longleftrightarrow> d' = fold insert_row rows d \<and> db_integrity d'"
  by (auto simp: commit_inserts_def Let_def)

lemma commit_inserts_Inl:
  "commit_inserts rows d = Inl e \<Longrightarrow> e = IntegrityError"
  by (auto simp: commit_inserts_def Let_def split: if_splits)

text \<open>Inserting rows extends each table by the pending rows of its kind.\<close>

lemma fold_insert_row_tables:
  "workflows (fold insert_row rows d) = workflows d @ pending_workflows rows
   \<and> actions (fold insert_row rows d) = actions d @ pending_actions rows
   \<and> webhooks (fold insert_row rows d) = webhooks d @ pending_webhooks rows
   \<and> users (fold insert_row rows d) = users d @ [u. RUser u \<leftarrow> rows]
   \<and> secrets (fold insert_row rows d) = secrets d @ [u. RSecret u \<leftarrow> rows]
   \<and> case_actions (fold insert_row rows d) = case_actions d @ [u. RCaseAction u \<leftarrow> rows]
   \<and> case_contexts (fold insert_row rows d) = case_contexts d @ [u. RCaseContext u \<leftarrow> rows]
   \<and> workflow_runs (fold insert_row rows d) = workflow_runs d @ [u. RWorkflowRun u \<leftarrow> rows]
   \<and> action_runs (fold insert_row rows d) = action_runs d @ [u. RActionRun u \<leftarrow> rows]"
proof (induction rows arbitrary: d)
  case Nil
  then show ?case by (simp add: pending_workflows_def pending_actions_def pending_webhooks_def)
next
  case (Cons r rows)
  then show ?case
    by (cases r) (simp_all add: pending_workflows_def pending_actions_def pending_webhooks_def)
qed

lemma fk_opt_mono: "fk_opt r ids \<Longrightarrow> set ids \<subseteq> set ids' \<Longrightarrow> fk_opt r ids'"
  by (auto simp: fk_opt_def split: option.splits)

text \<open>New workflows, actions and webhooks with fresh keys and satisfied foreign
  keys keep the schema's constraints.\<close>

lemma db_integrity_append:
  assumes "db_integrity d"
    and "distinct (map wf_id (workflows d @ ws))" and "distinct (map act_id (actions d @ as))"
    and "distinct (map wh_id (webhooks d @ hs))"
    and "\<forall>w\<in>set ws. wf_owner_id w \<in> set (map u_id (users d))"
    and "\<forall>a\<in>set as. fk_opt (act_workflow_id a) (map wf_id (workflows d @ ws))"
    and "\<forall>h\<in>set hs. fk_opt (wh_action_id h) (map act_id (actions d @ as))
                    \<and> fk_opt (wh_workflow_id h) (map wf_id (workflows d @ ws))"
    and "workflows d' = workflows d @ ws" "actions d' = actions d @ as" "webhooks d' = webhooks d @ hs"
    and "users d' = users d" "secrets d' = secrets d" "case_actions d' = case_actions d"
    and "case_contexts d' = case_contexts d" "workflow_runs d' = workflow_runs d"
    and "action_runs d' = action_runs d"
  shows "db_integrity d'"
proof -
  have wf: "set (map wf_id (workflows d)) \<subseteq> set (map wf_id (workflows d @ ws))"
    and ac: "set (map act_id (actions d)) \<subseteq> set (map act_id (actions d @ as))"
    by auto
  have old_r: "\<forall>r\<in>set (workflow_runs d). fk_opt (wr_workflow_id r) (map wf_id (workflows d @ ws))"
    using assms(1) wf by (auto simp: db_integrity_def intro: fk_opt_mono)
  have old_a: "\<forall>a\<in>set (actions d). fk_opt (act_workflow_id a) (map wf_id (workflows d @ ws))"
    using assms(1) wf by (auto simp: db_integrity_def intro: fk_opt_mono)
  have old_ar: "\<forall>r\<in>set (action_runs d). fk_opt (ar_action_id r) (map act_id (actions d @ as))"
    using assms(1) ac by (auto simp: db_integrity_def intro: fk_opt_mono)
  have old_h: "\<forall>h\<in>set (webhooks d). fk_opt (wh_action_id h) (map act_id (actions d @ as))
                    \<and> fk_opt (wh_workflow_id h) (map wf_id (workflows d @ ws))"
    using assms(1) wf ac by (auto simp: db_integrity_def intro: fk_opt_mono)
  show ?thesis
    using assms old_r old_a old_ar old_h
    unfolding db_integrity_def by (simp add: ball_Un)
qed

end
