(* ===== verification/Graph.thy ===== *)
theory Graph
  imports Json
begin

text \<open>
  The React Flow graph document stored in \<open>Workflow.object\<close>
  (\<open>{"nodes": [{"id", "data"}, ...], "edges": [{"id", "source", "target"}, ...]}\<close>)
  and the loops of \<open>clone_workflow\<close> (\<^verbatim>\<open>src/tracecat/db.py\<close>, lines
  392--399) that rewrite it through \<open>action_replacements\<close>, the dict from an
  old action id to the pair of the new id and the new inputs.  The dict is a
  map \<open>repl\<close>; looking a JSON value up in it raises as Python does.
  \<open>edge_pairs\<close> and \<open>node_ids\<close> are the abstract wiring of a document: the
  refinement lemmas show the rewriting renames the wiring through the map.
\<close>

type_synonym replacements = "string \<rightharpoonup> string \<times> json"

text \<open>\<open>action_replacements[k]\<close>: a string key is looked up, another hashable
  value is never a key, a list or dict is unhashable.\<close>

fun repl_lookup :: "replacements \<Rightarrow> json \<Rightarrow> (string \<times> json) res" where
  "repl_lookup r (JStr s) = (case r s of Some v \<Rightarrow> Inr v | None \<Rightarrow> Inl KeyError)"
| "repl_lookup r (JList xs) = Inl TypeError"
| "repl_lookup r (JDict d) = Inl TypeError"
| "repl_lookup r _ = Inl KeyError"

text \<open>
  The body of \<open>for edge in graph["edges"]\<close> (lines 393--395).  The f-string
  \<open>f"{edge['source']}-{edge['target']}"\<close> reads back the two strings just
  assigned.
\<close>

definition remap_edge :: "replacements \<Rightarrow> json \<Rightarrow> json res" where
  "remap_edge r e =
     rbind (json_getitem e ''source'') (\<lambda>s. rbind (repl_lookup r s) (\<lambda>(ns, _).
     rbind (json_setitem e ''source'' (JStr ns)) (\<lambda>e1.
     rbind (json_getitem e1 ''target'') (\<lambda>t. rbind (repl_lookup r t) (\<lambda>(nt, _).
     rbind (json_setitem e1 ''target'' (JStr nt)) (\<lambda>e2.
     json_setitem e2 ''id'' (JStr (ns @ ''-'' @ nt))))))))"

text \<open>The body of \<open>for node in graph["nodes"]\<close> (lines 397--399); the
  in-place \<open>node["data"].update(...)\<close> is the updated dict stored back under
  \<open>"data"\<close>.\<close>

definition remap_node :: "replacements \<Rightarrow> json \<Rightarrow> json res" where
  "remap_node r n =
     rbind (json_getitem n ''id'') (\<lambda>i. rbind (repl_lookup r i) (\<lambda>(nid, ninputs).
     rbind (json_setitem n ''id'' (JStr nid)) (\<lambda>n1.
     rbind (json_getitem n1 ''data'') (\<lambda>dt.
     rbind (json_update dt [(''id'', JStr nid), (''inputs'', ninputs), (''selected'', JBool False)])
       (\<lambda>dt'. json_setitem n1 ''data'' dt')))))"

text \<open>Lines 392--399: both loops over the parsed document.\<close>

definition remap_graph :: "replacements \<Rightarrow> json \<Rightarrow> json res" where
  "remap_graph r g =
     rbind (json_getitem g ''edges'') (\<lambda>es. rbind (py_for_inplace (remap_edge r) es) (\<lambda>es'.
     rbind (json_setitem g ''edges'' es') (\<lambda>g1.
     rbind (json_getitem g1 ''nodes'') (\<lambda>ns. rbind (py_for_inplace (remap_node r) ns) (\<lambda>ns'.
     json_setitem g1 ''nodes'' ns')))))"

subsection \<open>The wiring of a document\<close>

definition str_field :: "json \<Rightarrow> string \<Rightarrow> string option" where
  "str_field j k = (case json_getitem j k of Inr (JStr s) \<Rightarrow> Some s | _ \<Rightarrow> None)"

definition edge_pair :: "json \<Rightarrow> (string \<times> string) option" where
  "edge_pair e = (case (str_field e ''source'', str_field e ''target'') of
                    (Some s, Some t) \<Rightarrow> Some (s, t) | _ \<Rightarrow> None)"

text \<open>The endpoints of all edges, when \<open>edges\<close> is a list of edges with string
  endpoints.\<close>

definition edge_pairs :: "json \<Rightarrow> (string \<times> string) list option" where
  "edge_pairs g = (case json_getitem g ''edges'' of
                     Inr (JList es) \<Rightarrow> those (map edge_pair es) | _ \<Rightarrow> None)"

definition node_ids :: "json \<Rightarrow> string list option" where
  "node_ids g = (case json_getitem g ''nodes'' of
                   Inr (JList ns) \<Rightarrow> those (map (\<lambda>n. str_field n ''id'') ns) | _ \<Rightarrow> None)"

text \<open>A document is closed over a set of action ids when every edge's
  endpoints are in the set and its id is \<open>"{source}-{target}"\<close>, and every node's
  id is in the set and repeated in its \<open>data\<close>.\<close>

definition edge_closed :: "string set \<Rightarrow> json \<Rightarrow> bool" where
  "edge_closed ids e \<longleftrightarrow>
     (case (str_field e ''source'', str_field e ''target'', str_field e ''id'') of
        (Some s, Some t, Some i) \<Rightarrow> s \<in> ids \<and> t \<in> ids \<and> i = s @ ''-'' @ t
      | _ \<Rightarrow> False)"

definition node_closed :: "string set \<Rightarrow> json \<Rightarrow> bool" where
  "node_closed ids n \<longleftrightarrow>
     (case (str_field n ''id'', json_getitem n ''data'') of
        (Some i, Inr dt) \<Rightarrow> i \<in> ids \<and> str_field dt ''id'' = Some i
      | _ \<Rightarrow> False)"

definition graph_closed :: "string set \<Rightarrow> json \<Rightarrow> bool" where
  "graph_closed ids g \<longleftrightarrow>
     (case (json_getitem g ''edges'', json_getitem g ''nodes'') of
        (Inr es, Inr ns) \<Rightarrow>
          (case (py_iter es, py_iter ns) of
             (Inr xs, Inr ys) \<Rightarrow> list_all (edge_closed ids) xs \<and> list_all (node_closed ids) ys
           | _ \<Rightarrow> False)
      | _ \<Rightarrow> False)"

text \<open>A document the rewriting accepts: a dict whose \<open>edges\<close> and \<open>nodes\<close>
  are lists of dicts, every edge with string endpoints among \<open>ids\<close>, every
  node with a string id among \<open>ids\<close> and a dict as \<open>data\<close>.\<close>

fun str_in :: "string set \<Rightarrow> json option \<Rightarrow> bool" where
  "str_in ids (Some (JStr s)) = (s \<in> ids)"
| "str_in ids _ = False"

fun is_dict :: "json option \<Rightarrow> bool" where
  "is_dict (Some (JDict _)) = True"
| "is_dict _ = False"

fun list_of_all :: "(json \<Rightarrow> bool) \<Rightarrow> json option \<Rightarrow> bool" where
  "list_of_all P (Some (JList xs)) = list_all P xs"
| "list_of_all P _ = False"

fun edge_wf :: "string set \<Rightarrow> json \<Rightarrow> bool" where
  "edge_wf ids (JDict d) = (str_in ids (map_of d ''source'') \<and> str_in ids (map_of d ''target''))"
| "edge_wf ids _ = False"

fun node_wf :: "string set \<Rightarrow> json \<Rightarrow> bool" where
  "node_wf ids (JDict d) = (str_in ids (map_of d ''id'') \<and> is_dict (map_of d ''data''))"
| "node_wf ids _ = False"

fun graph_wf :: "string set \<Rightarrow> json \<Rightarrow> bool" where
  "graph_wf ids (JDict d) =
     (list_of_all (edge_wf ids) (map_of d ''edges'') \<and> list_of_all (node_wf ids) (map_of d ''nodes''))"
| "graph_wf ids _ = False"

subsection \<open>Lemmas on the rewriting\<close>

lemma repl_lookup_Inr [res_simps]:
  "repl_lookup r k = Inr v \<longleftrightarrow> (\<exists>s. k = JStr s \<and> r s = Some v)"
  by (cases k) (auto split: option.splits)

lemma remap_edge_str [simp]: "remap_edge r (JStr s) = Inl TypeError"
  by (simp add: remap_edge_def)

lemma remap_node_str [simp]: "remap_node r (JStr s) = Inl TypeError"
  by (simp add: remap_node_def)

text \<open>A loop whose body raises on every string runs over a dict or a string
  only when it is empty.\<close>

lemma py_for_inplace_str_fail:
  assumes "py_for_inplace f c = Inr c'" and "\<And>s. isl (f (JStr s))"
  shows "(\<exists>xs ys. c = JList xs \<and> c' = JList ys \<and> list_all2 (\<lambda>x y. f x = Inr y) xs ys)
       \<or> (c' = c \<and> py_iter c = Inr [])"
proof -
  from py_for_inplace_Inr [OF assms(1)]
  consider (lst) "\<exists>xs ys. c = JList xs \<and> c' = JList ys \<and> list_all2 (\<lambda>x y. f x = Inr y) xs ys"
    | (other) xs where "\<forall>xs. c \<noteq> JList xs" "c' = c" "py_iter c = Inr xs"
        "\<forall>x\<in>set xs. \<not> isl (f x)"
    by blast
  then show ?thesis
  proof cases
    case lst
    then show ?thesis by blast
  next
    case other
    have "xs = []"
    proof (cases c)
      case (JDict d)
      with other assms(2) show ?thesis by (cases d) auto
    next
      case (JStr s)
      with other assms(2) show ?thesis by (cases s) auto
    qed (use other in auto)
    with other show ?thesis by simp
  qed
qed

lemma remap_edge_Inr:
  assumes "remap_edge r e = Inr e'"
  shows "\<exists>d s t ns x nt y. e = JDict d \<and> map_of d ''source'' = Some (JStr s)
     \<and> map_of d ''target'' = Some (JStr t) \<and> r s = Some (ns, x) \<and> r t = Some (nt, y)
     \<and> e' = JDict (dict_set (dict_set (dict_set d ''source'' (JStr ns)) ''target'' (JStr nt))
                    ''id'' (JStr (ns @ ''-'' @ nt)))"
  using assms
  by (auto simp: remap_edge_def rbind_eq_Inr json_getitem_Inr json_setitem_Inr
      repl_lookup_Inr split: prod.splits)

lemma remap_node_Inr:
  assumes "remap_node r n = Inr n'"
  shows "\<exists>d i nid x dd. n = JDict d \<and> map_of d ''id'' = Some (JStr i) \<and> r i = Some (nid, x)
     \<and> map_of d ''data'' = Some (JDict dd)
     \<and> n' = JDict (dict_set (dict_set d ''id'' (JStr nid)) ''data''
                    (JDict (dict_update dd [(''id'', JStr nid), (''inputs'', x), (''selected'', JBool False)])))"
  using assms
  by (auto simp: remap_node_def rbind_eq_Inr json_getitem_Inr json_setitem_Inr json_update_Inr
      repl_lookup_Inr split: prod.splits)

lemma remap_graph_Inr:
  assumes "remap_graph r g = Inr g'"
  shows "\<exists>d es es' ns ns'. g = JDict d \<and> map_of d ''edges'' = Some es \<and> map_of d ''nodes'' = Some ns
     \<and> py_for_inplace (remap_edge r) es = Inr es' \<and> py_for_inplace (remap_node r) ns = Inr ns'
     \<and> g' = JDict (dict_set (dict_set d ''edges'' es') ''nodes'' ns')"
  using assms
  by (auto simp: remap_graph_def rbind_eq_Inr json_getitem_Inr json_setitem_Inr)

lemma str_field_JDict [simp]:
  "str_field (JDict d) k = (case map_of d k of Some (JStr s) \<Rightarrow> Some s | _ \<Rightarrow> None)"
  by (simp add: str_field_def split: option.splits json.splits)

lemma remap_edge_pair:
  assumes "remap_edge r e = Inr e'"
  shows "\<exists>s t. edge_pair e = Some (s, t) \<and> s \<in> dom r \<and> t \<in> dom r
     \<and> edge_pair e' = Some (fst (the (r s)), fst (the (r t)))"
  using remap_edge_Inr [OF assms] by (auto simp: edge_pair_def)

lemma remap_edge_closed:
  assumes "remap_edge r e = Inr e'"
  shows "edge_closed (fst ` ran r) e'"
proof -
  from remap_edge_Inr [OF assms] obtain d s t ns x nt y where
    r: "r s = Some (ns, x)" "r t = Some (nt, y)" and
    e': "e' = JDict (dict_set (dict_set (dict_set d ''source'' (JStr ns)) ''target'' (JStr nt))
                    ''id'' (JStr (ns @ ''-'' @ nt)))"
    by blast
  from r have "ns \<in> fst ` ran r" "nt \<in> fst ` ran r"
    by (force simp: ran_def)+
  with e' show ?thesis by (simp add: edge_closed_def)
qed

lemma remap_node_id:
  assumes "remap_node r n = Inr n'"
  shows "\<exists>i. str_field n ''id'' = Some i \<and> i \<in> dom r \<and> str_field n' ''id'' = Some (fst (the (r i)))"
  using remap_node_Inr [OF assms] by auto

lemma remap_node_closed:
  assumes "remap_node r n = Inr n'"
  shows "node_closed (fst ` ran r) n'"
proof -
  from remap_node_Inr [OF assms] obtain d i nid x dd where
    r: "r i = Some (nid, x)" and
    n': "n' = JDict (dict_set (dict_set d ''id'' (JStr nid)) ''data''
                    (JDict (dict_update dd [(''id'', JStr nid), (''inputs'', x), (''selected'', JBool False)])))"
    by blast
  from r have "nid \<in> fst ` ran r" by (force simp: ran_def)
  with n' show ?thesis by (simp add: node_closed_def map_add_def)
qed

text \<open>Whatever a loop body guarantees of each item it returns holds of every
  item of the container after the loop.\<close>

lemma py_for_inplace_all:
  assumes "py_for_inplace f c = Inr c'" and "\<And>s. isl (f (JStr s))"
    and "\<And>x y. f x = Inr y \<Longrightarrow> P y"
  shows "\<exists>ys. py_iter c' = Inr ys \<and> list_all P ys"
proof -
  from py_for_inplace_str_fail [OF assms(1,2)]
  consider (lst) xs ys where "c' = JList ys" "list_all2 (\<lambda>x y. f x = Inr y) xs ys"
    | (empty) "c' = c" "py_iter c = Inr []"
    by blast
  then show ?thesis
  proof cases
    case lst
    from lst(2) have "list_all P ys" by (rule list_all2_right_all) (rule assms(3))
    with lst(1) show ?thesis by simp
  next
    case empty
    then show ?thesis by simp
  qed
qed

lemma remap_graph_fields:
  assumes "remap_graph r g = Inr g'"
  shows "\<exists>es es' ns ns'. json_getitem g ''edges'' = Inr es \<and> json_getitem g ''nodes'' = Inr ns
     \<and> json_getitem g' ''edges'' = Inr es' \<and> json_getitem g' ''nodes'' = Inr ns'
     \<and> py_for_inplace (remap_edge r) es = Inr es' \<and> py_for_inplace (remap_node r) ns = Inr ns'"
  using remap_graph_Inr [OF assms] by auto

lemma remap_graph_closed:
  assumes "remap_graph r g = Inr g'"
  shows "graph_closed (fst ` ran r) g'"
proof -
  from remap_graph_fields [OF assms] obtain es es' ns ns' where
    f: "json_getitem g' ''edges'' = Inr es'" "json_getitem g' ''nodes'' = Inr ns'"
       "py_for_inplace (remap_edge r) es = Inr es'" "py_for_inplace (remap_node r) ns = Inr ns'"
    by blast
  have "\<exists>xs. py_iter es' = Inr xs \<and> list_all (edge_closed (fst ` ran r)) xs"
  proof (rule py_for_inplace_all [OF f(3)])
    fix s show "isl (remap_edge r (JStr s))" by simp
  next
    fix x y assume "remap_edge r x = Inr y"
    then show "edge_closed (fst ` ran r) y" by (rule remap_edge_closed)
  qed
  moreover have "\<exists>ys. py_iter ns' = Inr ys \<and> list_all (node_closed (fst ` ran r)) ys"
  proof (rule py_for_inplace_all [OF f(4)])
    fix s show "isl (remap_node r (JStr s))" by simp
  next
    fix x y assume "remap_node r x = Inr y"
    then show "node_closed (fst ` ran r) y" by (rule remap_node_closed)
  qed
  ultimately show ?thesis using f(1,2) by (auto simp: graph_closed_def)
qed

lemma remap_graph_edge_pairs:
  assumes "remap_graph r g = Inr g'" and "edge_pairs g = Some ps"
  shows "edge_pairs g' = Some (map (\<lambda>(s, t). (fst (the (r s)), fst (the (r t)))) ps)
       \<and> (\<forall>(s, t)\<in>set ps. s \<in> dom r \<and> t \<in> dom r)"
proof -
  from assms(2) obtain xs where es: "json_getitem g ''edges'' = Inr (JList xs)"
    and ps: "list_all2 (\<lambda>x p. edge_pair x = Some p) xs ps"
    by (auto simp: edge_pairs_def those_map_Some split: sum.splits json.splits)
  from remap_graph_fields [OF assms(1)] es obtain es' where
    es': "json_getitem g' ''edges'' = Inr es'" and loop: "py_for_inplace (remap_edge r) (JList xs) = Inr es'"
    by auto
  from loop obtain ys where ys: "es' = JList ys" and rel: "list_all2 (\<lambda>x y. remap_edge r x = Inr y) xs ys"
    by (auto simp: py_for_inplace_def rbind_eq_Inr map_res_Inr_iff)
  have "list_all2 (\<lambda>y p. edge_pair y = Some p) ys (map (\<lambda>(s, t). (fst (the (r s)), fst (the (r t)))) ps)"
    using rel ps by (rule list_all2_compose_map) (auto dest: remap_edge_pair)
  moreover have "\<forall>(s, t)\<in>set ps. s \<in> dom r \<and> t \<in> dom r"
  proof
    fix p assume "p \<in> set ps"
    then obtain k where k: "k < length ps" "ps ! k = p" by (auto simp: in_set_conv_nth)
    with ps rel have "edge_pair (xs ! k) = Some p" "remap_edge r (xs ! k) = Inr (ys ! k)"
      by (auto simp: list_all2_conv_all_nth)
    with remap_edge_pair [of r "xs ! k" "ys ! k"]
    show "case p of (s, t) \<Rightarrow> s \<in> dom r \<and> t \<in> dom r" by auto
  qed
  ultimately show ?thesis using es' ys by (simp add: edge_pairs_def those_map_Some)
qed

lemma remap_graph_node_ids:
  assumes "remap_graph r g = Inr g'" and "node_ids g = Some nids"
  shows "node_ids g' = Some (map (\<lambda>i. fst (the (r i))) nids)"
proof -
  from assms(2) obtain xs where ns: "json_getitem g ''nodes'' = Inr (JList xs)"
    and nids: "list_all2 (\<lambda>x i. str_field x ''id'' = Some i) xs nids"
    by (auto simp: node_ids_def those_map_Some split: sum.splits json.splits)
  from remap_graph_fields [OF assms(1)] ns obtain ns' where
    ns': "json_getitem g' ''nodes'' = Inr ns'" and loop: "py_for_inplace (remap_node r) (JList xs) = Inr ns'"
    by auto
  from loop obtain ys where ys: "ns' = JList ys" and rel: "list_all2 (\<lambda>x y. remap_node r x = Inr y) xs ys"
    by (auto simp: py_for_inplace_def rbind_eq_Inr map_res_Inr_iff)
  have "list_all2 (\<lambda>y i. str_field y ''id'' = Some i) ys (map (\<lambda>i. fst (the (r i))) nids)"
    using rel nids by (rule list_all2_compose_map) (auto dest: remap_node_id)
  with ns' ys show ?thesis by (simp add: node_ids_def those_map_Some)
qed

lemma graph_closed_mono:
  assumes "graph_closed ids g" and "ids \<subseteq> ids'"
  shows "graph_closed ids' g"
proof -
  have e: "edge_closed ids e \<Longrightarrow> edge_closed ids' e" for e
    using assms(2) by (auto simp: edge_closed_def split: option.splits)
  have n: "node_closed ids n \<Longrightarrow> node_closed ids' n" for n
    using assms(2) by (auto simp: node_closed_def split: option.splits sum.splits)
  from assms(1) show ?thesis
    by (auto simp: graph_closed_def list_all_iff intro: e n split: sum.splits)
qed

lemma str_in_iff: "str_in ids x \<longleftrightarrow> (\<exists>s. x = Some (JStr s) \<and> s \<in> ids)"
  by (cases "(ids, x)" rule: str_in.cases) auto

lemma is_dict_iff: "is_dict x \<longleftrightarrow> (\<exists>d. x = Some (JDict d))"
  by (cases x rule: is_dict.cases) auto

lemma list_of_all_iff: "list_of_all P x \<longleftrightarrow> (\<exists>xs. x = Some (JList xs) \<and> list_all P xs)"
  by (cases "(P, x)" rule: list_of_all.cases) auto

lemma remap_edge_succeeds:
  assumes "edge_wf (dom r) e"
  shows "\<exists>e'. remap_edge r e = Inr e'"
proof (cases e)
  case (JDict d)
  with assms obtain s t where st: "map_of d ''source'' = Some (JStr s)" "map_of d ''target'' = Some (JStr t)"
      "s \<in> dom r" "t \<in> dom r"
    by (auto simp: str_in_iff)
  then obtain ns x nt y where "r s = Some (ns, x)" "r t = Some (nt, y)" by auto
  with JDict st show ?thesis by (simp add: remap_edge_def)
qed (use assms in simp_all)

lemma remap_node_succeeds:
  assumes "node_wf (dom r) n"
  shows "\<exists>n'. remap_node r n = Inr n'"
proof (cases n)
  case (JDict d)
  with assms obtain i dd where st: "map_of d ''id'' = Some (JStr i)" "map_of d ''data'' = Some (JDict dd)"
      "i \<in> dom r"
    by (auto simp: str_in_iff is_dict_iff)
  then obtain ni x where "r i = Some (ni, x)" by auto
  with JDict st show ?thesis by (simp add: remap_node_def)
qed (use assms in simp_all)

lemma remap_graph_succeeds:
  assumes "graph_wf (dom r) g"
  shows "\<exists>g'. remap_graph r g = Inr g'"
proof (cases g)
  case (JDict d)
  with assms obtain es ns where f: "map_of d ''edges'' = Some (JList es)" "map_of d ''nodes'' = Some (JList ns)"
    and wf: "list_all (edge_wf (dom r)) es" "list_all (node_wf (dom r)) ns"
    by (auto simp: list_of_all_iff)
  have "\<exists>es'. map_res (remap_edge r) es = Inr es'"
  proof (rule map_res_succeeds)
    fix x assume "x \<in> set es"
    with wf(1) show "\<exists>y. remap_edge r x = Inr y" by (intro remap_edge_succeeds) (simp add: list_all_iff)
  qed
  moreover have "\<exists>ns'. map_res (remap_node r) ns = Inr ns'"
  proof (rule map_res_succeeds)
    fix x assume "x \<in> set ns"
    with wf(2) show "\<exists>y. remap_node r x = Inr y" by (intro remap_node_succeeds) (simp add: list_all_iff)
  qed
  ultimately show ?thesis using JDict f by (auto simp: remap_graph_def py_for_inplace_def)
qed (use assms in simp_all)

lemma repl_lookup_py_error [simp]: "err_in py_error (repl_lookup r k)"
  by (cases k) (simp_all add: py_error_def split: option.splits)

lemma remap_graph_py_error: "err_in py_error (remap_graph r g)"
proof -
  have e: "err_in py_error (remap_edge r x)" for x
    by (auto simp: remap_edge_def err_in_rbind_iff split: prod.splits)
  have n: "err_in py_error (remap_node r x)" for x
    by (auto simp: remap_node_def err_in_rbind_iff split: prod.splits)
  show ?thesis
    by (simp add: remap_graph_def err_in_rbind_iff py_for_inplace_py_error e n)
qed

end
