(* ===== verification/Clone.thy ===== *)
theory Clone
  imports Store Graph "HOL-Library.Multiset"
begin

text \<open>
  The graph clone engine, \<open>clone_workflow\<close> of \<^verbatim>\<open>src/tracecat/db.py\<close>
  (lines 337--403).  The state threaded through the loop over
  \<open>workflow.actions\<close> is \<open>clone_st\<close>: the index of the next \<open>uuid4()\<close> value
  (every model constructor \<open>Workflow(...)\<close>, \<open>Action(...)\<close>, \<open>Webhook(...)\<close> draws
  one for its \<open>id\<close>), the objects given to \<open>session.add\<close> in order, and the
  dict \<open>action_replacements\<close>.  The result is the new workflow, the next
  uuid index and the pending rows; the caller commits them
  (\<open>Api.copy_workflow\<close>).
\<close>

record clone_st =
  cs_next :: nat
  cs_pending :: "row list"
  cs_repl :: replacements

text \<open>One iteration of \<open>for action in workflow.actions\<close> (lines 366--388).\<close>

definition clone_action :: "env \<Rightarrow> string \<Rightarrow> string \<Rightarrow> clone_st \<Rightarrow> action \<Rightarrow> clone_st res" where
  "clone_action E new_owner new_wid st a =
     (let aid = uuid4_hex E (cs_next st);
          ca = a\<lparr>act_id := aid, act_workflow_id := Some new_wid, act_owner_id := new_owner\<rparr>
      in rbind (json_loads (act_inputs ca)) (\<lambda>inputs.
         rbind (if act_type a = ''webhook'' then
                  (let hid = uuid4_hex E (Suc (cs_next st));
                       hook = \<lparr>wh_id = hid, wh_action_id = Some aid, wh_workflow_id = Some new_wid,
                               wh_owner_id = new_owner\<rparr>
                   in rbind (json_update inputs
                               [(''path'', JStr hid), (''secret'', JStr (webhook_secret E hid))])
                        (\<lambda>inputs'. Inr (inputs', Suc (Suc (cs_next st)), [RWebhook hook])))
                else Inr (inputs, Suc (cs_next st), []))
         (\<lambda>(inputs', n, hooks).
            Inr \<lparr>cs_next = n,
                 cs_pending = cs_pending st @ hooks @ [RAction (ca\<lparr>act_inputs := json_dumps inputs'\<rparr>)],
                 cs_repl = (cs_repl st)(act_id a \<mapsto> (aid, inputs'))\<rparr>)))"

fun clone_actions :: "env \<Rightarrow> string \<Rightarrow> string \<Rightarrow> clone_st \<Rightarrow> action list \<Rightarrow> clone_st res" where
  "clone_actions E new_owner new_wid st [] = Inr st"
| "clone_actions E new_owner new_wid st (a # acts) =
     rbind (clone_action E new_owner new_wid st a) (\<lambda>st'. clone_actions E new_owner new_wid st' acts)"

text \<open>Lines 352--403.  \<open>n\<close> is the index of the next \<open>uuid4()\<close> value.\<close>

definition clone_workflow ::
  "env \<Rightarrow> db \<Rightarrow> workflow \<Rightarrow> string \<Rightarrow> nat \<Rightarrow> (workflow \<times> nat \<times> row list) res" where
  "clone_workflow E d w new_owner n =
     (let cw = w\<lparr>wf_id := uuid4_hex E n, wf_status := ''offline'', wf_object := None,
                 wf_owner_id := new_owner\<rparr>
      in rbind (clone_actions E new_owner (wf_id cw)
                  \<lparr>cs_next = Suc n, cs_pending = [], cs_repl = Map.empty\<rparr>
                  (workflow_actions d (wf_id w))) (\<lambda>st.
         rbind (json_loads (wf_object w)) (\<lambda>graph.
         rbind (remap_graph (cs_repl st) graph) (\<lambda>graph'.
         let cw' = cw\<lparr>wf_object := json_dumps graph'\<rparr>
         in Inr (cw', cs_next st, cs_pending st @ [RWorkflow cw'])))))"

text \<open>What a cloned action keeps of its source, and where it now belongs.\<close>

definition cloned_action :: "string \<Rightarrow> string \<Rightarrow> action \<Rightarrow> action \<Rightarrow> bool" where
  "cloned_action new_owner new_wid a a' \<longleftrightarrow>
     act_type a' = act_type a \<and> act_title a' = act_title a \<and>
     act_description a' = act_description a \<and> act_status a' = act_status a \<and>
     act_owner_id a' = new_owner \<and> act_workflow_id a' = Some new_wid"

text \<open>A new webhook and the new action whose inputs point at it.\<close>

definition hook_of :: "env \<Rightarrow> string \<Rightarrow> string \<Rightarrow> action list \<Rightarrow> webhook \<Rightarrow> bool" where
  "hook_of E new_owner new_wid new_acts h \<longleftrightarrow>
     wh_owner_id h = new_owner \<and> wh_workflow_id h = Some new_wid \<and>
     (\<exists>a'\<in>set new_acts. wh_action_id h = Some (act_id a') \<and> act_type a' = ''webhook'' \<and>
        (\<exists>inp. act_inputs a' = Some (JDict inp) \<and>
           map_of inp ''path'' = Some (JStr (wh_id h)) \<and>
           map_of inp ''secret'' = Some (JStr (webhook_secret E (wh_id h)))))"

text \<open>A source the clone accepts: every action has inputs, a dict for a
  webhook action, and the document is well formed over the action ids.\<close>

definition action_clonable :: "action \<Rightarrow> bool" where
  "action_clonable a \<longleftrightarrow> act_inputs a \<noteq> None \<and> (act_type a = ''webhook'' \<longrightarrow> is_dict (act_inputs a))"

definition clonable :: "db \<Rightarrow> workflow \<Rightarrow> bool" where
  "clonable d w \<longleftrightarrow>
     list_all action_clonable (workflow_actions d (wf_id w)) \<and>
     (case wf_object w of
        None \<Rightarrow> False
      | Some g \<Rightarrow> graph_wf (set (map act_id (workflow_actions d (wf_id w)))) g)"

subsection \<open>One iteration\<close>

lemma clone_action_Inr:
  assumes "clone_action E o' w st a = Inr st'"
  shows "\<exists>a' hooks inp. act_inputs a = Some inp \<and> cloned_action o' w a a'
     \<and> act_id a' = uuid4_hex E (cs_next st)
     \<and> cs_pending st' = cs_pending st @ hooks @ [RAction a']
     \<and> cs_repl st' = (cs_repl st)(act_id a \<mapsto> (act_id a', the (act_inputs a')))
     \<and> act_inputs a' \<noteq> None
     \<and> cs_next st' = Suc (cs_next st) + length hooks
     \<and> (if act_type a = ''webhook''
        then \<exists>h. hooks = [RWebhook h] \<and> wh_id h = uuid4_hex E (Suc (cs_next st))
                 \<and> hook_of E o' w [a'] h
        else hooks = [] \<and> act_inputs a' = Some inp)"
  using assms
  by (auto simp: clone_action_def Let_def rbind_eq_Inr json_update_Inr json_dumps_def
      cloned_action_def hook_of_def split: if_splits prod.splits)

lemma hook_of_mono:
  "hook_of E o' w new h \<Longrightarrow> set new \<subseteq> set new' \<Longrightarrow> hook_of E o' w new' h"
  unfolding hook_of_def by blast

lemma pending_simps [simp]:
  "pending_actions (xs @ ys) = pending_actions xs @ pending_actions ys"
  "pending_webhooks (xs @ ys) = pending_webhooks xs @ pending_webhooks ys"
  "pending_workflows (xs @ ys) = pending_workflows xs @ pending_workflows ys"
  "pending_actions [] = []" "pending_webhooks [] = []" "pending_workflows [] = []"
  "pending_actions (RAction a # xs) = a # pending_actions xs"
  "pending_webhooks (RAction a # xs) = pending_webhooks xs"
  "pending_workflows (RAction a # xs) = pending_workflows xs"
  "pending_actions (RWebhook h # xs) = pending_actions xs"
  "pending_webhooks (RWebhook h # xs) = h # pending_webhooks xs"
  "pending_workflows (RWebhook h # xs) = pending_workflows xs"
  "pending_actions (RWorkflow w # xs) = pending_actions xs"
  "pending_webhooks (RWorkflow w # xs) = pending_webhooks xs"
  "pending_workflows (RWorkflow w # xs) = w # pending_workflows xs"
  by (simp_all add: pending_actions_def pending_webhooks_def pending_workflows_def)

subsection \<open>The loop over the source actions\<close>

text \<open>Everything the loop adds, as a function of the source actions: one
  cloned action per source action, one webhook per webhook-typed one, the
  replacement of each source id, and identifiers that are exactly the
  \<open>uuid4()\<close> values it draws.\<close>

lemma clone_actions_Inr:
  assumes "clone_actions E o' w st acts = Inr st'"
  shows "\<exists>rows. cs_pending st' = cs_pending st @ rows
     \<and> (\<forall>x\<in>set rows. (\<exists>a. x = RAction a) \<or> (\<exists>h. x = RWebhook h))
     \<and> list_all2 (cloned_action o' w) acts (pending_actions rows)
     \<and> list_all (\<lambda>a'. act_inputs a' \<noteq> None) (pending_actions rows)
     \<and> length (pending_webhooks rows) = length (filter (\<lambda>a. act_type a = ''webhook'') acts)
     \<and> list_all (hook_of E o' w (pending_actions rows)) (pending_webhooks rows)
     \<and> pending_workflows rows = []
     \<and> dom (cs_repl st') = dom (cs_repl st) \<union> set (map act_id acts)
     \<and> (\<forall>k\<in>set (map act_id acts). fst (the (cs_repl st' k)) \<in> set (map act_id (pending_actions rows)))
     \<and> (\<forall>k. k \<notin> set (map act_id acts) \<longrightarrow> cs_repl st' k = cs_repl st k)
     \<and> cs_next st \<le> cs_next st'
     \<and> mset (map act_id (pending_actions rows) @ map wh_id (pending_webhooks rows))
         = mset (map (uuid4_hex E) [cs_next st..<cs_next st'])
     \<and> (distinct (map act_id acts) \<longrightarrow>
         list_all2 (\<lambda>a a'. fst (the (cs_repl st' (act_id a))) = act_id a') acts (pending_actions rows))"
  using assms
proof (induction acts arbitrary: st)
  case Nil
  then show ?case by simp
next
  case (Cons a acts)
  from Cons.prems obtain st1 where
    step: "clone_action E o' w st a = Inr st1" and rest: "clone_actions E o' w st1 acts = Inr st'"
    by (auto simp: rbind_eq_Inr)
  from clone_action_Inr [OF step] obtain a' hooks inp where
    a': "cloned_action o' w a a'" "act_id a' = uuid4_hex E (cs_next st)" "act_inputs a' \<noteq> None"
      and pend: "cs_pending st1 = cs_pending st @ hooks @ [RAction a']"
      and repl: "cs_repl st1 = (cs_repl st)(act_id a \<mapsto> (act_id a', the (act_inputs a')))"
      and next1: "cs_next st1 = Suc (cs_next st) + length hooks"
      and hooks: "if act_type a = ''webhook''
        then \<exists>h. hooks = [RWebhook h] \<and> wh_id h = uuid4_hex E (Suc (cs_next st)) \<and> hook_of E o' w [a'] h
        else hooks = [] \<and> act_inputs a' = Some inp"
    by blast
  from Cons.IH [OF rest] obtain rows where
    IH: "cs_pending st' = cs_pending st1 @ rows"
      "\<forall>x\<in>set rows. (\<exists>a. x = RAction a) \<or> (\<exists>h. x = RWebhook h)"
      "list_all2 (cloned_action o' w) acts (pending_actions rows)"
      "list_all (\<lambda>a'. act_inputs a' \<noteq> None) (pending_actions rows)"
      "length (pending_webhooks rows) = length (filter (\<lambda>a. act_type a = ''webhook'') acts)"
      "list_all (hook_of E o' w (pending_actions rows)) (pending_webhooks rows)"
      "pending_workflows rows = []"
      "dom (cs_repl st') = dom (cs_repl st1) \<union> set (map act_id acts)"
      "\<forall>k\<in>set (map act_id acts). fst (the (cs_repl st' k)) \<in> set (map act_id (pending_actions rows))"
      "\<forall>k. k \<notin> set (map act_id acts) \<longrightarrow> cs_repl st' k = cs_repl st1 k"
      "cs_next st1 \<le> cs_next st'"
      "mset (map act_id (pending_actions rows) @ map wh_id (pending_webhooks rows))
         = mset (map (uuid4_hex E) [cs_next st1..<cs_next st'])"
      "distinct (map act_id acts) \<longrightarrow>
         list_all2 (\<lambda>a a'. fst (the (cs_repl st' (act_id a))) = act_id a') acts (pending_actions rows)"
    by blast
  let ?rows = "hooks @ RAction a' # rows"
  have kinds: "\<forall>x\<in>set ?rows. (\<exists>a. x = RAction a) \<or> (\<exists>h. x = RWebhook h)"
    using hooks IH(2) by (auto split: if_splits)
  have new: "pending_actions ?rows = a' # pending_actions rows" and
    pw: "pending_workflows ?rows = []"
    using hooks IH(7) by (auto split: if_splits)
  have "list_all (hook_of E o' w (pending_actions ?rows)) (pending_webhooks ?rows)"
    using hooks IH(6) by (auto simp: new list_all_iff intro: hook_of_mono split: if_splits)
  moreover have "length (pending_webhooks ?rows) = length (filter (\<lambda>a. act_type a = ''webhook'') (a # acts))"
    using hooks IH(5) by (auto split: if_splits)
  moreover have "\<forall>k\<in>set (map act_id (a # acts)).
      fst (the (cs_repl st' k)) \<in> set (map act_id (pending_actions ?rows))"
  proof
    fix k assume k: "k \<in> set (map act_id (a # acts))"
    show "fst (the (cs_repl st' k)) \<in> set (map act_id (pending_actions ?rows))"
    proof (cases "k \<in> set (map act_id acts)")
      case True
      with IH(9) have "fst (the (cs_repl st' k)) \<in> set (map act_id (pending_actions rows))" by blast
      then show ?thesis unfolding new by simp
    next
      case False
      with k have "k = act_id a" by simp
      with False IH(10) repl have "cs_repl st' k = Some (act_id a', the (act_inputs a'))" by simp
      then show ?thesis unfolding new by simp
    qed
  qed
  moreover have "mset (map act_id (pending_actions ?rows) @ map wh_id (pending_webhooks ?rows))
      = mset (map (uuid4_hex E) [cs_next st..<cs_next st'])"
  proof -
    have split: "[cs_next st..<cs_next st'] = [cs_next st..<cs_next st1] @ [cs_next st1..<cs_next st']"
      using next1 IH(11) by (intro upt_split_at) simp_all
    have A: "mset (map act_id (pending_actions ?rows) @ map wh_id (pending_webhooks ?rows))
        = mset (map act_id (pending_actions rows) @ map wh_id (pending_webhooks rows))
          + mset (act_id a' # map wh_id (pending_webhooks hooks))"
      using hooks by (auto split: if_splits)
    have B: "mset (act_id a' # map wh_id (pending_webhooks hooks))
        = mset (map (uuid4_hex E) [cs_next st..<cs_next st1])"
    proof (cases "act_type a = ''webhook''")
      case True
      with hooks obtain h where "hooks = [RWebhook h]" "wh_id h = uuid4_hex E (Suc (cs_next st))"
        by auto
      moreover from this next1 have "[cs_next st..<cs_next st1] = [cs_next st, Suc (cs_next st)]"
        by (simp add: upt_conv_Cons)
      ultimately show ?thesis using a'(2) by simp
    next
      case False
      with hooks next1 have "hooks = []" "[cs_next st..<cs_next st1] = [cs_next st]" by simp_all
      then show ?thesis using a'(2) by simp
    qed
    have C: "mset (map (uuid4_hex E) [cs_next st..<cs_next st'])
        = mset (map (uuid4_hex E) [cs_next st..<cs_next st1])
          + mset (map (uuid4_hex E) [cs_next st1..<cs_next st'])"
      by (subst split) (simp only: map_append mset_append)
    show ?thesis by (simp only: A B IH(12) C add.commute)
  qed
  moreover have "distinct (map act_id (a # acts)) \<longrightarrow>
      list_all2 (\<lambda>a a'. fst (the (cs_repl st' (act_id a))) = act_id a') (a # acts) (pending_actions ?rows)"
  proof
    assume dist: "distinct (map act_id (a # acts))"
    then have "act_id a \<notin> set (map act_id acts)" by simp
    with IH(10) repl have "fst (the (cs_repl st' (act_id a))) = act_id a'" by simp
    with dist IH(13) show "list_all2 (\<lambda>a a'. fst (the (cs_repl st' (act_id a))) = act_id a')
        (a # acts) (pending_actions ?rows)"
      unfolding new by simp
  qed
  ultimately show ?case
    using IH a' pend repl next1 new pw kinds by (auto simp: fun_upd_apply)
qed

subsection \<open>The whole clone\<close>

lemma clone_workflow_Inr:
  assumes "clone_workflow E d w o' n = Inr (cw, n', rows)"
  shows "\<exists>st g g'. clone_actions E o' (uuid4_hex E n)
              \<lparr>cs_next = Suc n, cs_pending = [], cs_repl = Map.empty\<rparr>
              (workflow_actions d (wf_id w)) = Inr st
     \<and> wf_object w = Some g \<and> remap_graph (cs_repl st) g = Inr g'
     \<and> cw = w\<lparr>wf_id := uuid4_hex E n, wf_status := ''offline'', wf_object := Some g',
               wf_owner_id := o'\<rparr>
     \<and> n' = cs_next st \<and> rows = cs_pending st @ [RWorkflow cw]"
  using assms by (auto simp: clone_workflow_def Let_def rbind_eq_Inr json_dumps_def)

text \<open>The facts of the loop lemma for the loop of a successful clone.\<close>

lemma clone_workflow_loop:
  assumes "clone_workflow E d w o' n = Inr (cw, n', rows)"
  obtains st :: clone_st and g :: json and g' :: json where
    "wf_object w = Some g" "remap_graph (cs_repl st) g = Inr g'"
    "cw = w\<lparr>wf_id := uuid4_hex E n, wf_status := ''offline'', wf_object := Some g',
               wf_owner_id := o'\<rparr>"
    "n' = cs_next st" "rows = cs_pending st @ [RWorkflow cw]"
    "\<forall>x\<in>set (cs_pending st). (\<exists>a. x = RAction a) \<or> (\<exists>h. x = RWebhook h)"
    "list_all2 (cloned_action o' (uuid4_hex E n)) (workflow_actions d (wf_id w)) (pending_actions (cs_pending st))"
    "length (pending_webhooks (cs_pending st))
       = length (filter (\<lambda>a. act_type a = ''webhook'') (workflow_actions d (wf_id w)))"
    "list_all (hook_of E o' (uuid4_hex E n) (pending_actions (cs_pending st))) (pending_webhooks (cs_pending st))"
    "pending_workflows (cs_pending st) = []"
    "dom (cs_repl st) = set (map act_id (workflow_actions d (wf_id w)))"
    "fst ` ran (cs_repl st) \<subseteq> set (map act_id (pending_actions (cs_pending st)))"
    "Suc n \<le> n'"
    "mset (map act_id (pending_actions (cs_pending st)) @ map wh_id (pending_webhooks (cs_pending st)))
       = mset (map (uuid4_hex E) [Suc n..<n'])"
    "distinct (map act_id (workflow_actions d (wf_id w))) \<Longrightarrow>
       list_all2 (\<lambda>a a'. fst (the (cs_repl st (act_id a))) = act_id a')
         (workflow_actions d (wf_id w)) (pending_actions (cs_pending st))"
proof -
  from clone_workflow_Inr [OF assms] obtain st g g' where
    loop: "clone_actions E o' (uuid4_hex E n) \<lparr>cs_next = Suc n, cs_pending = [], cs_repl = Map.empty\<rparr>
              (workflow_actions d (wf_id w)) = Inr st" and
    rest: "wf_object w = Some g" "remap_graph (cs_repl st) g = Inr g'"
      "cw = w\<lparr>wf_id := uuid4_hex E n, wf_status := ''offline'', wf_object := Some g',
               wf_owner_id := o'\<rparr>"
      "n' = cs_next st" "rows = cs_pending st @ [RWorkflow cw]"
    by blast
  from clone_actions_Inr [OF loop] have facts:
    "\<forall>x\<in>set (cs_pending st). (\<exists>a. x = RAction a) \<or> (\<exists>h. x = RWebhook h)"
    "list_all2 (cloned_action o' (uuid4_hex E n)) (workflow_actions d (wf_id w)) (pending_actions (cs_pending st))"
    "length (pending_webhooks (cs_pending st))
       = length (filter (\<lambda>a. act_type a = ''webhook'') (workflow_actions d (wf_id w)))"
    "list_all (hook_of E o' (uuid4_hex E n) (pending_actions (cs_pending st))) (pending_webhooks (cs_pending st))"
    "pending_workflows (cs_pending st) = []"
    "dom (cs_repl st) = set (map act_id (workflow_actions d (wf_id w)))"
    "\<forall>k\<in>set (map act_id (workflow_actions d (wf_id w))).
        fst (the (cs_repl st k)) \<in> set (map act_id (pending_actions (cs_pending st)))"
    "Suc n \<le> cs_next st"
    "mset (map act_id (pending_actions (cs_pending st)) @ map wh_id (pending_webhooks (cs_pending st)))
       = mset (map (uuid4_hex E) [Suc n..<cs_next st])"
    "distinct (map act_id (workflow_actions d (wf_id w))) \<longrightarrow>
       list_all2 (\<lambda>a a'. fst (the (cs_repl st (act_id a))) = act_id a')
         (workflow_actions d (wf_id w)) (pending_actions (cs_pending st))"
    by auto
  have ran: "fst ` ran (cs_repl st) \<subseteq> set (map act_id (pending_actions (cs_pending st)))"
  proof
    fix x assume "x \<in> fst ` ran (cs_repl st)"
    then obtain k v where "cs_repl st k = Some v" "x = fst v" by (auto simp: ran_def)
    with facts(6,7) show "x \<in> set (map act_id (pending_actions (cs_pending st)))"
      by (metis domI option.sel)
  qed
  show ?thesis
    by (rule that [of g st g']) (use rest facts ran in simp_all)
qed

lemma clone_actions_null_inputs:
  "a \<in> set acts \<Longrightarrow> act_inputs a = None \<Longrightarrow> isl (clone_actions E o' w st acts)"
proof (induction acts arbitrary: st)
  case Nil
  then show ?case by simp
next
  case (Cons b acts)
  show ?case
  proof (cases "clone_action E o' w st b")
    case (Inl e)
    then show ?thesis by simp
  next
    case (Inr st1)
    with Cons have "a \<noteq> b"
      by (auto simp: clone_action_def Let_def)
    with Cons.prems have "isl (clone_actions E o' w st1 acts)" by (intro Cons.IH) simp_all
    with Inr show ?thesis by simp
  qed
qed

text \<open>C6: a successful clone is a new workflow with a fresh id, owned by the
  target owner, reset to offline, with the source's title, description and
  icon; it is the one workflow row added, and the added actions are, in
  order, one clone of each source action (same type, title, description and
  status) under the new owner and the new workflow.\<close>

theorem clone_workflow_functional:
  assumes "clone_workflow E d w o' n = Inr (cw, n', rows)"
  shows "wf_id cw = uuid4_hex E n \<and> wf_owner_id cw = o' \<and> wf_status cw = ''offline''
     \<and> wf_title cw = wf_title w \<and> wf_description cw = wf_description w
     \<and> wf_icon_url cw = wf_icon_url w \<and> pending_workflows rows = [cw]
     \<and> list_all2 (cloned_action o' (wf_id cw)) (workflow_actions d (wf_id w)) (pending_actions rows)"
proof -
  from assms show ?thesis
  proof (rule clone_workflow_loop)
    fix st :: clone_st and g g'
    assume "cw = w\<lparr>wf_id := uuid4_hex E n, wf_status := ''offline'', wf_object := Some g',
                  wf_owner_id := o'\<rparr>"
      and "rows = cs_pending st @ [RWorkflow cw]"
      and "list_all2 (cloned_action o' (uuid4_hex E n)) (workflow_actions d (wf_id w))
             (pending_actions (cs_pending st))"
      and "pending_workflows (cs_pending st) = []"
    then show ?thesis by simp
  qed
qed

text \<open>C12: every webhook-typed source action gets exactly one new webhook,
  owned by the target owner, under the new workflow, attached to a new
  webhook action whose inputs carry the new webhook's id as \<open>path\<close> and its
  freshly derived secret as \<open>secret\<close>.\<close>

theorem clone_workflow_webhooks:
  assumes "clone_workflow E d w o' n = Inr (cw, n', rows)"
  shows "length (pending_webhooks rows)
           = length (filter (\<lambda>a. act_type a = ''webhook'') (workflow_actions d (wf_id w)))
     \<and> list_all (hook_of E o' (wf_id cw) (pending_actions rows)) (pending_webhooks rows)"
proof -
  from assms show ?thesis
  proof (rule clone_workflow_loop)
    fix st :: clone_st and g g'
    assume "cw = w\<lparr>wf_id := uuid4_hex E n, wf_status := ''offline'', wf_object := Some g',
                  wf_owner_id := o'\<rparr>"
      and "rows = cs_pending st @ [RWorkflow cw]"
      and "length (pending_webhooks (cs_pending st))
             = length (filter (\<lambda>a. act_type a = ''webhook'') (workflow_actions d (wf_id w)))"
      and "list_all (hook_of E o' (uuid4_hex E n) (pending_actions (cs_pending st)))
             (pending_webhooks (cs_pending st))"
    then show ?thesis by simp
  qed
qed

text \<open>C1: the cloned graph document is closed over the cloned actions: every
  edge joins two new action ids and is named \<open>"{source}-{target}"\<close>, every
  node is a new action id, repeated in its data.\<close>

theorem clone_workflow_graph_closed:
  assumes "clone_workflow E d w o' n = Inr (cw, n', rows)"
  shows "\<exists>g'. wf_object cw = Some g' \<and> graph_closed (set (map act_id (pending_actions rows))) g'"
proof -
  from assms show ?thesis
  proof (rule clone_workflow_loop)
    fix st :: clone_st and g g'
    assume "remap_graph (cs_repl st) g = Inr g'"
      and "cw = w\<lparr>wf_id := uuid4_hex E n, wf_status := ''offline'', wf_object := Some g',
                  wf_owner_id := o'\<rparr>"
      and "rows = cs_pending st @ [RWorkflow cw]"
      and "fst ` ran (cs_repl st) \<subseteq> set (map act_id (pending_actions (cs_pending st)))"
    then show ?thesis by (auto intro: graph_closed_mono dest: remap_graph_closed)
  qed
qed

text \<open>C2: refinement of the graph document.  Abstractly a document is its
  wiring, the list of edge endpoint pairs and the list of node ids.  When the
  source actions have distinct ids, the clone's wiring is the source's wiring
  with every action id replaced by the id of that action's clone, and every
  endpoint of the source wiring is a source action.\<close>

theorem clone_workflow_wiring:
  assumes "clone_workflow E d w o' n = Inr (cw, n', rows)"
    and "wf_object w = Some g" and "edge_pairs g = Some ps" and "node_ids g = Some nids"
    and "distinct (map act_id (workflow_actions d (wf_id w)))"
  shows "\<exists>f g'. wf_object cw = Some g'
     \<and> edge_pairs g' = Some (map (map_prod f f) ps) \<and> node_ids g' = Some (map f nids)
     \<and> list_all2 (\<lambda>a a'. f (act_id a) = act_id a') (workflow_actions d (wf_id w)) (pending_actions rows)
     \<and> (\<forall>(s, t)\<in>set ps. s \<in> set (map act_id (workflow_actions d (wf_id w)))
                        \<and> t \<in> set (map act_id (workflow_actions d (wf_id w))))"
proof -
  from assms(1) show ?thesis
  proof (rule clone_workflow_loop)
    fix st :: clone_st and g0 g'
    assume g0: "wf_object w = Some g0" and rg: "remap_graph (cs_repl st) g0 = Inr g'"
      and cw: "cw = w\<lparr>wf_id := uuid4_hex E n, wf_status := ''offline'', wf_object := Some g',
                  wf_owner_id := o'\<rparr>"
      and rows: "rows = cs_pending st @ [RWorkflow cw]"
      and dom: "dom (cs_repl st) = set (map act_id (workflow_actions d (wf_id w)))"
      and map: "distinct (map act_id (workflow_actions d (wf_id w))) \<Longrightarrow>
         list_all2 (\<lambda>a a'. fst (the (cs_repl st (act_id a))) = act_id a')
           (workflow_actions d (wf_id w)) (pending_actions (cs_pending st))"
    let ?f = "\<lambda>i. fst (the (cs_repl st i))"
    from g0 assms(2) have "g0 = g" by simp
    with rg assms(3) have e: "edge_pairs g' = Some (map (\<lambda>(s, t). (?f s, ?f t)) ps)"
      and ends: "\<forall>(s, t)\<in>set ps. s \<in> dom (cs_repl st) \<and> t \<in> dom (cs_repl st)"
      using remap_graph_edge_pairs by blast+
    from rg assms(4) \<open>g0 = g\<close> have "node_ids g' = Some (map ?f nids)"
      by (simp add: remap_graph_node_ids)
    moreover have "map (\<lambda>(s, t). (?f s, ?f t)) ps = map (map_prod ?f ?f) ps"
      by (simp add: map_prod_def)
    moreover from map assms(5) rows have
      "list_all2 (\<lambda>a a'. ?f (act_id a) = act_id a') (workflow_actions d (wf_id w)) (pending_actions rows)"
      by simp
    ultimately show ?thesis using cw e ends dom by auto
  qed
qed

text \<open>C24: every identifier a successful clone creates is a value of the
  \<open>uuid4()\<close> source, each drawn exactly once: the workflow id, the action
  ids and the webhook ids are, as a multiset, the values at the indices
  \<open>n ..< n'\<close>.\<close>

theorem clone_workflow_ids:
  assumes "clone_workflow E d w o' n = Inr (cw, n', rows)"
  shows "n < n' \<and> mset (wf_id cw # map act_id (pending_actions rows) @ map wh_id (pending_webhooks rows))
                    = mset (map (uuid4_hex E) [n..<n'])"
proof -
  from assms show ?thesis
  proof (rule clone_workflow_loop)
    fix st :: clone_st and g g'
    assume "cw = w\<lparr>wf_id := uuid4_hex E n, wf_status := ''offline'', wf_object := Some g',
                  wf_owner_id := o'\<rparr>"
      and "rows = cs_pending st @ [RWorkflow cw]" and "n' = cs_next st" and "Suc n \<le> n'"
      and "mset (map act_id (pending_actions (cs_pending st)) @ map wh_id (pending_webhooks (cs_pending st)))
             = mset (map (uuid4_hex E) [Suc n..<n'])"
    moreover from \<open>Suc n \<le> n'\<close> have "[n..<n'] = n # [Suc n..<n']" by (simp add: upt_conv_Cons)
    ultimately show ?thesis by simp
  qed
qed

text \<open>C30: an action whose \<open>inputs\<close> column is NULL makes the clone raise
  (\<open>json.loads(None)\<close>): an action created by \<open>POST /actions\<close> and never
  updated cannot be cloned.\<close>

theorem clone_workflow_null_inputs:
  assumes "a \<in> set (workflow_actions d (wf_id w))" and "act_inputs a = None"
  shows "isl (clone_workflow E d w o' n)"
proof -
  have "isl (clone_actions E o' (uuid4_hex E n)
          \<lparr>cs_next = Suc n, cs_pending = [], cs_repl = Map.empty\<rparr> (workflow_actions d (wf_id w)))"
    using assms by (rule clone_actions_null_inputs)
  then show ?thesis by (auto simp: clone_workflow_def Let_def rbind_def split: sum.splits)
qed

text \<open>C29: a workflow whose graph document is NULL cannot be cloned: the clone
  raises instead of giving a clone without a document.\<close>

theorem clone_workflow_null_object:
  assumes "wf_object w = None"
  shows "isl (clone_workflow E d w o' n)"
  using assms by (auto simp: clone_workflow_def Let_def rbind_def split: sum.splits)

text \<open>C28: an edge with an endpoint that is not an action of the workflow makes
  the whole clone raise \<open>KeyError\<close>; the dangling reference is not passed over.\<close>

theorem clone_workflow_dangling_edge:
  assumes "wf_object w = Some g" and "edge_pairs g = Some ps" and "(s, t) \<in> set ps"
    and "s \<notin> set (map act_id (workflow_actions d (wf_id w)))
         \<or> t \<notin> set (map act_id (workflow_actions d (wf_id w)))"
  shows "isl (clone_workflow E d w o' n)"
proof (rule ccontr)
  assume "\<not> isl (clone_workflow E d w o' n)"
  then obtain cw n' rows where ok: "clone_workflow E d w o' n = Inr (cw, n', rows)"
    by (cases "clone_workflow E d w o' n") auto
  from ok show False
  proof (rule clone_workflow_loop)
    fix st :: clone_st and g0 g'
    assume "wf_object w = Some g0" and rg: "remap_graph (cs_repl st) g0 = Inr g'"
      and dom: "dom (cs_repl st) = set (map act_id (workflow_actions d (wf_id w)))"
    with assms(1) have "g0 = g" by simp
    with rg assms(2) have "\<forall>(s, t)\<in>set ps. s \<in> dom (cs_repl st) \<and> t \<in> dom (cs_repl st)"
      using remap_graph_edge_pairs by blast
    with assms(3,4) dom show False by auto
  qed
qed

lemma clone_action_succeeds:
  assumes "action_clonable a"
  shows "\<exists>st'. clone_action E o' w st a = Inr st'"
proof -
  from assms obtain j where j: "act_inputs a = Some j"
    and wh: "act_type a = ''webhook'' \<Longrightarrow> \<exists>dd. j = JDict dd"
    by (auto simp: action_clonable_def is_dict_iff)
  show ?thesis
  proof (cases "act_type a = ''webhook''")
    case True
    with wh obtain dd where "j = JDict dd" by blast
    with True j show ?thesis by (simp add: clone_action_def Let_def)
  next
    case False
    with j show ?thesis by (simp add: clone_action_def Let_def)
  qed
qed

lemma clone_actions_succeeds:
  "list_all action_clonable acts \<Longrightarrow> \<exists>st'. clone_actions E o' w st acts = Inr st'"
proof (induction acts arbitrary: st)
  case Nil
  then show ?case by simp
next
  case (Cons a acts)
  then obtain st1 where "clone_action E o' w st a = Inr st1"
    using clone_action_succeeds by fastforce
  moreover from Cons obtain st' where "clone_actions E o' w st1 acts = Inr st'" by fastforce
  ultimately show ?case by simp
qed

text \<open>The clone returns: on a clonable source it gives a result, for any
  target owner and any position of the identifier source.\<close>

lemma clone_workflow_succeeds:
  assumes "clonable d w"
  shows "\<exists>cw n' rows. clone_workflow E d w o' n = Inr (cw, n', rows)"
proof -
  let ?acts = "workflow_actions d (wf_id w)"
  let ?st0 = "\<lparr>cs_next = Suc n, cs_pending = [], cs_repl = Map.empty\<rparr>"
  from assms obtain g where acts: "list_all action_clonable ?acts" and g: "wf_object w = Some g"
    and wf: "graph_wf (set (map act_id ?acts)) g"
    by (auto simp: clonable_def split: option.splits)
  from acts obtain st where loop: "clone_actions E o' (uuid4_hex E n) ?st0 ?acts = Inr st"
    using clone_actions_succeeds by blast
  from clone_actions_Inr [OF loop] have "dom (cs_repl st) = set (map act_id ?acts)" by simp
  with wf obtain g' where "remap_graph (cs_repl st) g = Inr g'"
    using remap_graph_succeeds by fastforce
  with loop g show ?thesis by (simp add: clone_workflow_def Let_def)
qed

text \<open>The clone raises only Python's own exceptions on JSON values.\<close>

lemma clone_workflow_py_error: "err_in py_error (clone_workflow E d w o' n)"
proof -
  have l: "err_in py_error (json_loads t)" for t
    by (cases t) (simp_all add: py_error_def)
  have a: "err_in py_error (clone_action E o' wid st a)" for wid st a
    by (auto simp: clone_action_def Let_def err_in_rbind_iff l split: prod.splits)
  have "err_in py_error (clone_actions E o' wid st acts)" for wid st acts
    by (induction acts arbitrary: st) (simp_all add: err_in_rbind_iff a)
  then show ?thesis
    by (simp add: clone_workflow_def Let_def err_in_rbind_iff l remap_graph_py_error)
qed

end
