(* ===== verification/Api.thy ===== *)
theory Api
  imports Clone
begin

text \<open>
  The REST handlers of \<^verbatim>\<open>src/tracecat/api/app.py\<close> that change or read the
  workflow graph, as state transformers on \<open>sys\<close>: the database and the index
  of the next \<open>uuid4()\<close> value.  A handler returns its response (\<open>Inr\<close>) or the
  exception it raises (\<open>Inl\<close>; an \<open>HTTPException\<close> with its status, or an
  uncaught exception, which FastAPI answers with status 500).  Every handler
  runs in one \<open>with Session(engine)\<close> block: an exception before
  \<open>session.commit()\<close> leaves the database as it was.  The caller's \<open>Role\<close>
  (\<open>tracecat.auth\<close>, not under \<^verbatim>\<open>src/\<close>) is the tagged variant of the spec,
  section 4.5.
\<close>

datatype role = UserRole string | ServiceRole string string

record sys =
  sys_db :: db
  sys_uuid :: nat

primrec role_user_id :: "role \<Rightarrow> string" where
  "role_user_id (UserRole u) = u"
| "role_user_id (ServiceRole u s) = u"

primrec role_is_user :: "role \<Rightarrow> bool" where
  "role_is_user (UserRole u) = True"
| "role_is_user (ServiceRole u s) = False"

text \<open>\<open>try: result.one() except NoResultFound: raise HTTPException(404)\<close>.\<close>

definition one_or_404 :: "'a list \<Rightarrow> 'a res" where
  "one_or_404 xs = (case result_one xs of Inl NoResultFound \<Rightarrow> Inl (HTTPException 404) | r \<Rightarrow> r)"

text \<open>\<open>POST /workflows/{workflow_id}/copy\<close> (lines 287--320); \<open>params\<close> is the
  optional body \<open>CopyWorkflowParams\<close>, its \<open>owner_id\<close>.\<close>

definition copy_workflow ::
  "env \<Rightarrow> role \<Rightarrow> string \<Rightarrow> string option \<Rightarrow> sys \<Rightarrow> unit res \<times> sys" where
  "copy_workflow E r workflow_id params s =
     (if role_is_user r \<and> params \<noteq> None then (Inl (HTTPException 403), s)
      else
        let owner_id = (case params of Some p \<Rightarrow> p | None \<Rightarrow> ''tracecat'') in
        case one_or_404 (filter (\<lambda>w. wf_owner_id w = owner_id \<and> wf_id w = workflow_id)
                                (workflows (sys_db s))) of
          Inl e \<Rightarrow> (Inl e, s)
        | Inr w \<Rightarrow>
            (case clone_workflow E (sys_db s) w (role_user_id r) (sys_uuid s) of
               Inl e \<Rightarrow> (Inl e, s)
             | Inr (cw, n', rows) \<Rightarrow>
                 (case commit_inserts rows (sys_db s) of
                    Inl e \<Rightarrow> (Inl e, s)
                  | Inr d' \<Rightarrow> (Inr (), \<lparr>sys_db = d', sys_uuid = n'\<rparr>))))"

subsection \<open>Lemmas\<close>

lemma one_or_404_Inr [res_simps]: "one_or_404 xs = Inr x \<longleftrightarrow> xs = [x]"
  by (auto simp: one_or_404_def result_one_def split: sum.splits exc.splits list.splits)

lemma copy_workflow_Inr:
  assumes "copy_workflow E r wid p s = (Inr (), s')"
  shows "\<exists>w cw n' rows d'. \<not> (role_is_user r \<and> p \<noteq> None)
     \<and> filter (\<lambda>w. wf_owner_id w = (case p of Some o' \<Rightarrow> o' | None \<Rightarrow> ''tracecat'') \<and> wf_id w = wid)
              (workflows (sys_db s)) = [w]
     \<and> clone_workflow E (sys_db s) w (role_user_id r) (sys_uuid s) = Inr (cw, n', rows)
     \<and> commit_inserts rows (sys_db s) = Inr d' \<and> s' = \<lparr>sys_db = d', sys_uuid = n'\<rparr>"
  using assms
  by (auto simp: copy_workflow_def Let_def one_or_404_Inr
      split: if_splits sum.splits prod.splits)

text \<open>The tables after committing a clone's rows: the source tables with the
  new workflow, actions and webhooks appended, the others unchanged.\<close>

lemma commit_clone_tables:
  assumes "clone_workflow E d w o' n = Inr (cw, n', rows)"
  shows "workflows (fold insert_row rows d) = workflows d @ [cw]
     \<and> actions (fold insert_row rows d) = actions d @ pending_actions rows
     \<and> webhooks (fold insert_row rows d) = webhooks d @ pending_webhooks rows
     \<and> users (fold insert_row rows d) = users d \<and> secrets (fold insert_row rows d) = secrets d
     \<and> case_actions (fold insert_row rows d) = case_actions d
     \<and> case_contexts (fold insert_row rows d) = case_contexts d
     \<and> workflow_runs (fold insert_row rows d) = workflow_runs d
     \<and> action_runs (fold insert_row rows d) = action_runs d"
proof -
  from assms show ?thesis
  proof (rule clone_workflow_loop)
    fix st :: clone_st and g g'
    assume rows: "rows = cs_pending st @ [RWorkflow cw]"
      and kinds: "\<forall>x\<in>set (cs_pending st). (\<exists>a. x = RAction a) \<or> (\<exists>h. x = RWebhook h)"
      and pw: "pending_workflows (cs_pending st) = []"
    have none: "[u. RUser u \<leftarrow> cs_pending st] = [] \<and> [u. RSecret u \<leftarrow> cs_pending st] = []
      \<and> [u. RCaseAction u \<leftarrow> cs_pending st] = [] \<and> [u. RCaseContext u \<leftarrow> cs_pending st] = []
      \<and> [u. RWorkflowRun u \<leftarrow> cs_pending st] = [] \<and> [u. RActionRun u \<leftarrow> cs_pending st] = []"
      using kinds by (induction "cs_pending st" arbitrary: st) (auto split: row.splits)
    show ?thesis
      using fold_insert_row_tables [of rows d] none pw rows by simp
  qed
qed

text \<open>With fresh injective identifiers and an existing target user, the commit
  of a clone's rows passes the schema's constraints.\<close>

lemma commit_clone_succeeds:
  assumes "clone_workflow E d w o' n = Inr (cw, n', rows)" and "db_integrity d"
    and "o' \<in> set (map u_id (users d))" and "inj (uuid4_hex E)"
    and "\<forall>k\<ge>n. uuid4_hex E k \<notin> set (map wf_id (workflows d)) \<union> set (map act_id (actions d))
                      \<union> set (map wh_id (webhooks d))"
  shows "commit_inserts rows d = Inr (fold insert_row rows d)"
proof -
  let ?new = "pending_actions rows" and ?hooks = "pending_webhooks rows"
  from assms(1) obtain st :: clone_st where
    cw: "wf_id cw = uuid4_hex E n" "wf_owner_id cw = o'" and rows: "rows = cs_pending st @ [RWorkflow cw]"
    and le: "Suc n \<le> n'"
    and ms0: "mset (map act_id (pending_actions (cs_pending st)) @ map wh_id (pending_webhooks (cs_pending st)))
       = mset (map (uuid4_hex E) [Suc n..<n'])"
    and f: "list_all2 (cloned_action o' (uuid4_hex E n)) (workflow_actions d (wf_id w))
              (pending_actions (cs_pending st))"
    and h: "list_all (hook_of E o' (uuid4_hex E n) (pending_actions (cs_pending st)))
              (pending_webhooks (cs_pending st))"
    by (rule clone_workflow_loop) auto
  from le have "[n..<n'] = n # [Suc n..<n']" by (simp add: upt_conv_Cons)
  with ms0 rows cw have ms: "mset (wf_id cw # map act_id ?new @ map wh_id ?hooks) = mset (map (uuid4_hex E) [n..<n'])"
    by simp
  from assms(4) have du: "distinct (map (uuid4_hex E) [n..<n'])" by (simp add: distinct_map inj_on_def inj_def)
  have dist: "distinct (wf_id cw # map act_id ?new @ map wh_id ?hooks)"
    by (subst mset_eq_imp_distinct_iff [OF ms]) (rule du)
  from ms have "set (wf_id cw # map act_id ?new @ map wh_id ?hooks) = uuid4_hex E ` {n..<n'}"
    by (metis mset_eq_setD set_map set_upt)
  then have inrange: "\<exists>k\<ge>n. x = uuid4_hex E k"
    if "x \<in> set (wf_id cw # map act_id ?new @ map wh_id ?hooks)" for x
    using that by force
  have fresh_id: "x \<notin> set (map wf_id (workflows d)) \<union> set (map act_id (actions d))
                      \<union> set (map wh_id (webhooks d))"
    if "x \<in> set (wf_id cw # map act_id ?new @ map wh_id ?hooks)" for x
    using inrange [OF that] assms(5) by blast
  have fresh: "wf_id cw \<notin> set (map wf_id (workflows d))"
    "set (map act_id ?new) \<inter> set (map act_id (actions d)) = {}"
    "set (map wh_id ?hooks) \<inter> set (map wh_id (webhooks d)) = {}"
    using fresh_id by fastforce+
  have "db_integrity (fold insert_row rows d)"
  proof (rule db_integrity_append [OF assms(2), where ws = "[cw]" and as = ?new and hs = ?hooks])
    show "distinct (map wf_id (workflows d @ [cw]))" using assms(2) fresh(1)
      by (simp add: db_integrity_def)
    show "distinct (map act_id (actions d @ ?new))" using assms(2) fresh(2) dist
      by (auto simp: db_integrity_def)
    show "distinct (map wh_id (webhooks d @ ?hooks))" using assms(2) fresh(3) dist
      by (auto simp: db_integrity_def)
    show "\<forall>w\<in>set [cw]. wf_owner_id w \<in> set (map u_id (users d))" using cw(2) assms(3) by simp
    show "\<forall>a\<in>set ?new. fk_opt (act_workflow_id a) (map wf_id (workflows d @ [cw]))"
      using f rows cw(1)
      by (auto simp: list_all2_conv_all_nth in_set_conv_nth cloned_action_def fk_opt_def)
    show "\<forall>h\<in>set ?hooks. fk_opt (wh_action_id h) (map act_id (actions d @ ?new))
                    \<and> fk_opt (wh_workflow_id h) (map wf_id (workflows d @ [cw]))"
      using h rows cw(1) by (auto simp: list_all_iff hook_of_def fk_opt_def)
  qed (use commit_clone_tables [OF assms(1)] in simp_all)
  then show ?thesis by (simp add: commit_inserts_def)
qed

subsection \<open>The copy handler\<close>

text \<open>C3: the copy is atomic: when the handler raises (403, 404, an error of
  the clone, or the commit's \<open>IntegrityError\<close>), the database and the state
  are exactly as before.\<close>

theorem copy_workflow_atomic:
  assumes "copy_workflow E r wid p s = (Inl e, s')"
  shows "s' = s"
  using assms
  by (auto simp: copy_workflow_def Let_def split: if_splits sum.splits prod.splits)

text \<open>C4: the copy leaves the source untouched: a successful copy appends one
  workflow, the cloned actions and the new webhooks, owned by the caller,
  and changes no other row; runs, users, secrets and case labels are not
  copied.\<close>

theorem copy_workflow_isolation:
  assumes "copy_workflow E r wid p s = (Inr (), s')"
  shows "\<exists>cw new hooks. workflows (sys_db s') = workflows (sys_db s) @ [cw]
     \<and> actions (sys_db s') = actions (sys_db s) @ new
     \<and> webhooks (sys_db s') = webhooks (sys_db s) @ hooks
     \<and> wf_owner_id cw = role_user_id r
     \<and> users (sys_db s') = users (sys_db s) \<and> secrets (sys_db s') = secrets (sys_db s)
     \<and> case_actions (sys_db s') = case_actions (sys_db s)
     \<and> case_contexts (sys_db s') = case_contexts (sys_db s)
     \<and> workflow_runs (sys_db s') = workflow_runs (sys_db s)
     \<and> action_runs (sys_db s') = action_runs (sys_db s)"
proof -
  from copy_workflow_Inr [OF assms] obtain w cw n' rows d' where
    cl: "clone_workflow E (sys_db s) w (role_user_id r) (sys_uuid s) = Inr (cw, n', rows)"
    and cm: "commit_inserts rows (sys_db s) = Inr d'" and s': "s' = \<lparr>sys_db = d', sys_uuid = n'\<rparr>"
    by blast
  from cm have d': "d' = fold insert_row rows (sys_db s)" by (simp add: commit_inserts_Inr)
  from cl have "wf_owner_id cw = role_user_id r"
    by (rule clone_workflow_loop) simp
  with commit_clone_tables [OF cl] d' s' show ?thesis by auto
qed

text \<open>C25: a user role may not name the source owner: with a request body the
  copy is refused with 403 and nothing changes.\<close>

theorem copy_workflow_user_forbidden:
  assumes "role_is_user r" and "p \<noteq> None"
  shows "copy_workflow E r wid p s = (Inl (HTTPException 403), s)"
  using assms by (simp add: copy_workflow_def)

text \<open>C26: a user can only copy library workflows: a successful copy by a user
  role copies the workflow with that id owned by \<open>"tracecat"\<close>, and the copy
  belongs to the user.\<close>

theorem copy_workflow_user_library:
  assumes "copy_workflow E (UserRole u) wid p s = (Inr (), s')"
  shows "p = None \<and> (\<exists>w\<in>set (workflows (sys_db s)). wf_id w = wid \<and> wf_owner_id w = ''tracecat'')
     \<and> (\<exists>cw. workflows (sys_db s') = workflows (sys_db s) @ [cw] \<and> wf_owner_id cw = u)"
proof -
  from copy_workflow_Inr [OF assms] obtain w cw n' rows d' where
    p: "\<not> (role_is_user (UserRole u) \<and> p \<noteq> None)"
    and src: "filter (\<lambda>w. wf_owner_id w = (case p of Some o' \<Rightarrow> o' | None \<Rightarrow> ''tracecat'') \<and> wf_id w = wid)
              (workflows (sys_db s)) = [w]"
    and cl: "clone_workflow E (sys_db s) w (role_user_id (UserRole u)) (sys_uuid s) = Inr (cw, n', rows)"
    and cm: "commit_inserts rows (sys_db s) = Inr d'" and s': "s' = \<lparr>sys_db = d', sys_uuid = n'\<rparr>"
    by blast
  from p have none: "p = None" by simp
  from src have "w \<in> set (filter (\<lambda>w. wf_owner_id w = (case p of Some o' \<Rightarrow> o' | None \<Rightarrow> ''tracecat'')
      \<and> wf_id w = wid) (workflows (sys_db s)))" by simp
  with none have "w \<in> set (workflows (sys_db s)) \<and> wf_id w = wid \<and> wf_owner_id w = ''tracecat''"
    by simp
  moreover from cl have "wf_owner_id cw = u"
    by (rule clone_workflow_loop) simp
  moreover from cm have "d' = fold insert_row rows (sys_db s)" by (simp add: commit_inserts_Inr)
  ultimately show ?thesis using none commit_clone_tables [OF cl] s' by auto
qed

text \<open>C27: a service role is never refused: the handler has no ownership check
  for it, so it copies a workflow of any owner it names into its own user.\<close>

theorem copy_workflow_service_unchecked:
  "fst (copy_workflow E (ServiceRole u sid) wid p s) \<noteq> Inl (HTTPException 403)"
proof -
  have o: "one_or_404 xs \<noteq> Inl (HTTPException 403)" for xs :: "workflow list"
    by (auto simp: one_or_404_def result_one_def split: list.splits)
  have c: "clone_workflow E d w o' n \<noteq> Inl (HTTPException 403)" for d w o' n
  proof
    assume "clone_workflow E d w o' n = Inl (HTTPException 403)"
    with clone_workflow_py_error [of E d w o' n] have "py_error (HTTPException 403)"
      by (rule err_in_eq_Inl)
    then show False by (simp add: py_error_def)
  qed
  have m: "commit_inserts rows d \<noteq> Inl (HTTPException 403)" for rows d
    using commit_inserts_Inl by blast
  show ?thesis
  proof (cases "one_or_404 (filter (\<lambda>w. wf_owner_id w = (case p of Some o' \<Rightarrow> o' | None \<Rightarrow> ''tracecat'')
                  \<and> wf_id w = wid) (workflows (sys_db s)))")
    case (Inl e)
    with o show ?thesis by (auto simp: copy_workflow_def Let_def)
  next
    case (Inr w)
    then show ?thesis
    proof (cases "clone_workflow E (sys_db s) w u (sys_uuid s)")
      case (Inl e)
      with Inr c show ?thesis by (auto simp: copy_workflow_def Let_def)
    next
      case (Inr r)
      with \<open>one_or_404 _ = Inr w\<close> m show ?thesis
        by (cases r) (auto simp: copy_workflow_def Let_def split: sum.splits)
    qed
  qed
qed

text \<open>The copy keeps the schema's constraints: from a state that satisfies
  them, the state after the copy satisfies them, whatever the outcome.\<close>

lemma copy_workflow_integrity:
  assumes "db_integrity (sys_db s)" and "copy_workflow E r wid p s = (res, s')"
  shows "db_integrity (sys_db s')"
  using assms
  by (auto simp: copy_workflow_def Let_def commit_inserts_Inr
      split: if_splits sum.splits prod.splits)

end
