(* ===== verification/Session.thy ===== *)
theory Session
  imports Store
begin

text \<open>
  What one \<open>with Session(engine)\<close> block of a handler does to the database
  besides inserting rows (\<open>Store.commit_inserts\<close>): updating the fields of a
  loaded row in place, and \<open>session.delete(row)\<close> with the cascades it
  triggers.  A delete follows the ORM's relationship cascades of
  \<^verbatim>\<open>src/tracecat/db.py\<close> and the database's \<open>ON DELETE CASCADE\<close> foreign keys
  (the PostgreSQL backend, which enforces them):
  \<^item> \<open>Workflow.actions\<close> and \<open>Workflow.webhooks\<close> (\<open>cascade="all, delete"\<close>)
    delete the workflow's actions and webhooks;
  \<^item> \<open>Workflow.runs\<close> and \<open>Action.runs\<close> have the default cascade, so the ORM
    sets the runs' foreign key to NULL;
  \<^item> \<open>Webhook.action_id\<close> is \<open>ON DELETE CASCADE\<close>: deleting an action deletes
    the webhooks that name it;
  \<^item> \<open>User.owned_workflows\<close> and \<open>User.secrets\<close> delete the user's workflows (with
    their own cascades) and secrets; \<open>User.case_actions\<close> and
    \<open>User.case_contexts\<close> set \<open>user_id\<close> to NULL.
  \<open>session.commit()\<close> succeeds when the database's constraints hold
  (\<open>commit_db\<close>), and raises \<open>IntegrityError\<close> otherwise, rolling back.
\<close>

definition commit_db :: "db \<Rightarrow> db res" where
  "commit_db d = (if db_integrity d then Inr d else Inl IntegrityError)"

text \<open>A foreign key that names one of the given ids.\<close>

definition refers :: "string option \<Rightarrow> string list \<Rightarrow> bool" where
  "refers r ids = (case r of None \<Rightarrow> False | Some x \<Rightarrow> x \<in> set ids)"

text \<open>Assigning fields of the rows a query selected: \<open>row.field = value\<close>.\<close>

definition update_where :: "('a \<Rightarrow> bool) \<Rightarrow> ('a \<Rightarrow> 'a) \<Rightarrow> 'a list \<Rightarrow> 'a list" where
  "update_where P f xs = map (\<lambda>x. if P x then f x else x) xs"

text \<open>\<open>session.delete(action)\<close> for each of the actions \<open>aids\<close>.\<close>

definition delete_actions_rows :: "string list \<Rightarrow> db \<Rightarrow> db" where
  "delete_actions_rows aids d = d\<lparr>
     actions := filter (\<lambda>a. act_id a \<notin> set aids) (actions d),
     action_runs := update_where (\<lambda>r. refers (ar_action_id r) aids)
                      (\<lambda>r. r\<lparr>ar_action_id := None\<rparr>) (action_runs d),
     webhooks := filter (\<lambda>h. \<not> refers (wh_action_id h) aids) (webhooks d)\<rparr>"

text \<open>\<open>session.delete(workflow)\<close>.\<close>

definition delete_workflow_rows :: "string \<Rightarrow> db \<Rightarrow> db" where
  "delete_workflow_rows wid d =
     (let d1 = delete_actions_rows (map act_id (workflow_actions d wid)) d in
      d1\<lparr>workflows := filter (\<lambda>w. wf_id w \<noteq> wid) (workflows d1),
         webhooks := filter (\<lambda>h. wh_workflow_id h \<noteq> Some wid) (webhooks d1),
         workflow_runs := update_where (\<lambda>r. wr_workflow_id r = Some wid)
                            (\<lambda>r. r\<lparr>wr_workflow_id := None\<rparr>) (workflow_runs d1)\<rparr>)"

text \<open>\<open>session.delete(user)\<close>.\<close>

definition delete_user_rows :: "string \<Rightarrow> db \<Rightarrow> db" where
  "delete_user_rows uid d =
     (let d1 = fold delete_workflow_rows
                 (map wf_id (filter (\<lambda>w. wf_owner_id w = uid) (workflows d))) d in
      d1\<lparr>users := filter (\<lambda>u. u_id u \<noteq> uid) (users d1),
         secrets := filter (\<lambda>s. sec_owner_id s \<noteq> uid) (secrets d1),
         case_actions := update_where (\<lambda>c. ca_user_id c = Some uid)
                           (\<lambda>c. c\<lparr>ca_user_id := None\<rparr>) (case_actions d1),
         case_contexts := update_where (\<lambda>c. cc_user_id c = Some uid)
                            (\<lambda>c. c\<lparr>cc_user_id := None\<rparr>) (case_contexts d1)\<rparr>)"

subsection \<open>Lemmas\<close>

lemma commit_db_Inr [res_simps]: "commit_db d = Inr d' \<longleftrightarrow> d' = d \<and> db_integrity d"
  by (auto simp: commit_db_def)

lemma commit_db_Inl: "commit_db d = Inl e \<Longrightarrow> e = IntegrityError"
  by (simp add: commit_db_def split: if_splits)

lemma commit_db_ok [simp]: "db_integrity d \<Longrightarrow> commit_db d = Inr d"
  by (simp add: commit_db_def)

lemma map_update_where [simp]:
  "(\<And>x. k (f x) = k x) \<Longrightarrow> map k (update_where P f xs) = map k xs"
  by (induction xs) (simp_all add: update_where_def)

lemma set_update_where:
  "y \<in> set (update_where P f xs) \<Longrightarrow> \<exists>x\<in>set xs. y = (if P x then f x else x)"
  by (auto simp: update_where_def)

lemma fk_opt_filter:
  "fk_opt r (map k xs) \<Longrightarrow> (\<And>y. y \<in> set xs \<Longrightarrow> r = Some (k y) \<Longrightarrow> P y)
   \<Longrightarrow> fk_opt r (map k (filter P xs))"
  by (auto simp: fk_opt_def split: option.splits)

lemma fk_opt_None [simp]: "fk_opt None ids"
  by (simp add: fk_opt_def)

lemma refers_iff: "refers r ids \<longleftrightarrow> (\<exists>x. r = Some x \<and> x \<in> set ids)"
  by (simp add: refers_def split: option.splits)

lemma distinct_map_filter_keys: "distinct (map k xs) \<Longrightarrow> distinct (map k (filter P xs))"
  by (simp add: distinct_map_filter)

subsection \<open>Deletes keep the constraints\<close>

lemma db_integrity_delete_actions:
  assumes "db_integrity d"
  shows "db_integrity (delete_actions_rows aids d)"
proof -
  let ?d = "delete_actions_rows aids d"
  have ar: "\<forall>r\<in>set (action_runs ?d). fk_opt (ar_action_id r) (map act_id (actions ?d))
              \<and> ar_workflow_run_id r \<in> set (map wr_id (workflow_runs ?d))"
  proof
    fix r assume "r \<in> set (action_runs ?d)"
    then obtain r0 where r0: "r0 \<in> set (action_runs d)"
      and r: "r = (if refers (ar_action_id r0) aids then r0\<lparr>ar_action_id := None\<rparr> else r0)"
      by (auto simp: delete_actions_rows_def dest: set_update_where)
    from assms r0 have "fk_opt (ar_action_id r0) (map act_id (actions d))"
      and "ar_workflow_run_id r0 \<in> set (map wr_id (workflow_runs d))"
      by (auto simp: db_integrity_def)
    then show "fk_opt (ar_action_id r) (map act_id (actions ?d))
              \<and> ar_workflow_run_id r \<in> set (map wr_id (workflow_runs ?d))"
      using r by (auto simp: delete_actions_rows_def fk_opt_def refers_def split: option.splits)
  qed
  have wh: "\<forall>h\<in>set (webhooks ?d). fk_opt (wh_action_id h) (map act_id (actions ?d))
              \<and> fk_opt (wh_workflow_id h) (map wf_id (workflows ?d))"
  proof
    fix h assume h: "h \<in> set (webhooks ?d)"
    then have h0: "h \<in> set (webhooks d)" and nr: "\<not> refers (wh_action_id h) aids"
      by (simp_all add: delete_actions_rows_def)
    from assms h0 have "fk_opt (wh_action_id h) (map act_id (actions d))"
      and "fk_opt (wh_workflow_id h) (map wf_id (workflows d))"
      by (auto simp: db_integrity_def)
    with nr show "fk_opt (wh_action_id h) (map act_id (actions ?d))
              \<and> fk_opt (wh_workflow_id h) (map wf_id (workflows ?d))"
      by (auto simp: delete_actions_rows_def fk_opt_def refers_def split: option.splits)
  qed
  have ac: "\<forall>a\<in>set (actions ?d). fk_opt (act_workflow_id a) (map wf_id (workflows ?d))"
    using assms by (auto simp: db_integrity_def delete_actions_rows_def)
  have ds: "distinct (map act_id (actions ?d))" "distinct (map ar_id (action_runs ?d))"
    "distinct (map wh_id (webhooks ?d))"
    using assms by (simp_all add: db_integrity_def delete_actions_rows_def distinct_map_filter)
  show ?thesis
    using assms ar wh ac ds unfolding db_integrity_def
    by (simp add: delete_actions_rows_def)
qed

lemma delete_actions_rows_actions:
  "a \<in> set (actions (delete_actions_rows aids d)) \<longleftrightarrow> a \<in> set (actions d) \<and> act_id a \<notin> set aids"
  by (simp add: delete_actions_rows_def)

lemma db_integrity_delete_workflow:
  assumes "db_integrity d"
  shows "db_integrity (delete_workflow_rows wid d)"
proof -
  let ?aids = "map act_id (workflow_actions d wid)"
  let ?d1 = "delete_actions_rows ?aids d"
  let ?d = "delete_workflow_rows wid d"
  have i1: "db_integrity ?d1" using assms by (rule db_integrity_delete_actions)
  have na: "act_workflow_id a \<noteq> Some wid" if "a \<in> set (actions ?d1)" for a
    using that by (auto simp: delete_actions_rows_actions workflow_actions_def)
  have tabs: "workflows ?d = filter (\<lambda>w. wf_id w \<noteq> wid) (workflows ?d1)"
    "actions ?d = actions ?d1" "action_runs ?d = action_runs ?d1"
    "webhooks ?d = filter (\<lambda>h. wh_workflow_id h \<noteq> Some wid) (webhooks ?d1)"
    "workflow_runs ?d = update_where (\<lambda>r. wr_workflow_id r = Some wid)
                            (\<lambda>r. r\<lparr>wr_workflow_id := None\<rparr>) (workflow_runs ?d1)"
    "users ?d = users ?d1" "secrets ?d = secrets ?d1" "case_actions ?d = case_actions ?d1"
    "case_contexts ?d = case_contexts ?d1"
    by (simp_all add: delete_workflow_rows_def Let_def)
  have ac: "\<forall>a\<in>set (actions ?d). fk_opt (act_workflow_id a) (map wf_id (workflows ?d))"
  proof
    fix a assume "a \<in> set (actions ?d)"
    with tabs(2) have a: "a \<in> set (actions ?d1)" by simp
    with i1 have "fk_opt (act_workflow_id a) (map wf_id (workflows ?d1))"
      by (auto simp: db_integrity_def)
    then show "fk_opt (act_workflow_id a) (map wf_id (workflows ?d))"
      unfolding tabs(1) by (rule fk_opt_filter) (use na [OF a] in auto)
  qed
  have wh: "\<forall>h\<in>set (webhooks ?d). fk_opt (wh_action_id h) (map act_id (actions ?d))
              \<and> fk_opt (wh_workflow_id h) (map wf_id (workflows ?d))"
  proof
    fix h assume "h \<in> set (webhooks ?d)"
    with tabs(4) have h: "h \<in> set (webhooks ?d1)" and nw: "wh_workflow_id h \<noteq> Some wid" by auto
    with i1 have "fk_opt (wh_action_id h) (map act_id (actions ?d1))"
      and "fk_opt (wh_workflow_id h) (map wf_id (workflows ?d1))"
      by (auto simp: db_integrity_def)
    then show "fk_opt (wh_action_id h) (map act_id (actions ?d))
              \<and> fk_opt (wh_workflow_id h) (map wf_id (workflows ?d))"
      unfolding tabs(1,2) using nw by (auto intro: fk_opt_filter)
  qed
  have wr: "\<forall>r\<in>set (workflow_runs ?d). fk_opt (wr_workflow_id r) (map wf_id (workflows ?d))"
  proof
    fix r assume "r \<in> set (workflow_runs ?d)"
    then obtain r0 where r0: "r0 \<in> set (workflow_runs ?d1)"
      and r: "r = (if wr_workflow_id r0 = Some wid then r0\<lparr>wr_workflow_id := None\<rparr> else r0)"
      unfolding tabs(5) by (auto dest: set_update_where)
    from i1 r0 have "fk_opt (wr_workflow_id r0) (map wf_id (workflows ?d1))"
      by (auto simp: db_integrity_def)
    then show "fk_opt (wr_workflow_id r) (map wf_id (workflows ?d))"
      unfolding tabs(1) r by (auto intro: fk_opt_filter)
  qed
  have ow: "\<forall>w\<in>set (workflows ?d). wf_owner_id w \<in> set (map u_id (users ?d))"
    using i1 unfolding tabs by (auto simp: db_integrity_def)
  have ds: "distinct (map wf_id (workflows ?d))" "distinct (map wh_id (webhooks ?d))"
    "distinct (map wr_id (workflow_runs ?d))"
    using i1 unfolding tabs by (simp_all add: db_integrity_def distinct_map_filter)
  have "map wr_id (workflow_runs ?d) = map wr_id (workflow_runs ?d1)"
    unfolding tabs(5) by (rule map_update_where) simp
  then have wrid: "wr_id ` set (workflow_runs ?d) = wr_id ` set (workflow_runs ?d1)"
    by (metis list.set_map)
  show ?thesis
    using i1 ac wh wr ow ds unfolding db_integrity_def
    by (simp add: tabs(2,3,6-9) wrid)
qed

lemma in_map_filter_key:
  "x \<in> set (map k xs) \<Longrightarrow> x \<noteq> v \<Longrightarrow> x \<in> set (map k (filter (\<lambda>y. k y \<noteq> v) xs))"
  by auto

lemma delete_workflow_rows_tables:
  "workflows (delete_workflow_rows wid d) = filter (\<lambda>w. wf_id w \<noteq> wid) (workflows d)"
  "users (delete_workflow_rows wid d) = users d"
  "secrets (delete_workflow_rows wid d) = secrets d"
  "case_actions (delete_workflow_rows wid d) = case_actions d"
  "case_contexts (delete_workflow_rows wid d) = case_contexts d"
  by (simp_all add: delete_workflow_rows_def delete_actions_rows_def Let_def)

lemma refers_image: "refers r ids \<longleftrightarrow> r \<in> Some ` set ids"
  by (cases r) (auto simp: refers_def)

text \<open>Deleting a workflow, table by table: its actions go, the webhooks of the
  workflow or of one of its actions go, and the runs of the workflow and of
  its actions stay with their foreign key set to NULL.\<close>

lemma delete_workflow_rows_cascade:
  assumes "distinct (map act_id (actions d))"
  shows "actions (delete_workflow_rows wid d) = filter (\<lambda>a. act_workflow_id a \<noteq> Some wid) (actions d)"
    and "webhooks (delete_workflow_rows wid d)
           = filter (\<lambda>h. wh_workflow_id h \<noteq> Some wid
                          \<and> wh_action_id h \<notin> Some ` act_id ` set (workflow_actions d wid)) (webhooks d)"
    and "workflow_runs (delete_workflow_rows wid d)
           = update_where (\<lambda>r. wr_workflow_id r = Some wid) (\<lambda>r. r\<lparr>wr_workflow_id := None\<rparr>)
               (workflow_runs d)"
    and "action_runs (delete_workflow_rows wid d)
           = update_where (\<lambda>r. ar_action_id r \<in> Some ` act_id ` set (workflow_actions d wid))
               (\<lambda>r. r\<lparr>ar_action_id := None\<rparr>) (action_runs d)"
proof -
  have inj: "inj_on act_id (set (actions d))" using assms by (simp add: distinct_map)
  have "a \<in> set (actions d) \<Longrightarrow> act_id a \<in> act_id ` set (workflow_actions d wid) \<longleftrightarrow> act_workflow_id a = Some wid" for a
    using inj by (auto simp: workflow_actions_def dest: inj_onD)
  then show "actions (delete_workflow_rows wid d) = filter (\<lambda>a. act_workflow_id a \<noteq> Some wid) (actions d)"
    by (simp add: delete_workflow_rows_def delete_actions_rows_def Let_def cong: filter_cong)
  show "webhooks (delete_workflow_rows wid d)
           = filter (\<lambda>h. wh_workflow_id h \<noteq> Some wid
                          \<and> wh_action_id h \<notin> Some ` act_id ` set (workflow_actions d wid)) (webhooks d)"
    by (auto simp: delete_workflow_rows_def delete_actions_rows_def Let_def refers_image conj_commute intro: filter_cong)
  show "workflow_runs (delete_workflow_rows wid d)
           = update_where (\<lambda>r. wr_workflow_id r = Some wid) (\<lambda>r. r\<lparr>wr_workflow_id := None\<rparr>)
               (workflow_runs d)"
    by (simp add: delete_workflow_rows_def delete_actions_rows_def Let_def)
  show "action_runs (delete_workflow_rows wid d)
           = update_where (\<lambda>r. ar_action_id r \<in> Some ` act_id ` set (workflow_actions d wid))
               (\<lambda>r. r\<lparr>ar_action_id := None\<rparr>) (action_runs d)"
    by (simp add: delete_workflow_rows_def delete_actions_rows_def Let_def refers_image)
qed

lemma fold_delete_workflow_rows:
  "db_integrity d \<Longrightarrow> db_integrity (fold delete_workflow_rows wids d)
   \<and> workflows (fold delete_workflow_rows wids d) = filter (\<lambda>w. wf_id w \<notin> set wids) (workflows d)
   \<and> users (fold delete_workflow_rows wids d) = users d
   \<and> secrets (fold delete_workflow_rows wids d) = secrets d
   \<and> case_actions (fold delete_workflow_rows wids d) = case_actions d
   \<and> case_contexts (fold delete_workflow_rows wids d) = case_contexts d"
proof (induction wids arbitrary: d)
  case Nil
  then show ?case by simp
next
  case (Cons wid wids)
  from Cons.prems have "db_integrity (delete_workflow_rows wid d)"
    by (rule db_integrity_delete_workflow)
  from Cons.IH [OF this] show ?case
    by (simp add: delete_workflow_rows_tables)
qed

lemma db_integrity_delete_user:
  assumes "db_integrity d"
  shows "db_integrity (delete_user_rows uid d)"
proof -
  let ?wids = "map wf_id (filter (\<lambda>w. wf_owner_id w = uid) (workflows d))"
  let ?d1 = "fold delete_workflow_rows ?wids d"
  let ?d = "delete_user_rows uid d"
  from fold_delete_workflow_rows [OF assms, of ?wids]
  have i1: "db_integrity ?d1"
    and w1: "workflows ?d1 = filter (\<lambda>w. wf_id w \<notin> set ?wids) (workflows d)"
    and t1: "users ?d1 = users d" "secrets ?d1 = secrets d" "case_actions ?d1 = case_actions d"
            "case_contexts ?d1 = case_contexts d"
    by blast+
  have nw: "wf_owner_id w \<noteq> uid" if "w \<in> set (workflows ?d1)" for w
    using that unfolding w1 by auto
  have tabs: "users ?d = filter (\<lambda>u. u_id u \<noteq> uid) (users ?d1)"
    "secrets ?d = filter (\<lambda>s. sec_owner_id s \<noteq> uid) (secrets ?d1)"
    "case_actions ?d = update_where (\<lambda>c. ca_user_id c = Some uid)
                           (\<lambda>c. c\<lparr>ca_user_id := None\<rparr>) (case_actions ?d1)"
    "case_contexts ?d = update_where (\<lambda>c. cc_user_id c = Some uid)
                            (\<lambda>c. c\<lparr>cc_user_id := None\<rparr>) (case_contexts ?d1)"
    "workflows ?d = workflows ?d1" "actions ?d = actions ?d1" "action_runs ?d = action_runs ?d1"
    "webhooks ?d = webhooks ?d1" "workflow_runs ?d = workflow_runs ?d1"
    by (simp_all add: delete_user_rows_def Let_def)
  have ow: "\<forall>w\<in>set (workflows ?d). wf_owner_id w \<in> set (map u_id (users ?d))"
  proof
    fix w assume "w \<in> set (workflows ?d)"
    then have w: "w \<in> set (workflows ?d1)" by (simp add: tabs(5))
    with i1 have "wf_owner_id w \<in> set (map u_id (users ?d1))"
      unfolding db_integrity_def by blast
    then show "wf_owner_id w \<in> set (map u_id (users ?d))"
      unfolding tabs(1) using nw [OF w] by (rule in_map_filter_key)
  qed
  have so: "\<forall>s\<in>set (secrets ?d). sec_owner_id s \<in> set (map u_id (users ?d))"
    using i1 unfolding tabs(1,2) by (auto simp: db_integrity_def)
  have ca: "\<forall>c\<in>set (case_actions ?d). fk_opt (ca_user_id c) (map u_id (users ?d))"
  proof
    fix c assume "c \<in> set (case_actions ?d)"
    then obtain c0 where c0: "c0 \<in> set (case_actions ?d1)"
      and c: "c = (if ca_user_id c0 = Some uid then c0\<lparr>ca_user_id := None\<rparr> else c0)"
      unfolding tabs(3) by (auto dest: set_update_where)
    from i1 c0 have "fk_opt (ca_user_id c0) (map u_id (users ?d1))"
      by (auto simp: db_integrity_def)
    then show "fk_opt (ca_user_id c) (map u_id (users ?d))"
      unfolding tabs(1) c by (auto intro: fk_opt_filter)
  qed
  have cc: "\<forall>c\<in>set (case_contexts ?d). fk_opt (cc_user_id c) (map u_id (users ?d))"
  proof
    fix c assume "c \<in> set (case_contexts ?d)"
    then obtain c0 where c0: "c0 \<in> set (case_contexts ?d1)"
      and c: "c = (if cc_user_id c0 = Some uid then c0\<lparr>cc_user_id := None\<rparr> else c0)"
      unfolding tabs(4) by (auto dest: set_update_where)
    from i1 c0 have "fk_opt (cc_user_id c0) (map u_id (users ?d1))"
      by (auto simp: db_integrity_def)
    then show "fk_opt (cc_user_id c) (map u_id (users ?d))"
      unfolding tabs(1) c by (auto intro: fk_opt_filter)
  qed
  have "map ca_id (case_actions ?d) = map ca_id (case_actions ?d1)"
    unfolding tabs(3) by (rule map_update_where) simp
  moreover have "map cc_id (case_contexts ?d) = map cc_id (case_contexts ?d1)"
    unfolding tabs(4) by (rule map_update_where) simp
  ultimately have ds: "distinct (map u_id (users ?d))" "distinct (map sec_id (secrets ?d))"
    "distinct (map ca_id (case_actions ?d))" "distinct (map cc_id (case_contexts ?d))"
    using i1 unfolding tabs(1,2) by (simp_all add: db_integrity_def distinct_map_filter)
  show ?thesis
    using i1 ow so ca cc ds unfolding db_integrity_def by (simp add: tabs(5-9))
qed

end
