(* ===== verification/Workflows.thy ===== *)
theory Workflows
  imports Api Session
begin

text \<open>
  The workflow and workflow-run handlers of \<^verbatim>\<open>src/tracecat/api/app.py\<close>
  (lines 127--424), in the style of \<open>Api.copy_workflow\<close>: a handler takes the
  resolved \<open>Role\<close>, its path and body parameters and the state \<open>sys\<close>, and
  returns its response or the exception it raises, with the state after its
  session.  \<open>session_commit\<close> is the end of a session that writes: the new
  database if the commit succeeds, the old state if it raises.  A model
  constructor with a \<open>uuid4().hex\<close> default draws the next identifier
  (\<open>fresh_id\<close>).  Response models of \<^verbatim>\<open>src/tracecat/types/api.py\<close> are
  records; pydantic's validation of them is not modelled.
\<close>

subsection \<open>Session plumbing\<close>

definition fresh_id :: "env \<Rightarrow> sys \<Rightarrow> string" where
  "fresh_id E s = uuid4_hex E (sys_uuid s)"

definition session_commit :: "'r \<Rightarrow> db \<Rightarrow> nat \<Rightarrow> sys \<Rightarrow> 'r res \<times> sys" where
  "session_commit r d n s =
     (case commit_db d of Inl e \<Rightarrow> (Inl e, s) | Inr d' \<Rightarrow> (Inr r, \<lparr>sys_db = d', sys_uuid = n\<rparr>))"

text \<open>\<open>try: x = result.one() except NoResultFound: raise HTTPException(404)\<close>,
  then the rest of the session.\<close>

definition with_one :: "'a list \<Rightarrow> ('a \<Rightarrow> 'r res \<times> sys) \<Rightarrow> sys \<Rightarrow> 'r res \<times> sys" where
  "with_one xs f s = (case one_or_404 xs of Inl e \<Rightarrow> (Inl e, s) | Inr x \<Rightarrow> f x)"

text \<open>\<open>statement.limit(limit)\<close> on PostgreSQL: a negative limit is an error.\<close>

definition sql_limit :: "int \<Rightarrow> 'a list \<Rightarrow> 'a list res" where
  "sql_limit l xs = (if l < 0 then Inl DataError else Inr (take (nat l) xs))"

text \<open>\<open>if p is not None: field = p\<close>.\<close>

definition set_opt :: "'a option \<Rightarrow> 'a \<Rightarrow> 'a" where
  "set_opt p v = (case p of Some x \<Rightarrow> x | None \<Rightarrow> v)"

subsection \<open>Responses and parameters\<close>

record wf_meta =
  wm_id :: string
  wm_title :: string
  wm_description :: string
  wm_status :: string
  wm_icon_url :: "string option"

record action_response =
  ap_id :: string
  ap_type :: string
  ap_title :: string
  ap_description :: string
  ap_status :: string
  ap_inputs :: "json option"
  ap_key :: string

record workflow_response =
  wfr_id :: string
  wfr_title :: string
  wfr_description :: string
  wfr_status :: string
  wfr_actions :: "(string \<times> action_response) list"
  wfr_object :: "json option"
  wfr_owner_id :: string

record update_workflow_params =
  uw_title :: "string option"
  uw_description :: "string option"
  uw_status :: "string option"
  uw_object :: "json option"

definition workflow_meta :: "workflow \<Rightarrow> wf_meta" where
  "workflow_meta w = \<lparr>wm_id = wf_id w, wm_title = wf_title w, wm_description = wf_description w,
                      wm_status = wf_status w, wm_icon_url = wf_icon_url w\<rparr>"

text \<open>The \<open>ActionResponse\<close> of \<open>get_workflow\<close> (lines 207--218): the inputs are
  parsed when the column is set.\<close>

definition action_resp :: "action \<Rightarrow> action_response" where
  "action_resp a = \<lparr>ap_id = act_id a, ap_type = act_type a, ap_title = act_title a,
                    ap_description = act_description a, ap_status = act_status a,
                    ap_inputs = act_inputs a, ap_key = action_key a\<rparr>"

subsection \<open>Workflows\<close>

text \<open>\<open>GET /workflows\<close> (lines 127--148).\<close>

definition list_workflows :: "role \<Rightarrow> bool \<Rightarrow> sys \<Rightarrow> wf_meta list res \<times> sys" where
  "list_workflows r library s =
     (let query_user_id = (if \<not> library then role_user_id r else ''tracecat'')
      in (Inr (map workflow_meta (filter (\<lambda>w. wf_owner_id w = query_user_id) (workflows (sys_db s)))),
          s))"

text \<open>\<open>POST /workflows\<close> (lines 151--173).\<close>

definition create_workflow ::
  "env \<Rightarrow> role \<Rightarrow> string \<Rightarrow> string \<Rightarrow> sys \<Rightarrow> wf_meta res \<times> sys" where
  "create_workflow E r title description s =
     (let w = \<lparr>wf_id = fresh_id E s, wf_title = title, wf_description = description,
               wf_status = ''offline'', wf_object = None, wf_icon_url = None,
               wf_owner_id = role_user_id r\<rparr>
      in session_commit (workflow_meta w) (insert_row (RWorkflow w) (sys_db s)) (Suc (sys_uuid s)) s)"

text \<open>\<open>GET /workflows/{workflow_id}\<close> (lines 176--227).\<close>

definition get_workflow :: "role \<Rightarrow> string \<Rightarrow> sys \<Rightarrow> workflow_response res \<times> sys" where
  "get_workflow r workflow_id s =
     (let d = sys_db s in
      (case one_or_404 (filter (\<lambda>w. wf_owner_id w = role_user_id r \<and> wf_id w = workflow_id)
                              (workflows d)) of
         Inl e \<Rightarrow> Inl e
       | Inr w \<Rightarrow>
           let acts = filter (\<lambda>a. act_workflow_id a = Some workflow_id) (actions d) in
           Inr \<lparr>wfr_id = wf_id w, wfr_title = wf_title w, wfr_description = wf_description w,
                wfr_status = wf_status w, wfr_actions = map (\<lambda>a. (act_id a, action_resp a)) acts,
                wfr_object = wf_object w, wfr_owner_id = wf_owner_id w\<rparr>, s))"

text \<open>\<open>POST /workflows/{workflow_id}\<close> (lines 230--261).\<close>

definition update_workflow ::
  "role \<Rightarrow> string \<Rightarrow> update_workflow_params \<Rightarrow> sys \<Rightarrow> unit res \<times> sys" where
  "update_workflow r workflow_id params s =
     with_one (filter (\<lambda>w. wf_owner_id w = role_user_id r \<and> wf_id w = workflow_id)
                      (workflows (sys_db s)))
       (\<lambda>w. let w' = w\<lparr>wf_title := set_opt (uw_title params) (wf_title w),
                        wf_description := set_opt (uw_description params) (wf_description w),
                        wf_status := set_opt (uw_status params) (wf_status w),
                        wf_object := (case uw_object params of Some j \<Rightarrow> Some j | None \<Rightarrow> wf_object w)\<rparr>
            in session_commit ()
                 ((sys_db s)\<lparr>workflows := update_where (\<lambda>x. wf_id x = wf_id w) (\<lambda>_. w')
                                              (workflows (sys_db s))\<rparr>)
                 (sys_uuid s) s) s"

text \<open>\<open>DELETE /workflows/{workflow_id}\<close> (lines 264--284).\<close>

definition delete_workflow :: "role \<Rightarrow> string \<Rightarrow> sys \<Rightarrow> unit res \<times> sys" where
  "delete_workflow r workflow_id s =
     with_one (filter (\<lambda>w. wf_owner_id w = role_user_id r \<and> wf_id w = workflow_id)
                      (workflows (sys_db s)))
       (\<lambda>w. session_commit () (delete_workflow_rows (wf_id w) (sys_db s)) (sys_uuid s) s) s"

subsection \<open>Workflow runs\<close>

text \<open>\<open>WorkflowRunResponse.from_orm(run)\<close>: the run and its action runs.\<close>

definition run_response :: "db \<Rightarrow> workflow_run \<Rightarrow> workflow_run \<times> action_run list" where
  "run_response d run = (run, filter (\<lambda>ar. ar_workflow_run_id ar = wr_id run) (action_runs d))"

text \<open>\<open>GET /workflows/{workflow_id}/runs\<close> (lines 326--350).\<close>

definition list_workflow_runs ::
  "role \<Rightarrow> string \<Rightarrow> int \<Rightarrow> sys \<Rightarrow> workflow_run list res \<times> sys" where
  "list_workflow_runs r workflow_id limit s =
     (sql_limit limit (filter (\<lambda>run. wr_owner_id run = role_user_id r
                                    \<and> wr_workflow_id run = Some workflow_id)
                             (workflow_runs (sys_db s))), s)"

text \<open>\<open>POST /workflows/{workflow_id}/runs\<close> (lines 353--366).\<close>

definition create_workflow_run ::
  "env \<Rightarrow> role \<Rightarrow> string \<Rightarrow> sys \<Rightarrow> (workflow_run \<times> action_run list) res \<times> sys" where
  "create_workflow_run E r workflow_id s =
     (let run = \<lparr>wr_id = fresh_id E s, wr_status = ''pending'', wr_workflow_id = Some workflow_id,
                 wr_owner_id = role_user_id r\<rparr>;
          d' = insert_row (RWorkflowRun run) (sys_db s)
      in session_commit (run_response d' run) d' (Suc (sys_uuid s)) s)"

text \<open>\<open>GET /workflows/{workflow_id}/runs/{workflow_run_id}\<close> (lines 369--392).\<close>

definition get_workflow_run ::
  "role \<Rightarrow> string \<Rightarrow> string \<Rightarrow> sys \<Rightarrow> (workflow_run \<times> action_run list) res \<times> sys" where
  "get_workflow_run r workflow_id workflow_run_id s =
     (case one_or_404 (filter (\<lambda>run. wr_owner_id run = role_user_id r \<and> wr_id run = workflow_run_id
                                    \<and> wr_workflow_id run = Some workflow_id)
                             (workflow_runs (sys_db s))) of
        Inl e \<Rightarrow> (Inl e, s)
      | Inr run \<Rightarrow> (Inr (run_response (sys_db s) run), s))"

text \<open>\<open>POST /workflows/{workflow_id}/runs/{workflow_run_id}\<close> (lines 395--425).\<close>

definition update_workflow_run ::
  "role \<Rightarrow> string \<Rightarrow> string \<Rightarrow> string \<Rightarrow> sys \<Rightarrow> unit res \<times> sys" where
  "update_workflow_run r workflow_id workflow_run_id status s =
     with_one (filter (\<lambda>run. wr_owner_id run = role_user_id r \<and> wr_id run = workflow_run_id
                            \<and> wr_workflow_id run = Some workflow_id)
                      (workflow_runs (sys_db s)))
       (\<lambda>run. session_commit ()
                ((sys_db s)\<lparr>workflow_runs := update_where (\<lambda>x. wr_id x = wr_id run)
                                               (\<lambda>x. x\<lparr>wr_status := status\<rparr>) (workflow_runs (sys_db s))\<rparr>)
                (sys_uuid s) s) s"

subsection \<open>Lemmas\<close>

lemma filter_single: "filter P xs = [x] \<Longrightarrow> x \<in> set xs \<and> P x"
proof -
  assume "filter P xs = [x]"
  then have "x \<in> set (filter P xs)" by simp
  then show ?thesis by simp
qed

lemma session_commit_Inl:
  "session_commit r d n s = (Inl e, s') \<Longrightarrow> s' = s \<and> e = IntegrityError"
  by (auto simp: session_commit_def commit_db_def split: if_splits)

lemma session_commit_Inr:
  "session_commit r d n s = (Inr x, s') \<longleftrightarrow> db_integrity d \<and> x = r \<and> s' = \<lparr>sys_db = d, sys_uuid = n\<rparr>"
  by (auto simp: session_commit_def commit_db_def)

lemma session_commit_ok:
  "db_integrity d \<Longrightarrow> session_commit r d n s = (Inr r, \<lparr>sys_db = d, sys_uuid = n\<rparr>)"
  by (simp add: session_commit_def)

lemma session_commit_integrity:
  "db_integrity (sys_db s) \<Longrightarrow> db_integrity (sys_db (snd (session_commit r d n s)))"
  by (simp add: session_commit_def commit_db_def)

lemma with_one_single [simp]: "with_one [x] f s = f x"
  by (simp add: with_one_def one_or_404_def result_one_def)

lemma with_one_cases:
  "with_one xs f s = (res, s') \<Longrightarrow> (\<exists>e. res = Inl e \<and> s' = s) \<or> (\<exists>x. xs = [x] \<and> f x = (res, s'))"
  by (auto simp: with_one_def one_or_404_Inr split: sum.splits)

lemma filter_key_unique:
  assumes "distinct (map k xs)" and "x \<in> set xs" and "Q x"
  shows "filter (\<lambda>y. Q y \<and> k y = k x) xs = [x]"
  using assms by (intro filter_unique_key [where key = k]) auto

lemma filter_key_unique':
  assumes "distinct (map k xs)" and "x \<in> set xs" and "Q x"
  shows "filter (\<lambda>y. Q y \<and> k y = k x \<and> R y) xs = (if R x then [x] else [])"
proof (cases "R x")
  case True
  with assms show ?thesis by (simp, intro filter_unique_key [where key = k]) auto
next
  case False
  have "\<And>y. y \<in> set xs \<Longrightarrow> k y = k x \<Longrightarrow> y = x"
    using assms(1,2) by (metis distinct_map inj_onD)
  with False show ?thesis by (auto simp: filter_empty_conv)
qed


lemma update_where_key_unique:
  assumes "distinct (map k xs)" and "x \<in> set xs"
  shows "update_where (\<lambda>y. k y = k x) f xs = map (\<lambda>y. if y = x then f y else y) xs"
proof -
  have "\<And>y. y \<in> set xs \<Longrightarrow> k y = k x \<longleftrightarrow> y = x"
    using assms by (metis distinct_map inj_onD)
  then show ?thesis by (simp add: update_where_def)
qed

text \<open>C10: deleting an owned workflow always succeeds on a consistent database and
  cascades exactly as the ORM and the foreign keys prescribe: the workflow and
  its actions are deleted; the webhooks of the workflow and of its actions are
  deleted; the runs of the workflow and of its actions are kept with their
  foreign key set to NULL; the constraints still hold and no user, secret or
  case label is touched.\<close>

theorem delete_workflow_cascade:
  assumes "db_integrity (sys_db s)" and "w \<in> set (workflows (sys_db s))"
    and "wf_owner_id w = role_user_id r"
  shows "\<exists>s'. delete_workflow r (wf_id w) s = (Inr (), s') \<and> db_integrity (sys_db s')
     \<and> workflows (sys_db s') = filter (\<lambda>x. wf_id x \<noteq> wf_id w) (workflows (sys_db s))
     \<and> actions (sys_db s') = filter (\<lambda>a. act_workflow_id a \<noteq> Some (wf_id w)) (actions (sys_db s))
     \<and> webhooks (sys_db s')
         = filter (\<lambda>h. wh_workflow_id h \<noteq> Some (wf_id w)
                        \<and> wh_action_id h \<notin> Some ` act_id ` set (workflow_actions (sys_db s) (wf_id w)))
             (webhooks (sys_db s))
     \<and> workflow_runs (sys_db s')
         = map (\<lambda>run. if wr_workflow_id run = Some (wf_id w) then run\<lparr>wr_workflow_id := None\<rparr> else run)
             (workflow_runs (sys_db s))
     \<and> action_runs (sys_db s')
         = map (\<lambda>ar. if ar_action_id ar \<in> Some ` act_id ` set (workflow_actions (sys_db s) (wf_id w))
                     then ar\<lparr>ar_action_id := None\<rparr> else ar)
             (action_runs (sys_db s))
     \<and> users (sys_db s') = users (sys_db s) \<and> secrets (sys_db s') = secrets (sys_db s)
     \<and> case_actions (sys_db s') = case_actions (sys_db s)
     \<and> case_contexts (sys_db s') = case_contexts (sys_db s)"
proof -
  let ?d' = "delete_workflow_rows (wf_id w) (sys_db s)"
  from assms(1) have "distinct (map wf_id (workflows (sys_db s)))"
    and acts: "distinct (map act_id (actions (sys_db s)))" by (simp_all add: db_integrity_def)
  then have one: "filter (\<lambda>x. wf_owner_id x = role_user_id r \<and> wf_id x = wf_id w)
                    (workflows (sys_db s)) = [w]"
    using assms(2,3) by (intro filter_key_unique) 
  have i: "db_integrity ?d'" using assms(1) by (rule db_integrity_delete_workflow)
  have run: "delete_workflow r (wf_id w) s = (Inr (), \<lparr>sys_db = ?d', sys_uuid = sys_uuid s\<rparr>)"
    by (simp add: delete_workflow_def one session_commit_ok [OF i])
  show ?thesis
    using run i delete_workflow_rows_tables [of "wf_id w" "sys_db s"]
      delete_workflow_rows_cascade [OF acts, of "wf_id w"]
    by (intro exI [of _ "\<lparr>sys_db = ?d', sys_uuid = sys_uuid s\<rparr>"]) (simp add: update_where_def)
qed


lemma db_integrity_set_workflows:
  assumes "db_integrity d" and "map wf_id ws = map wf_id (workflows d)"
    and "\<forall>w\<in>set ws. wf_owner_id w \<in> set (map u_id (users d))"
  shows "db_integrity (d\<lparr>workflows := ws\<rparr>)"
  using assms unfolding db_integrity_def by simp

lemma db_integrity_set_workflow_runs:
  assumes "db_integrity d" and "map wr_id rs = map wr_id (workflow_runs d)"
    and "map wr_workflow_id rs = map wr_workflow_id (workflow_runs d)"
  shows "db_integrity (d\<lparr>workflow_runs := rs\<rparr>)"
proof -
  have "\<forall>r\<in>set rs. fk_opt (wr_workflow_id r) (map wf_id (workflows d))"
  proof
    fix r assume "r \<in> set rs"
    then have "wr_workflow_id r \<in> set (map wr_workflow_id (workflow_runs d))"
      by (metis assms(3) image_eqI list.set_map)
    with assms(1) show "fk_opt (wr_workflow_id r) (map wf_id (workflows d))"
      by (auto simp: db_integrity_def)
  qed
  with assms(1,2) show ?thesis unfolding db_integrity_def by simp
qed

text \<open>C21: updating an owned workflow stores the request's graph document as it is:
  the handler checks nothing about it, so a document that names no action of the
  workflow is stored as well.\<close>

theorem update_workflow_stores_object:
  assumes "db_integrity (sys_db s)" and "w \<in> set (workflows (sys_db s))"
    and "wf_owner_id w = role_user_id r" and "uw_object params = Some g"
  shows "\<exists>s'. update_workflow r (wf_id w) params s = (Inr (), s') \<and> db_integrity (sys_db s')
     \<and> map wf_id (workflows (sys_db s')) = map wf_id (workflows (sys_db s))
     \<and> (\<exists>w'\<in>set (workflows (sys_db s')). wf_id w' = wf_id w \<and> wf_owner_id w' = wf_owner_id w
           \<and> wf_object w' = Some g)"
proof -
  let ?w' = "w\<lparr>wf_title := set_opt (uw_title params) (wf_title w),
               wf_description := set_opt (uw_description params) (wf_description w),
               wf_status := set_opt (uw_status params) (wf_status w),
               wf_object := (case uw_object params of Some j \<Rightarrow> Some j | None \<Rightarrow> wf_object w)\<rparr>"
  let ?ws = "update_where (\<lambda>x. wf_id x = wf_id w) (\<lambda>_. ?w') (workflows (sys_db s))"
  from assms(1) have dist: "distinct (map wf_id (workflows (sys_db s)))" by (simp add: db_integrity_def)
  then have one: "filter (\<lambda>x. wf_owner_id x = role_user_id r \<and> wf_id x = wf_id w)
                    (workflows (sys_db s)) = [w]"
    using assms(2,3) by (rule filter_key_unique)
  have ws: "?ws = map (\<lambda>y. if y = w then ?w' else y) (workflows (sys_db s))"
    using dist assms(2) by (rule update_where_key_unique)
  have ids: "map wf_id ?ws = map wf_id (workflows (sys_db s))"
    unfolding ws by (simp add: comp_def)
  have own: "\<forall>x\<in>set ?ws. wf_owner_id x \<in> set (map u_id (users (sys_db s)))"
    using assms(1) unfolding ws db_integrity_def by auto
  have i: "db_integrity ((sys_db s)\<lparr>workflows := ?ws\<rparr>)"
    using assms(1) ids own by (rule db_integrity_set_workflows)
  have run: "update_workflow r (wf_id w) params s
      = (Inr (), \<lparr>sys_db = (sys_db s)\<lparr>workflows := ?ws\<rparr>, sys_uuid = sys_uuid s\<rparr>)"
    by (simp add: update_workflow_def one session_commit_ok [OF i] del: update_where_def)
  have "?w' \<in> set ?ws" unfolding ws using assms(2) by auto
  then have "\<exists>w'\<in>set ?ws. wf_id w' = wf_id w \<and> wf_owner_id w' = wf_owner_id w \<and> wf_object w' = Some g"
    using assms(4) by (intro bexI [of _ ?w']) simp_all
  with run i ids show ?thesis
    by (intro exI [of _ "\<lparr>sys_db = (sys_db s)\<lparr>workflows := ?ws\<rparr>, sys_uuid = sys_uuid s\<rparr>"]) simp
qed


lemma fk_fresh_none:
  assumes "\<forall>x\<in>set xs. fk_opt (ref x) ids" and "i \<notin> set ids"
  shows "filter (\<lambda>x. ref x = Some i) xs = []"
  using assms by (auto simp: filter_empty_conv fk_opt_def split: option.splits)

text \<open>A caller with no \<open>User\<close> row cannot create a workflow: the commit
  violates \<open>workflow.owner_id\<close>'s foreign key and nothing changes.\<close>

lemma create_workflow_unregistered:
  assumes "role_user_id r \<notin> set (map u_id (users (sys_db s)))"
  shows "create_workflow E r title description s = (Inl IntegrityError, s)"
  using assms by (simp add: create_workflow_def session_commit_def commit_db_def db_integrity_def)

text \<open>A registered user creating a workflow gets a new offline workflow with
  the next identifier, no document and no actions.\<close>

lemma create_workflow_empty:
  assumes "db_integrity (sys_db s)" and "role_user_id r \<in> set (map u_id (users (sys_db s)))"
    and "fresh_id E s \<notin> set (map wf_id (workflows (sys_db s)))"
  shows "\<exists>w s'. create_workflow E r title description s = (Inr (workflow_meta w), s')
     \<and> workflows (sys_db s') = workflows (sys_db s) @ [w] \<and> db_integrity (sys_db s')
     \<and> wf_id w = fresh_id E s \<and> wf_owner_id w = role_user_id r \<and> wf_title w = title
     \<and> wf_status w = ''offline'' \<and> wf_object w = None
     \<and> workflow_actions (sys_db s') (wf_id w) = []"
proof -
  let ?w = "\<lparr>wf_id = fresh_id E s, wf_title = title, wf_description = description,
             wf_status = ''offline'', wf_object = None, wf_icon_url = None,
             wf_owner_id = role_user_id r\<rparr>"
  let ?d = "insert_row (RWorkflow ?w) (sys_db s)"
  have i: "db_integrity ?d"
    using assms(1) by (rule db_integrity_append [where ws = "[?w]" and as = "[]" and hs = "[]"])
      (use assms in \<open>simp_all add: db_integrity_def\<close>)
  have "\<forall>a\<in>set (actions (sys_db s)). fk_opt (act_workflow_id a) (map wf_id (workflows (sys_db s)))"
    using assms(1) by (simp add: db_integrity_def)
  then have "filter (\<lambda>a. act_workflow_id a = Some (fresh_id E s)) (actions (sys_db s)) = []"
    using assms(3) by (rule fk_fresh_none)
  then have "workflow_actions ?d (fresh_id E s) = []"
    by (simp add: workflow_actions_def)
  with i show ?thesis
    by (intro exI [of _ ?w] exI [of _ "\<lparr>sys_db = ?d, sys_uuid = Suc (sys_uuid s)\<rparr>"])
      (simp add: create_workflow_def session_commit_ok Let_def)
qed

text \<open>C19: a service role creates a pending run on any existing workflow, owned by
  the role's user whoever owns the workflow: the handler checks no ownership.\<close>

theorem create_workflow_run_any_owner:
  assumes "db_integrity (sys_db s)" and "w \<in> set (workflows (sys_db s))"
    and "fresh_id E s \<notin> set (map wr_id (workflow_runs (sys_db s)))"
  shows "\<exists>run s'. create_workflow_run E r (wf_id w) s = (Inr (run, []), s')
     \<and> workflow_runs (sys_db s') = workflow_runs (sys_db s) @ [run] \<and> db_integrity (sys_db s')
     \<and> wr_owner_id run = role_user_id r \<and> wr_workflow_id run = Some (wf_id w)
     \<and> wr_status run = ''pending''"
proof -
  let ?run = "\<lparr>wr_id = fresh_id E s, wr_status = ''pending'', wr_workflow_id = Some (wf_id w),
               wr_owner_id = role_user_id r\<rparr>"
  let ?d = "insert_row (RWorkflowRun ?run) (sys_db s)"
  have i: "db_integrity ?d"
    using assms unfolding db_integrity_def by (auto simp: fk_opt_def)
  have "ar_workflow_run_id ar \<noteq> fresh_id E s" if "ar \<in> set (action_runs ?d)" for ar
  proof -
    from that have "ar \<in> set (action_runs (sys_db s))" by simp
    with assms(1) have "ar_workflow_run_id ar \<in> set (map wr_id (workflow_runs (sys_db s)))"
      unfolding db_integrity_def by blast
    with assms(3) show ?thesis by auto
  qed
  then have "filter (\<lambda>ar. ar_workflow_run_id ar = fresh_id E s) (action_runs ?d) = []"
    by (simp add: filter_empty_conv)
  with i show ?thesis
    by (intro exI [of _ ?run] exI [of _ "\<lparr>sys_db = ?d, sys_uuid = Suc (sys_uuid s)\<rparr>"])
      (simp add: create_workflow_run_def session_commit_ok run_response_def Let_def)
qed

text \<open>Reading a workflow returns only a workflow the caller owns, with the
  requested id, and changes nothing.\<close>

lemma get_workflow_owned:
  assumes "get_workflow r workflow_id s = (Inr resp, s')"
  shows "s' = s \<and> wfr_id resp = workflow_id \<and> wfr_owner_id resp = role_user_id r
     \<and> (\<exists>w\<in>set (workflows (sys_db s)). wf_id w = workflow_id \<and> wf_owner_id w = role_user_id r
           \<and> wfr_object resp = wf_object w)"
proof (cases "one_or_404 (filter (\<lambda>w. wf_owner_id w = role_user_id r \<and> wf_id w = workflow_id)
                                 (workflows (sys_db s)))")
  case (Inl e)
  with assms show ?thesis by (simp add: get_workflow_def Let_def)
next
  case (Inr w)
  then have one: "filter (\<lambda>w. wf_owner_id w = role_user_id r \<and> wf_id w = workflow_id)
                    (workflows (sys_db s)) = [w]"
    by (simp add: one_or_404_Inr)
  then have w: "w \<in> set (workflows (sys_db s))" "wf_owner_id w = role_user_id r" "wf_id w = workflow_id"
    using filter_single [OF one] by simp_all
  from assms Inr have "s' = s" "wfr_id resp = wf_id w" "wfr_owner_id resp = wf_owner_id w"
    "wfr_object resp = wf_object w"
    by (auto simp: get_workflow_def Let_def)
  with w show ?thesis by auto
qed


text \<open>C35: listing a workflow's runs returns at most \<open>limit\<close> runs, each a run of
  that workflow owned by the caller; a negative limit is refused by the database
  (\<open>LIMIT\<close> must not be negative); the state is unchanged.\<close>

theorem list_workflow_runs_bounds:
  "snd (list_workflow_runs r wid l s) = s
   \<and> (l < 0 \<longrightarrow> fst (list_workflow_runs r wid l s) = Inl DataError)
   \<and> (0 \<le> l \<longrightarrow> (\<exists>runs. fst (list_workflow_runs r wid l s) = Inr runs \<and> length runs \<le> nat l
         \<and> (\<forall>x\<in>set runs. x \<in> set (workflow_runs (sys_db s)) \<and> wr_owner_id x = role_user_id r
                          \<and> wr_workflow_id x = Some wid)))"
  by (auto simp: list_workflow_runs_def sql_limit_def dest: in_set_takeD)

end
