(* ===== verification/Actions.thy ===== *)
theory Actions
  imports Workflows
begin

text \<open>
  The action, action-run and webhook handlers of \<^verbatim>\<open>src/tracecat/api/app.py\<close>
  (lines 462--922), on the conventions of \<open>Workflows\<close>.  \<open>create_action\<close>
  commits the action in its own session and then calls \<open>create_webhook\<close>,
  which opens a second one; \<open>authenticate_webhook\<close> is the check the runner
  makes before a webhook triggers a workflow.  \<open>str.lower()\<close> is modelled on
  ASCII (\<open>Identity.lower_char\<close>).
\<close>

subsection \<open>Responses and parameters\<close>

record action_meta =
  am_id :: string
  am_workflow_id :: string
  am_type :: string
  am_title :: string
  am_description :: string
  am_status :: string
  am_key :: string

record update_action_params =
  ua_title :: "string option"
  ua_description :: "string option"
  ua_status :: "string option"
  ua_inputs :: "json option"

record webhook_response =
  whr_id :: string
  whr_secret :: string
  whr_action_id :: "string option"
  whr_workflow_id :: "string option"
  whr_url :: string

record auth_webhook_response =
  aw_status :: string
  aw_owner_id :: "string option"
  aw_action_key :: "string option"
  aw_action_id :: "string option"
  aw_webhook_id :: "string option"
  aw_workflow_id :: "string option"

definition py_lower :: "string \<Rightarrow> string" where
  "py_lower s = map lower_char s"

text \<open>Building a response from a row that was found.\<close>

definition map_res_one :: "('a \<Rightarrow> 'b) \<Rightarrow> 'a res \<Rightarrow> 'b res" where
  "map_res_one f r = rbind r (\<lambda>x. Inr (f x))"

definition action_meta_of :: "string \<Rightarrow> action \<Rightarrow> action_meta" where
  "action_meta_of wid a = \<lparr>am_id = act_id a, am_workflow_id = wid, am_type = act_type a,
     am_title = act_title a, am_description = act_description a, am_status = act_status a,
     am_key = action_key a\<rparr>"

definition webhook_resp :: "env \<Rightarrow> webhook \<Rightarrow> webhook_response" where
  "webhook_resp E h = \<lparr>whr_id = wh_id h, whr_secret = webhook_secret E (wh_id h),
     whr_action_id = wh_action_id h, whr_workflow_id = wh_workflow_id h,
     whr_url = webhook_url E (wh_id h)\<rparr>"

subsection \<open>Webhooks\<close>

text \<open>\<open>GET /webhooks\<close> (lines 745--768).  The response reads \<open>webhook.path\<close>; the
  table model names that column \<open>id\<close> (\<open>path\<close> is only its alias), so the
  attribute access raises as soon as one webhook is selected.\<close>

definition list_webhooks :: "role \<Rightarrow> string \<Rightarrow> sys \<Rightarrow> webhook_response list res \<times> sys" where
  "list_webhooks r workflow_id s =
     (case filter (\<lambda>h. wh_owner_id h = role_user_id r \<and> wh_workflow_id h = Some workflow_id)
                  (webhooks (sys_db s)) of
        [] \<Rightarrow> Inr []
      | _ \<Rightarrow> Inl AttributeError, s)"

text \<open>\<open>POST /webhooks\<close> (lines 771--793).\<close>

definition create_webhook ::
  "env \<Rightarrow> role \<Rightarrow> string \<Rightarrow> string \<Rightarrow> sys \<Rightarrow> webhook_response res \<times> sys" where
  "create_webhook E r action_id workflow_id s =
     (let h = \<lparr>wh_id = fresh_id E s, wh_action_id = Some action_id, wh_workflow_id = Some workflow_id,
               wh_owner_id = role_user_id r\<rparr>
      in session_commit (webhook_resp E h) (insert_row (RWebhook h) (sys_db s)) (Suc (sys_uuid s)) s)"

text \<open>\<open>GET /webhooks/{webhook_id}\<close> (lines 796--820).\<close>

definition get_webhook :: "env \<Rightarrow> role \<Rightarrow> string \<Rightarrow> sys \<Rightarrow> webhook_response res \<times> sys" where
  "get_webhook E r webhook_id s =
     (map_res_one (webhook_resp E)
        (one_or_404 (filter (\<lambda>h. wh_owner_id h = role_user_id r \<and> wh_id h = webhook_id)
                            (webhooks (sys_db s)))), s)"

text \<open>\<open>DELETE /webhooks/{webhook_id}\<close> (lines 823--837): \<open>result.one()\<close> is not
  guarded, so a missing webhook raises \<open>NoResultFound\<close> itself.\<close>

definition delete_webhook :: "role \<Rightarrow> string \<Rightarrow> sys \<Rightarrow> unit res \<times> sys" where
  "delete_webhook r webhook_id s =
     (case result_one (filter (\<lambda>h. wh_owner_id h = role_user_id r \<and> wh_id h = webhook_id)
                              (webhooks (sys_db s))) of
        Inl e \<Rightarrow> (Inl e, s)
      | Inr h \<Rightarrow> session_commit ()
                  ((sys_db s)\<lparr>webhooks := filter (\<lambda>x. wh_id x \<noteq> wh_id h) (webhooks (sys_db s))\<rparr>)
                  (sys_uuid s) s)"

text \<open>\<open>search_webhooks\<close> (lines 840--867): the owner and action filter is
  applied only when \<open>params.action_id\<close> is given.  Its route
  \<open>GET /webhooks/search\<close> is shadowed by \<open>GET /webhooks/{webhook_id}\<close> (line
  796), so it runs only when \<open>get_action\<close> calls it, with an action id.\<close>

definition search_webhooks ::
  "env \<Rightarrow> role \<Rightarrow> string option \<Rightarrow> sys \<Rightarrow> webhook_response res \<times> sys" where
  "search_webhooks E r action_id s =
     (let hs = (case action_id of
                  None \<Rightarrow> webhooks (sys_db s)
                | Some aid \<Rightarrow> filter (\<lambda>h. wh_owner_id h = role_user_id r \<and> wh_action_id h = Some aid)
                                    (webhooks (sys_db s)))
      in (map_res_one (webhook_resp E) (one_or_404 hs), s))"

text \<open>\<open>POST /authenticate/webhooks/{webhook_id}/{secret}\<close> (lines 870--922).\<close>

definition unauthorized :: auth_webhook_response where
  "unauthorized = \<lparr>aw_status = ''Unauthorized'', aw_owner_id = None, aw_action_key = None,
                   aw_action_id = None, aw_webhook_id = None, aw_workflow_id = None\<rparr>"

definition authenticate_webhook ::
  "env \<Rightarrow> string \<Rightarrow> string \<Rightarrow> sys \<Rightarrow> auth_webhook_response res \<times> sys" where
  "authenticate_webhook E webhook_id secret s =
     (case one_or_404 (filter (\<lambda>h. wh_id h = webhook_id) (webhooks (sys_db s))) of
        Inl e \<Rightarrow> (Inl e, s)
      | Inr h \<Rightarrow>
          if webhook_secret E (wh_id h) \<noteq> secret then (Inr unauthorized, s)
          else (case result_one (filter (\<lambda>a. Some (act_id a) = wh_action_id h) (actions (sys_db s))) of
                  Inl _ \<Rightarrow> (Inl (HTTPException 404), s)
                | Inr a \<Rightarrow>
                    (Inr \<lparr>aw_status = ''Authorized'', aw_owner_id = Some (act_owner_id a),
                          aw_action_key = Some (action_key a), aw_action_id = Some (act_id a),
                          aw_webhook_id = Some webhook_id, aw_workflow_id = wh_workflow_id h\<rparr>, s)))"

subsection \<open>Actions\<close>

text \<open>\<open>GET /actions\<close> (lines 462--487).\<close>

definition list_actions :: "role \<Rightarrow> string \<Rightarrow> sys \<Rightarrow> action_meta list res \<times> sys" where
  "list_actions r workflow_id s =
     (Inr (map (action_meta_of workflow_id)
             (filter (\<lambda>a. act_owner_id a = role_user_id r \<and> act_workflow_id a = Some workflow_id)
                     (actions (sys_db s)))), s)"

text \<open>\<open>POST /actions\<close> (lines 490--523): two sessions, the second one only for a
  webhook-typed action.\<close>

definition create_action ::
  "env \<Rightarrow> role \<Rightarrow> string \<Rightarrow> string \<Rightarrow> string \<Rightarrow> sys \<Rightarrow> action_meta res \<times> sys" where
  "create_action E r workflow_id type title s =
     (let a = \<lparr>act_id = fresh_id E s, act_type = type, act_title = title, act_description = '''',
               act_status = ''offline'', act_inputs = None, act_workflow_id = Some workflow_id,
               act_owner_id = role_user_id r\<rparr>
      in case session_commit () (insert_row (RAction a) (sys_db s)) (Suc (sys_uuid s)) s of
           (Inl e, s1) \<Rightarrow> (Inl e, s1)
         | (Inr _, s1) \<Rightarrow>
             (if py_lower type = ''webhook'' then
                (case create_webhook E r (act_id a) workflow_id s1 of
                   (Inl e, s2) \<Rightarrow> (Inl e, s2)
                 | (Inr _, s2) \<Rightarrow> (Inr (action_meta_of workflow_id a), s2))
              else (Inr (action_meta_of workflow_id a), s1)))"

text \<open>\<open>GET /actions/{action_id}\<close> (lines 526--563).  The inputs start as the
  parsed column or \<open>{}\<close>; a webhook action gets its webhook's path, secret and
  URL merged in; an empty result is reported as \<open>None\<close>.\<close>

definition get_action ::
  "env \<Rightarrow> role \<Rightarrow> string \<Rightarrow> string \<Rightarrow> sys \<Rightarrow> action_response res \<times> sys" where
  "get_action E r action_id workflow_id s =
     (case one_or_404 (filter (\<lambda>a. act_owner_id a = role_user_id r \<and> act_id a = action_id
                                  \<and> act_workflow_id a = Some workflow_id) (actions (sys_db s))) of
        Inl e \<Rightarrow> (Inl e, s)
      | Inr a \<Rightarrow>
          let inputs0 = (case act_inputs a of Some j \<Rightarrow> j | None \<Rightarrow> JDict []);
              inputs = (if py_lower (act_type a) = ''webhook'' then
                          rbind (fst (search_webhooks E r (Some (act_id a)) s)) (\<lambda>h.
                            json_update inputs0 [(''path'', JStr (whr_id h)),
                                                 (''secret'', JStr (whr_secret h)),
                                                 (''url'', JStr (whr_url h))])
                        else Inr inputs0)
          in (rbind inputs (\<lambda>inp. rbind (py_len inp) (\<lambda>n.
                Inr ((action_resp a)\<lparr>ap_inputs := (if n = 0 then None else Some inp)\<rparr>))), s))"

text \<open>\<open>POST /actions/{action_id}\<close> (lines 566--607).\<close>

definition update_action ::
  "role \<Rightarrow> string \<Rightarrow> update_action_params \<Rightarrow> sys \<Rightarrow> action_response res \<times> sys" where
  "update_action r action_id params s =
     with_one (filter (\<lambda>a. act_owner_id a = role_user_id r \<and> act_id a = action_id) (actions (sys_db s)))
       (\<lambda>a. let a' = a\<lparr>act_title := set_opt (ua_title params) (act_title a),
                        act_description := set_opt (ua_description params) (act_description a),
                        act_status := set_opt (ua_status params) (act_status a),
                        act_inputs := (case ua_inputs params of Some j \<Rightarrow> Some j | None \<Rightarrow> act_inputs a)\<rparr>
            in session_commit (action_resp a')
                 ((sys_db s)\<lparr>actions := update_where (\<lambda>x. act_id x = act_id a) (\<lambda>_. a')
                                            (actions (sys_db s))\<rparr>)
                 (sys_uuid s) s) s"

text \<open>\<open>DELETE /actions/{action_id}\<close> (lines 610--632).\<close>

definition delete_action :: "role \<Rightarrow> string \<Rightarrow> sys \<Rightarrow> unit res \<times> sys" where
  "delete_action r action_id s =
     with_one (filter (\<lambda>a. act_owner_id a = role_user_id r \<and> act_id a = action_id) (actions (sys_db s)))
       (\<lambda>a. session_commit () (delete_actions_rows [act_id a] (sys_db s)) (sys_uuid s) s) s"

subsection \<open>Action runs\<close>

text \<open>\<open>GET /actions/{action_id}/runs\<close> (lines 635--658).\<close>

definition list_action_runs :: "role \<Rightarrow> string \<Rightarrow> int \<Rightarrow> sys \<Rightarrow> action_run list res \<times> sys" where
  "list_action_runs r action_id limit s =
     (sql_limit limit (filter (\<lambda>x. ar_owner_id x = role_user_id r \<and> ar_action_id x = Some action_id)
                             (action_runs (sys_db s))), s)"

text \<open>\<open>POST /actions/{action_id}/runs\<close> (lines 661--680): the run's id comes from
  the request, so no identifier is drawn.\<close>

definition create_action_run ::
  "role \<Rightarrow> string \<Rightarrow> string \<Rightarrow> string \<Rightarrow> sys \<Rightarrow> action_run res \<times> sys" where
  "create_action_run r action_id action_run_id workflow_run_id s =
     (let x = \<lparr>ar_id = action_run_id, ar_status = ''pending'', ar_action_id = Some action_id,
               ar_workflow_run_id = workflow_run_id, ar_owner_id = role_user_id r\<rparr>
      in session_commit x (insert_row (RActionRun x) (sys_db s)) (sys_uuid s) s)"

text \<open>\<open>GET /actions/{action_id}/runs/{action_run_id}\<close> (lines 683--706).\<close>

definition get_action_run :: "role \<Rightarrow> string \<Rightarrow> string \<Rightarrow> sys \<Rightarrow> action_run res \<times> sys" where
  "get_action_run r action_id action_run_id s =
     (one_or_404 (filter (\<lambda>x. ar_owner_id x = role_user_id r \<and> ar_id x = action_run_id
                            \<and> ar_action_id x = Some action_id) (action_runs (sys_db s))), s)"

text \<open>\<open>POST /actions/{action_id}/runs/{action_run_id}\<close> (lines 709--742).\<close>

definition update_action_run ::
  "role \<Rightarrow> string \<Rightarrow> string \<Rightarrow> string \<Rightarrow> sys \<Rightarrow> unit res \<times> sys" where
  "update_action_run r action_id action_run_id status s =
     with_one (filter (\<lambda>x. ar_owner_id x = role_user_id r \<and> ar_id x = action_run_id
                          \<and> ar_action_id x = Some action_id) (action_runs (sys_db s)))
       (\<lambda>x. session_commit ()
              ((sys_db s)\<lparr>action_runs := update_where (\<lambda>y. ar_id y = ar_id x)
                                           (\<lambda>y. y\<lparr>ar_status := status\<rparr>) (action_runs (sys_db s))\<rparr>)
              (sys_uuid s) s) s"

subsection \<open>Lemmas\<close>

lemma graph_closed_node_ids:
  assumes "graph_closed S g" and "node_ids g = Some ns"
  shows "set ns \<subseteq> S"
proof
  fix x assume x: "x \<in> set ns"
  from assms(2) obtain ns0 where ns0: "json_getitem g ''nodes'' = Inr (JList ns0)"
    and th: "those (map (\<lambda>n. str_field n ''id'') ns0) = Some ns"
    by (auto simp: node_ids_def split: sum.splits json.splits)
  from th have "list_all2 (\<lambda>n y. str_field n ''id'' = Some y) ns0 ns"
    by (simp add: those_map_Some)
  then have len: "length ns0 = length ns"
    and at: "\<And>i. i < length ns \<Longrightarrow> str_field (ns0 ! i) ''id'' = Some (ns ! i)"
    by (simp_all add: list_all2_conv_all_nth)
  from x obtain i where i: "i < length ns" "x = ns ! i" by (auto simp: in_set_conv_nth)
  have n: "ns0 ! i \<in> set ns0" using i len by simp
  have nx: "str_field (ns0 ! i) ''id'' = Some x" using at i by simp
  from assms(1) ns0 have "list_all (node_closed S) ns0"
    by (auto simp: graph_closed_def split: sum.splits prod.splits)
  with n have "node_closed S (ns0 ! i)" by (simp add: list_all_iff)
  with nx show "x \<in> S"
    by (auto simp: node_closed_def split: sum.splits)
qed


text \<open>C8: webhook authentication only authorizes the secret derived from the
  webhook's id, and reports the owner, key and workflow of the webhook's action.\<close>

theorem authenticate_webhook_sound:
  assumes "authenticate_webhook E webhook_id secret s = (Inr resp, s')"
    and "aw_status resp = ''Authorized''"
  shows "s' = s \<and> secret = webhook_secret E webhook_id
     \<and> (\<exists>h\<in>set (webhooks (sys_db s)). wh_id h = webhook_id
          \<and> (\<exists>a\<in>set (actions (sys_db s)). wh_action_id h = Some (act_id a)
               \<and> aw_owner_id resp = Some (act_owner_id a) \<and> aw_action_key resp = Some (action_key a)
               \<and> aw_workflow_id resp = wh_workflow_id h))"
proof (cases "one_or_404 (filter (\<lambda>h. wh_id h = webhook_id) (webhooks (sys_db s)))")
  case (Inl e)
  with assms show ?thesis by (simp add: authenticate_webhook_def)
next
  case (Inr h)
  note oh = Inr
  then have "filter (\<lambda>h. wh_id h = webhook_id) (webhooks (sys_db s)) = [h]"
    by (simp add: one_or_404_Inr)
  from filter_single [OF this] have h: "h \<in> set (webhooks (sys_db s))" "wh_id h = webhook_id"
    by simp_all
  show ?thesis
  proof (cases "webhook_secret E (wh_id h) = secret")
    case False
    with assms oh show ?thesis by (auto simp: authenticate_webhook_def unauthorized_def)
  next
    case True
    show ?thesis
    proof (cases "result_one (filter (\<lambda>a. Some (act_id a) = wh_action_id h) (actions (sys_db s)))")
      case (Inl e)
      with assms oh True show ?thesis by (simp add: authenticate_webhook_def)
    next
      case (Inr a)
      then have "filter (\<lambda>a. Some (act_id a) = wh_action_id h) (actions (sys_db s)) = [a]"
        by (simp add: result_one_Inr)
      from filter_single [OF this] have a: "a \<in> set (actions (sys_db s))"
        "wh_action_id h = Some (act_id a)"
        by simp_all
      from assms oh True Inr have "s' = s" "aw_owner_id resp = Some (act_owner_id a)"
        "aw_action_key resp = Some (action_key a)" "aw_workflow_id resp = wh_workflow_id h"
        by (auto simp: authenticate_webhook_def)
      with h a True show ?thesis by auto
    qed
  qed
qed


text \<open>The path of a webhook's URL authenticates: split into id and secret,
  it is authorized for the webhook's action.\<close>

lemma authenticate_webhook_url:
  assumes "db_integrity (sys_db s)" and "h \<in> set (webhooks (sys_db s))"
    and "a \<in> set (actions (sys_db s))" and "wh_action_id h = Some (act_id a)"
    and "CHR ''/'' \<notin> set (wh_id h)"
  shows "authenticate_webhook E
           (fst (split_at (CHR ''/'') (drop (length (runner_url E @ ''/webhook/'')) (webhook_url E (wh_id h)))))
           (snd (split_at (CHR ''/'') (drop (length (runner_url E @ ''/webhook/'')) (webhook_url E (wh_id h)))))
           s
       = (Inr \<lparr>aw_status = ''Authorized'', aw_owner_id = Some (act_owner_id a),
               aw_action_key = Some (action_key a), aw_action_id = Some (act_id a),
               aw_webhook_id = Some (wh_id h), aw_workflow_id = wh_workflow_id h\<rparr>, s)"
proof -
  have sp: "split_at (CHR ''/'') (drop (length (runner_url E @ ''/webhook/'')) (webhook_url E (wh_id h)))
            = (wh_id h, webhook_secret E (wh_id h))"
    using assms(5) by (simp add: webhook_url_def split_at_append)
  from assms(1) have dh: "distinct (map wh_id (webhooks (sys_db s)))"
    and da: "distinct (map act_id (actions (sys_db s)))"
    by (simp_all add: db_integrity_def)
  have fh: "filter (\<lambda>x. wh_id x = wh_id h) (webhooks (sys_db s)) = [h]"
    using filter_key_unique [OF dh assms(2), of "\<lambda>_. True"] by simp
  have fa: "filter (\<lambda>x. Some (act_id x) = wh_action_id h) (actions (sys_db s)) = [a]"
    using filter_key_unique [OF da assms(3), of "\<lambda>_. True"] assms(4) by simp
  show ?thesis
    unfolding sp fst_conv snd_conv
    by (simp add: authenticate_webhook_def fh fa one_or_404_def result_one_def)
qed

text \<open>C31: listing a workflow's webhooks raises as soon as the caller has one
  there: the handler reads an attribute the table model does not have.\<close>

theorem list_webhooks_raises:
  assumes "h \<in> set (webhooks (sys_db s))" and "wh_owner_id h = role_user_id r"
    and "wh_workflow_id h = Some workflow_id"
  shows "list_webhooks r workflow_id s = (Inl AttributeError, s)"
proof -
  have "filter (\<lambda>h. wh_owner_id h = role_user_id r \<and> wh_workflow_id h = Some workflow_id)
          (webhooks (sys_db s)) \<noteq> []"
    using assms by (auto simp: filter_empty_conv)
  then show ?thesis by (simp add: list_webhooks_def split: list.splits)
qed

text \<open>C32: deleting a webhook the caller does not have raises the database
  driver's \<open>NoResultFound\<close> (a server error) rather than the 404 the other
  handlers answer.\<close>

theorem delete_webhook_missing:
  assumes "\<forall>h\<in>set (webhooks (sys_db s)). wh_owner_id h = role_user_id r \<longrightarrow> wh_id h \<noteq> webhook_id"
  shows "delete_webhook r webhook_id s = (Inl NoResultFound, s)"
proof -
  have "filter (\<lambda>h. wh_owner_id h = role_user_id r \<and> wh_id h = webhook_id) (webhooks (sys_db s)) = []"
    using assms by (auto simp: filter_empty_conv)
  then show ?thesis by (simp add: delete_webhook_def result_one_def)
qed

text \<open>C18: an action can be created in any existing workflow, whoever owns it; it
  belongs to the caller, has no inputs, and a webhook-typed one gets one new
  webhook.\<close>

theorem create_action_any_workflow:
  assumes "db_integrity (sys_db s)" and "w \<in> set (workflows (sys_db s))"
    and "uuid4_hex E (sys_uuid s) \<notin> set (map act_id (actions (sys_db s)))"
    and "uuid4_hex E (Suc (sys_uuid s)) \<notin> set (map wh_id (webhooks (sys_db s)))"
  shows "\<exists>a s'. create_action E r (wf_id w) type title s = (Inr (action_meta_of (wf_id w) a), s')
     \<and> db_integrity (sys_db s') \<and> actions (sys_db s') = actions (sys_db s) @ [a]
     \<and> act_id a = uuid4_hex E (sys_uuid s) \<and> act_owner_id a = role_user_id r
     \<and> act_workflow_id a = Some (wf_id w) \<and> act_inputs a = None
     \<and> webhooks (sys_db s') = webhooks (sys_db s) @
         (if py_lower type = ''webhook''
          then [\<lparr>wh_id = uuid4_hex E (Suc (sys_uuid s)), wh_action_id = Some (act_id a),
                 wh_workflow_id = Some (wf_id w), wh_owner_id = role_user_id r\<rparr>]
          else [])"
proof -
  let ?a = "\<lparr>act_id = fresh_id E s, act_type = type, act_title = title, act_description = '''',
             act_status = ''offline'', act_inputs = None, act_workflow_id = Some (wf_id w),
             act_owner_id = role_user_id r\<rparr>"
  let ?d1 = "insert_row (RAction ?a) (sys_db s)"
  let ?s1 = "\<lparr>sys_db = ?d1, sys_uuid = Suc (sys_uuid s)\<rparr>"
  let ?h = "\<lparr>wh_id = uuid4_hex E (Suc (sys_uuid s)), wh_action_id = Some (act_id ?a),
             wh_workflow_id = Some (wf_id w), wh_owner_id = role_user_id r\<rparr>"
  let ?d2 = "insert_row (RWebhook ?h) ?d1"
  have i1: "db_integrity ?d1"
    using assms(1) by (rule db_integrity_append [where ws = "[]" and as = "[?a]" and hs = "[]"])
      (use assms in \<open>simp_all add: db_integrity_def fresh_id_def fk_opt_def\<close>)
  have i2: "db_integrity ?d2"
    using i1 by (rule db_integrity_append [where ws = "[]" and as = "[]" and hs = "[?h]"])
      (use assms i1 in \<open>simp_all add: db_integrity_def fresh_id_def fk_opt_def\<close>)
  have s1: "session_commit () ?d1 (Suc (sys_uuid s)) s = (Inr (), ?s1)"
    by (rule session_commit_ok [OF i1])
  show ?thesis
  proof (cases "py_lower type = ''webhook''")
    case True
    have "create_webhook E r (act_id ?a) (wf_id w) ?s1
          = (Inr (webhook_resp E ?h), \<lparr>sys_db = ?d2, sys_uuid = Suc (Suc (sys_uuid s))\<rparr>)"
      using i2 by (simp add: create_webhook_def Let_def fresh_id_def session_commit_def)
    then have "create_action E r (wf_id w) type title s
          = (Inr (action_meta_of (wf_id w) ?a), \<lparr>sys_db = ?d2, sys_uuid = Suc (Suc (sys_uuid s))\<rparr>)"
      using True s1 by (simp add: create_action_def Let_def)
    with i2 True show ?thesis
      by (intro exI [of _ ?a] exI [of _ "\<lparr>sys_db = ?d2, sys_uuid = Suc (Suc (sys_uuid s))\<rparr>"])
        (simp add: fresh_id_def)
  next
    case False
    then have "create_action E r (wf_id w) type title s = (Inr (action_meta_of (wf_id w) ?a), ?s1)"
      using s1 by (simp add: create_action_def Let_def)
    with i1 False show ?thesis
      by (intro exI [of _ ?a] exI [of _ ?s1]) (simp add: fresh_id_def)
  qed
qed

end
