(* ===== verification/Accounts.thy ===== *)
theory Accounts
  imports Workflows
begin

text \<open>
  The user, secret, case-action and case-context handlers of
  \<^verbatim>\<open>src/tracecat/api/app.py\<close> (lines 1055--1419), and the seeding of the
  case tables by \<open>initialize_db\<close> (\<^verbatim>\<open>src/tracecat/db.py\<close>, lines 303--334).
  \<open>result.one_or_none()\<close> after \<open>.limit(1)\<close> is the first row or nothing.  A
  secret's value is stored as \<open>encrypt_key(value)\<close> (\<open>Secret.key\<close>'s setter).
  \<open>UpdateUserParams\<close> is \<open>CreateUserParams\<close>, whose \<open>tier\<close> defaults to
  \<open>"free"\<close>, so an update always carries a tier.  \<open>update_secret\<close> and
  \<open>create_case_context\<close> commit and then fail FastAPI's response validation
  (\<open>Prelude.respond\<close>).  The last section shows that the secret endpoints
  implement the key-value store \<open>secret_store\<close>.
\<close>

definition first_or_none :: "'a list \<Rightarrow> 'a option" where
  "first_or_none xs = (case xs of [] \<Rightarrow> None | x # _ \<Rightarrow> Some x)"

record user_params =
  up_tier :: string
  up_settings :: "string option"

text \<open>The body \<open>{"settings": s}\<close>: pydantic fills in the default tier.\<close>

definition settings_only :: "string option \<Rightarrow> user_params" where
  "settings_only st = \<lparr>up_tier = ''free'', up_settings = st\<rparr>"

subsection \<open>Users\<close>

text \<open>\<open>PUT /users\<close> (lines 1219--1244).\<close>

definition create_user :: "role \<Rightarrow> sys \<Rightarrow> user res \<times> sys" where
  "create_user r s =
     (case first_or_none (filter (\<lambda>u. u_id u = role_user_id r) (users (sys_db s))) of
        Some _ \<Rightarrow> (Inl (HTTPException 409), s)
      | None \<Rightarrow>
          let u = \<lparr>u_id = role_user_id r, u_tier = ''free'', u_settings = None\<rparr>
          in session_commit u (insert_row (RUser u) (sys_db s)) (sys_uuid s) s)"

text \<open>\<open>GET /users\<close> (lines 1247--1263).\<close>

definition get_user :: "role \<Rightarrow> sys \<Rightarrow> user res \<times> sys" where
  "get_user r s = (one_or_404 (filter (\<lambda>u. u_id u = role_user_id r) (users (sys_db s))), s)"

text \<open>\<open>POST /users\<close> (lines 1266--1289).\<close>

definition update_user :: "role \<Rightarrow> user_params \<Rightarrow> sys \<Rightarrow> unit res \<times> sys" where
  "update_user r params s =
     with_one (filter (\<lambda>u. u_id u = role_user_id r) (users (sys_db s)))
       (\<lambda>u. session_commit ()
              ((sys_db s)\<lparr>users := update_where (\<lambda>x. u_id x = u_id u)
                  (\<lambda>x. x\<lparr>u_tier := up_tier params,
                         u_settings := (case up_settings params of Some v \<Rightarrow> Some v
                                        | None \<Rightarrow> u_settings x)\<rparr>) (users (sys_db s))\<rparr>)
              (sys_uuid s) s) s"

text \<open>\<open>DELETE /users\<close> (lines 1292--1311).\<close>

definition delete_user :: "role \<Rightarrow> sys \<Rightarrow> unit res \<times> sys" where
  "delete_user r s =
     with_one (filter (\<lambda>u. u_id u = role_user_id r) (users (sys_db s)))
       (\<lambda>u. session_commit () (delete_user_rows (u_id u) (sys_db s)) (sys_uuid s) s) s"

subsection \<open>Secrets\<close>

text \<open>\<open>GET /secrets\<close> (lines 1314--1323).\<close>

definition list_secrets :: "role \<Rightarrow> sys \<Rightarrow> secret list res \<times> sys" where
  "list_secrets r s = (Inr (filter (\<lambda>x. sec_owner_id x = role_user_id r) (secrets (sys_db s))), s)"

text \<open>\<open>GET /secrets/{secret_name}\<close> (lines 1326--1349).\<close>

definition get_secret :: "role \<Rightarrow> string \<Rightarrow> sys \<Rightarrow> secret res \<times> sys" where
  "get_secret r name s =
     (case first_or_none (filter (\<lambda>x. sec_owner_id x = role_user_id r \<and> sec_name x = Some name)
                                 (secrets (sys_db s))) of
        None \<Rightarrow> Inl (HTTPException 404)
      | Some x \<Rightarrow> Inr x, s)"

text \<open>\<open>PUT /secrets\<close> (lines 1352--1376).\<close>

definition create_secret :: "env \<Rightarrow> role \<Rightarrow> string \<Rightarrow> string \<Rightarrow> sys \<Rightarrow> unit res \<times> sys" where
  "create_secret E r name value s =
     (case first_or_none (filter (\<lambda>x. sec_owner_id x = role_user_id r \<and> sec_name x = Some name)
                                 (secrets (sys_db s))) of
        Some _ \<Rightarrow> (Inl (HTTPException 409), s)
      | None \<Rightarrow>
          let x = \<lparr>sec_id = fresh_id E s, sec_name = Some name,
                   sec_encrypted_api_key = Some (encrypt_key E value), sec_owner_id = role_user_id r\<rparr>
          in session_commit () (insert_row (RSecret x) (sys_db s)) (Suc (sys_uuid s)) s)"

text \<open>\<open>POST /secrets\<close> (lines 1379--1401): the key is stored and committed,
  then the function ends without \<open>return\<close> where \<open>-> Secret\<close> is declared.\<close>

definition update_secret :: "env \<Rightarrow> role \<Rightarrow> string \<Rightarrow> string \<Rightarrow> sys \<Rightarrow> secret res \<times> sys" where
  "update_secret E r name value s =
     (case first_or_none (filter (\<lambda>x. sec_owner_id x = role_user_id r \<and> sec_name x = Some name)
                                 (secrets (sys_db s))) of
        None \<Rightarrow> (Inl (HTTPException 404), s)
      | Some x \<Rightarrow>
          respond (\<lambda>_. response_obj RetNone)
            (session_commit ()
              ((sys_db s)\<lparr>secrets := update_where (\<lambda>y. sec_id y = sec_id x)
                  (\<lambda>y. y\<lparr>sec_encrypted_api_key := Some (encrypt_key E value)\<rparr>) (secrets (sys_db s))\<rparr>)
              (sys_uuid s) s))"

text \<open>\<open>POST /secrets/search\<close> (lines 1404--1419): one \<open>Secret.name == name\<close>
  condition per requested name, all of them required.\<close>

definition search_secrets :: "role \<Rightarrow> string list \<Rightarrow> sys \<Rightarrow> secret list res \<times> sys" where
  "search_secrets r names s =
     (Inr (filter (\<lambda>x. sec_owner_id x = role_user_id r \<and> list_all (\<lambda>n. sec_name x = Some n) names)
                  (secrets (sys_db s))), s)"

text \<open>The owner and name of a secret identify it (\<open>create_secret\<close> refuses a
  second one); the schema does not enforce it.\<close>

definition secret_names_unique :: "db \<Rightarrow> bool" where
  "secret_names_unique d \<longleftrightarrow> distinct (map (\<lambda>x. (sec_owner_id x, sec_name x)) (secrets d))"

text \<open>The secrets as the key-value store they implement: the stored key of the
  secret an owner keeps under a name.\<close>

definition secret_store :: "db \<Rightarrow> string \<times> string \<Rightarrow> string option option" where
  "secret_store d = (\<lambda>(o', n). map_option sec_encrypted_api_key
                        (find (\<lambda>x. sec_owner_id x = o' \<and> sec_name x = Some n) (secrets d)))"

subsection \<open>Case actions and case contexts\<close>

text \<open>\<open>GET /case-actions\<close> (lines 1055--1067).\<close>

definition list_case_actions :: "role \<Rightarrow> sys \<Rightarrow> case_action list res \<times> sys" where
  "list_case_actions r s =
     (Inr (filter (\<lambda>c. ca_owner_id c = ''tracecat'' \<or> ca_owner_id c = role_user_id r)
                  (case_actions (sys_db s))), s)"

text \<open>\<open>POST /case-actions\<close> (lines 1070--1080); the body's \<open>user_id\<close> is stored
  as given.\<close>

definition create_case_action ::
  "env \<Rightarrow> role \<Rightarrow> string \<Rightarrow> string \<Rightarrow> string option \<Rightarrow> sys \<Rightarrow> case_action res \<times> sys" where
  "create_case_action E r tag value user_id s =
     (let c = \<lparr>ca_id = fresh_id E s, ca_tag = tag, ca_value = value, ca_user_id = user_id,
               ca_owner_id = role_user_id r\<rparr>
      in session_commit c (insert_row (RCaseAction c) (sys_db s)) (Suc (sys_uuid s)) s)"

text \<open>\<open>DELETE /case-actions/{case_action_id}\<close> (lines 1083--1102): any
  exception of \<open>result.one()\<close> becomes a 404.\<close>

definition delete_case_action :: "role \<Rightarrow> string \<Rightarrow> sys \<Rightarrow> unit res \<times> sys" where
  "delete_case_action r cid s =
     (case result_one (filter (\<lambda>c. ca_owner_id c = role_user_id r \<and> ca_id c = cid)
                              (case_actions (sys_db s))) of
        Inl _ \<Rightarrow> (Inl (HTTPException 404), s)
      | Inr c \<Rightarrow> session_commit ()
                  ((sys_db s)\<lparr>case_actions := filter (\<lambda>x. ca_id x \<noteq> ca_id c) (case_actions (sys_db s))\<rparr>)
                  (sys_uuid s) s)"

text \<open>\<open>GET /case-contexts\<close> (lines 1107--1119).\<close>

definition list_case_contexts :: "role \<Rightarrow> sys \<Rightarrow> case_context list res \<times> sys" where
  "list_case_contexts r s =
     (Inr (filter (\<lambda>c. cc_owner_id c = ''tracecat'' \<or> cc_owner_id c = role_user_id r)
                  (case_contexts (sys_db s))), s)"

text \<open>\<open>POST /case-contexts\<close> (lines 1122--1132): the row is committed, then
  the request body is returned where \<open>-> CaseContext\<close> is declared; the body
  lacks the \<open>owner_id\<close>, \<open>created_at\<close> and \<open>updated_at\<close> that \<open>CaseContext\<close>
  requires, so its validation fails.\<close>

definition create_case_context ::
  "env \<Rightarrow> role \<Rightarrow> string \<Rightarrow> string \<Rightarrow> string option \<Rightarrow> sys \<Rightarrow> case_context res \<times> sys" where
  "create_case_context E r tag value user_id s =
     (let c = \<lparr>cc_id = fresh_id E s, cc_tag = tag, cc_value = value, cc_user_id = user_id,
               cc_owner_id = role_user_id r\<rparr>
      in respond (\<lambda>_. response_obj RetOther)
           (session_commit () (insert_row (RCaseContext c) (sys_db s)) (Suc (sys_uuid s)) s))"

text \<open>\<open>DELETE /case-contexts/{case_context_id}\<close> (lines 1135--1155); the row is
  passed to \<open>session.delete\<close> twice, which deletes it once.\<close>

definition delete_case_context :: "role \<Rightarrow> string \<Rightarrow> sys \<Rightarrow> unit res \<times> sys" where
  "delete_case_context r cid s =
     (case result_one (filter (\<lambda>c. cc_owner_id c = role_user_id r \<and> cc_id c = cid)
                              (case_contexts (sys_db s))) of
        Inl _ \<Rightarrow> (Inl (HTTPException 404), s)
      | Inr c \<Rightarrow> session_commit ()
                  ((sys_db s)\<lparr>case_contexts := filter (\<lambda>x. cc_id x \<noteq> cc_id c) (case_contexts (sys_db s))\<rparr>)
                  (sys_uuid s) s)"

subsection \<open>Seeding the case tables\<close>

text \<open>The two seeding blocks of \<open>initialize_db\<close>: the MITRE labels become
  case contexts and the default case actions become case actions, each only
  when its table is empty, each committed on its own; every constructor draws
  an identifier.\<close>

fun seed_rows :: "nat \<Rightarrow> (nat \<Rightarrow> string \<Rightarrow> row) \<Rightarrow> string list \<Rightarrow> row list" where
  "seed_rows n mk [] = []"
| "seed_rows n mk (v # vs) = mk n v # seed_rows (Suc n) mk vs"

definition mitre_context :: "env \<Rightarrow> nat \<Rightarrow> string \<Rightarrow> row" where
  "mitre_context E n label = RCaseContext \<lparr>cc_id = uuid4_hex E n, cc_tag = ''mitre'', cc_value = label,
                                           cc_user_id = None, cc_owner_id = ''tracecat''\<rparr>"

definition default_case_action :: "env \<Rightarrow> nat \<Rightarrow> string \<Rightarrow> row" where
  "default_case_action E n v = RCaseAction \<lparr>ca_id = uuid4_hex E n, ca_tag = ''case_action'', ca_value = v,
                                            ca_user_id = None, ca_owner_id = ''tracecat''\<rparr>"

definition seed_table :: "bool \<Rightarrow> (nat \<Rightarrow> string \<Rightarrow> row) \<Rightarrow> string list \<Rightarrow> sys \<Rightarrow> unit res \<times> sys" where
  "seed_table tbl_empty mk vs s =
     (if tbl_empty then session_commit () (fold insert_row (seed_rows (sys_uuid s) mk vs) (sys_db s))
                      (sys_uuid s + length vs) s
      else (Inr (), s))"

definition initialize_db :: "env \<Rightarrow> string list \<Rightarrow> string list \<Rightarrow> sys \<Rightarrow> unit res \<times> sys" where
  "initialize_db E mitre_labels default_actions s =
     (case seed_table (case_contexts (sys_db s) = []) (mitre_context E) mitre_labels s of
        (Inl e, s1) \<Rightarrow> (Inl e, s1)
      | (Inr _, s1) \<Rightarrow> seed_table (case_actions (sys_db s1) = []) (default_case_action E)
                                    default_actions s1)"

subsection \<open>Lemmas\<close>

lemma first_or_none_None [simp]: "first_or_none xs = None \<longleftrightarrow> xs = []"
  by (simp add: first_or_none_def split: list.splits)

lemma first_or_none_Some: "first_or_none xs = Some x \<Longrightarrow> x \<in> set xs"
  by (simp add: first_or_none_def split: list.splits)

lemma create_secret_unique:
  assumes "secret_names_unique (sys_db s)" and "create_secret E r name value s = (res, s')"
  shows "secret_names_unique (sys_db s')"
proof (cases "first_or_none (filter (\<lambda>x. sec_owner_id x = role_user_id r \<and> sec_name x = Some name)
                                    (secrets (sys_db s)))")
  case None
  then have new: "(role_user_id r, Some name) \<notin> set (map (\<lambda>x. (sec_owner_id x, sec_name x)) (secrets (sys_db s)))"
    by (auto simp: filter_empty_conv)
  from assms(2) None show ?thesis
  proof (cases "res")
    case (Inl e)
    with assms(2) None have "s' = s"
      by (auto simp: create_secret_def Let_def dest: session_commit_Inl)
    with assms(1) show ?thesis by simp
  next
    case (Inr u)
    with assms(2) None have "sys_db s' = insert_row (RSecret \<lparr>sec_id = fresh_id E s, sec_name = Some name,
         sec_encrypted_api_key = Some (encrypt_key E value), sec_owner_id = role_user_id r\<rparr>) (sys_db s)"
      by (auto simp: create_secret_def Let_def session_commit_Inr)
    with assms(1) new show ?thesis by (simp add: secret_names_unique_def)
  qed
next
  case (Some x)
  with assms show ?thesis by (simp add: create_secret_def)
qed

text \<open>C33: updating only a user's settings resets the user's tier to \<open>free\<close>:
  the body's missing tier is filled in by the parameter model's default and
  then assigned.\<close>

theorem update_user_resets_tier:
  assumes "db_integrity (sys_db s)" and "u \<in> set (users (sys_db s))" and "u_id u = role_user_id r"
  shows "\<exists>s'. update_user r (settings_only st) s = (Inr (), s') \<and> db_integrity (sys_db s')
     \<and> (\<exists>u'\<in>set (users (sys_db s')). u_id u' = u_id u \<and> u_tier u' = ''free'')"
proof -
  let ?f = "\<lambda>x. x\<lparr>u_tier := up_tier (settings_only st),
                  u_settings := (case up_settings (settings_only st) of Some v \<Rightarrow> Some v
                                 | None \<Rightarrow> u_settings x)\<rparr>"
  let ?us = "update_where (\<lambda>x. u_id x = u_id u) ?f (users (sys_db s))"
  from assms(1) have dist: "distinct (map u_id (users (sys_db s)))" by (simp add: db_integrity_def)
  have one: "filter (\<lambda>x. u_id x = role_user_id r) (users (sys_db s)) = [u]"
    using filter_key_unique [OF dist assms(2), of "\<lambda>_. True"] assms(3) by simp
  have ids: "map u_id ?us = map u_id (users (sys_db s))" by (rule map_update_where) simp
  have i: "db_integrity ((sys_db s)\<lparr>users := ?us\<rparr>)"
    using assms(1) ids unfolding db_integrity_def by simp
  have run: "update_user r (settings_only st) s = (Inr (), \<lparr>sys_db = (sys_db s)\<lparr>users := ?us\<rparr>, sys_uuid = sys_uuid s\<rparr>)"
    by (simp add: update_user_def one session_commit_ok [OF i] del: update_where_def)
  have "?f u \<in> set ?us" using assms(2) by (force simp: update_where_def)
  then have "\<exists>u'\<in>set ?us. u_id u' = u_id u \<and> u_tier u' = ''free''"
    by (intro bexI [of _ "?f u"]) (simp_all add: settings_only_def)
  with run i show ?thesis
    by (intro exI [of _ "\<lparr>sys_db = (sys_db s)\<lparr>users := ?us\<rparr>, sys_uuid = sys_uuid s\<rparr>"]) simp
qed

text \<open>C34: searching secrets by two different names finds nothing: the handler
  requires a secret to have every requested name.\<close>

theorem search_secrets_two_names:
  assumes "n1 \<noteq> n2"
  shows "search_secrets r (n1 # n2 # ns) s = (Inr [], s)"
  using assms by (auto simp: search_secrets_def filter_empty_conv)

text \<open>C14: a secret created under a fresh name is read back by name with the
  encryption of its value.\<close>

theorem create_secret_roundtrip:
  assumes "db_integrity (sys_db s)" and "role_user_id r \<in> set (map u_id (users (sys_db s)))"
    and "\<forall>x\<in>set (secrets (sys_db s)). sec_owner_id x = role_user_id r \<longrightarrow> sec_name x \<noteq> Some name"
    and "fresh_id E s \<notin> set (map sec_id (secrets (sys_db s)))"
  shows "\<exists>s'. create_secret E r name value s = (Inr (), s') \<and> db_integrity (sys_db s')
     \<and> (\<exists>x. get_secret r name s' = (Inr x, s') \<and> sec_encrypted_api_key x = Some (encrypt_key E value))"
proof -
  let ?x = "\<lparr>sec_id = fresh_id E s, sec_name = Some name,
             sec_encrypted_api_key = Some (encrypt_key E value), sec_owner_id = role_user_id r\<rparr>"
  let ?d = "insert_row (RSecret ?x) (sys_db s)"
  have none: "filter (\<lambda>x. sec_owner_id x = role_user_id r \<and> sec_name x = Some name)
                (secrets (sys_db s)) = []"
    using assms(3) by (auto simp: filter_empty_conv)
  have i: "db_integrity ?d" using assms(1,2,4) unfolding db_integrity_def by simp
  have run: "create_secret E r name value s = (Inr (), \<lparr>sys_db = ?d, sys_uuid = Suc (sys_uuid s)\<rparr>)"
    using i by (simp add: create_secret_def none first_or_none_def Let_def session_commit_def)
  have "get_secret r name \<lparr>sys_db = ?d, sys_uuid = Suc (sys_uuid s)\<rparr>
        = (Inr ?x, \<lparr>sys_db = ?d, sys_uuid = Suc (sys_uuid s)\<rparr>)"
    by (simp add: get_secret_def none first_or_none_def)
  with run i show ?thesis by auto
qed

text \<open>Creating a secret under a name the caller already uses is refused
  with 409 and changes nothing.\<close>

lemma create_secret_conflict:
  assumes "x \<in> set (secrets (sys_db s))" and "sec_owner_id x = role_user_id r"
    and "sec_name x = Some name"
  shows "create_secret E r name value s = (Inl (HTTPException 409), s)"
proof -
  have "filter (\<lambda>x. sec_owner_id x = role_user_id r \<and> sec_name x = Some name) (secrets (sys_db s)) \<noteq> []"
    using assms by (auto simp: filter_empty_conv)
  then show ?thesis by (auto simp: create_secret_def first_or_none_def split: list.splits)
qed

text \<open>C11: deleting a registered user succeeds on a consistent database and
  removes the user with every workflow and secret the user owns.\<close>

theorem delete_user_cascade:
  assumes "db_integrity (sys_db s)" and "u \<in> set (users (sys_db s))" and "u_id u = role_user_id r"
  shows "\<exists>s'. delete_user r s = (Inr (), s') \<and> db_integrity (sys_db s')
     \<and> role_user_id r \<notin> set (map u_id (users (sys_db s')))
     \<and> (\<forall>w\<in>set (workflows (sys_db s')). wf_owner_id w \<noteq> role_user_id r)
     \<and> (\<forall>x\<in>set (secrets (sys_db s')). sec_owner_id x \<noteq> role_user_id r)"
proof -
  let ?d = "delete_user_rows (u_id u) (sys_db s)"
  from assms(1) have dist: "distinct (map u_id (users (sys_db s)))" by (simp add: db_integrity_def)
  have one: "filter (\<lambda>x. u_id x = role_user_id r) (users (sys_db s)) = [u]"
    using filter_key_unique [OF dist assms(2), of "\<lambda>_. True"] assms(3) by simp
  have i: "db_integrity ?d" using assms(1) by (rule db_integrity_delete_user)
  have run: "delete_user r s = (Inr (), \<lparr>sys_db = ?d, sys_uuid = sys_uuid s\<rparr>)"
    by (simp add: delete_user_def one session_commit_ok [OF i])
  have "role_user_id r \<notin> set (map u_id (users ?d))"
    "\<forall>x\<in>set (secrets ?d). sec_owner_id x \<noteq> role_user_id r"
    using assms(3) by (auto simp: delete_user_rows_def Let_def)
  moreover have "\<forall>w\<in>set (workflows ?d). wf_owner_id w \<noteq> role_user_id r"
  proof -
    from fold_delete_workflow_rows [OF assms(1),
        of "map wf_id (filter (\<lambda>w. wf_owner_id w = u_id u) (workflows (sys_db s)))"]
    have "workflows ?d = filter (\<lambda>w. wf_id w \<notin> set (map wf_id (filter (\<lambda>w. wf_owner_id w = u_id u)
                                                               (workflows (sys_db s)))))
                                (workflows (sys_db s))"
      by (simp add: delete_user_rows_def Let_def)
    with assms(3) show ?thesis by auto
  qed
  ultimately show ?thesis using run i by simp
qed

text \<open>Registering a user twice is refused with 409.\<close>

theorem create_user_conflict:
  assumes "role_user_id r \<in> set (map u_id (users (sys_db s)))"
  shows "create_user r s = (Inl (HTTPException 409), s)"
proof -
  have "filter (\<lambda>u. u_id u = role_user_id r) (users (sys_db s)) \<noteq> []"
    using assms by (auto simp: filter_empty_conv)
  then show ?thesis by (auto simp: create_user_def first_or_none_def split: list.splits)
qed

text \<open>Registering a new user appends a free-tier user row and keeps the
  constraints.\<close>

lemma create_user_registers:
  assumes "db_integrity (sys_db s)" and "role_user_id r \<notin> set (map u_id (users (sys_db s)))"
  shows "create_user r s = (Inr \<lparr>u_id = role_user_id r, u_tier = ''free'', u_settings = None\<rparr>,
                           \<lparr>sys_db = (sys_db s)\<lparr>users := users (sys_db s)
                                  @ [\<lparr>u_id = role_user_id r, u_tier = ''free'', u_settings = None\<rparr>]\<rparr>,
                            sys_uuid = sys_uuid s\<rparr>)
     \<and> db_integrity ((sys_db s)\<lparr>users := users (sys_db s)
                                  @ [\<lparr>u_id = role_user_id r, u_tier = ''free'', u_settings = None\<rparr>]\<rparr>)"
proof -
  let ?u = "\<lparr>u_id = role_user_id r, u_tier = ''free'', u_settings = None\<rparr>"
  have none: "filter (\<lambda>u. u_id u = role_user_id r) (users (sys_db s)) = []"
    using assms(2) by (force simp: filter_empty_conv)
  have i: "db_integrity (insert_row (RUser ?u) (sys_db s))"
    using assms unfolding db_integrity_def by (auto intro: fk_opt_mono)
  then show ?thesis
    by (simp add: create_user_def none first_or_none_def session_commit_ok Let_def)
qed

lemma fold_seed_mitre:
  "length (case_contexts (fold insert_row (seed_rows n (mitre_context E) vs) d))
     = length (case_contexts d) + length vs
   \<and> case_actions (fold insert_row (seed_rows n (mitre_context E) vs) d) = case_actions d"
  by (induction vs arbitrary: n d) (simp_all add: mitre_context_def)

lemma fold_seed_default:
  "length (case_actions (fold insert_row (seed_rows n (default_case_action E) vs) d))
     = length (case_actions d) + length vs
   \<and> case_contexts (fold insert_row (seed_rows n (default_case_action E) vs) d) = case_contexts d"
  by (induction vs arbitrary: n d) (simp_all add: default_case_action_def)

lemma seed_table_Inr:
  assumes "seed_table b mk vs s = (Inr x, s')"
  shows "(b \<and> sys_db s' = fold insert_row (seed_rows (sys_uuid s) mk vs) (sys_db s)) \<or> (\<not> b \<and> s' = s)"
  using assms by (auto simp: seed_table_def session_commit_Inr split: if_splits)

text \<open>Seeding the case tables is idempotent: after a successful
  initialisation with non-empty label and action lists, a second one changes
  nothing.\<close>

lemma initialize_db_idempotent:
  assumes "initialize_db E mitre_labels default_actions s = (Inr (), s1)"
    and "mitre_labels \<noteq> []" and "default_actions \<noteq> []"
  shows "initialize_db E mitre_labels default_actions s1 = (Inr (), s1)"
proof -
  obtain x s0 where first: "seed_table (case_contexts (sys_db s) = []) (mitre_context E) mitre_labels s
      = (Inr x, s0)"
    and second: "seed_table (case_actions (sys_db s0) = []) (default_case_action E) default_actions s0
      = (Inr (), s1)"
    using assms(1) by (auto simp: initialize_db_def split: prod.splits sum.splits)
  have c0: "case_contexts (sys_db s0) \<noteq> [] \<and> case_actions (sys_db s0) = case_actions (sys_db s)"
  proof (cases "case_contexts (sys_db s) = []")
    case True
    with seed_table_Inr [OF first]
    have "sys_db s0 = fold insert_row (seed_rows (sys_uuid s) (mitre_context E) mitre_labels) (sys_db s)"
      by simp
    then have "length (case_contexts (sys_db s0)) = length (case_contexts (sys_db s)) + length mitre_labels"
      "case_actions (sys_db s0) = case_actions (sys_db s)"
      using fold_seed_mitre by simp_all
    with assms(2) show ?thesis by auto
  next
    case False
    with seed_table_Inr [OF first] have "s0 = s" by simp
    with False show ?thesis by simp
  qed
  have "case_contexts (sys_db s1) \<noteq> [] \<and> case_actions (sys_db s1) \<noteq> []"
  proof (cases "case_actions (sys_db s0) = []")
    case True
    with seed_table_Inr [OF second]
    have "sys_db s1 = fold insert_row (seed_rows (sys_uuid s0) (default_case_action E) default_actions) (sys_db s0)"
      by simp
    then have "length (case_actions (sys_db s1)) = length (case_actions (sys_db s0)) + length default_actions"
      "case_contexts (sys_db s1) = case_contexts (sys_db s0)"
      using fold_seed_default by simp_all
    with assms(3) c0 show ?thesis by auto
  next
    case False
    with seed_table_Inr [OF second] have "s1 = s0" by simp
    with False c0 show ?thesis by simp
  qed
  then show ?thesis by (simp add: initialize_db_def seed_table_def)
qed


lemma filter_key_at_most_one: "distinct (map k xs) \<Longrightarrow> length (filter (\<lambda>x. k x = c) xs) \<le> 1"
  by (induction xs) (auto simp: filter_empty_conv image_iff)

text \<open>C16: searching secrets by one name is the lookup by that name: when an
  owner's secret names are unique, \<open>POST /secrets/search\<close> with one name answers
  the one secret \<open>GET /secrets/{name}\<close> finds, or nothing where it answers 404.\<close>

theorem search_secrets_one_name:
  assumes "secret_names_unique (sys_db s)"
  shows "fst (search_secrets r [name] s)
         = (case fst (get_secret r name s) of Inr x \<Rightarrow> Inr [x] | Inl _ \<Rightarrow> Inr [])"
proof -
  let ?xs = "filter (\<lambda>x. sec_owner_id x = role_user_id r \<and> sec_name x = Some name) (secrets (sys_db s))"
  have "distinct (map (\<lambda>x. (sec_owner_id x, sec_name x)) (secrets (sys_db s)))"
    using assms by (simp add: secret_names_unique_def)
  then have "length ?xs \<le> 1"
    using filter_key_at_most_one [of "\<lambda>x. (sec_owner_id x, sec_name x)" _ "(role_user_id r, Some name)"]
    by simp
  then have "?xs = [] \<or> (\<exists>x. ?xs = [x])"
    by (cases ?xs) auto
  then show ?thesis
    by (auto simp: search_secrets_def get_secret_def first_or_none_def)
qed
subsection \<open>The secrets as a key-value store\<close>

lemma find_map_keep:
  "(\<And>x. P (f x) = P x) \<Longrightarrow> find P (map f xs) = map_option f (find P xs)"
  by (induction xs) auto

lemma find_unique_key:
  assumes "distinct (map k xs)" and "x \<in> set xs" and "k x = c"
  shows "find (\<lambda>y. k y = c) xs = Some x"
  using assms by (induction xs) (auto simp: image_iff)

lemma find_append_split:
  "find P (xs @ ys) = (case find P xs of None \<Rightarrow> find P ys | Some x \<Rightarrow> Some x)"
  by (induction xs) auto

lemma first_or_none_filter: "first_or_none (filter P xs) = find P xs"
  by (induction xs) (auto simp: first_or_none_def)

text \<open>Setting the key of the secret \<open>x\<close>, found under the owner \<open>u\<close> and the
  name \<open>n\<close>, is the store's update at \<open>(u, n)\<close>.\<close>

lemma set_secret_key_store:
  assumes ids: "distinct (map sec_id (secrets d))"
    and keys: "distinct (map (\<lambda>y. (sec_owner_id y, sec_name y)) (secrets d))"
    and x: "x \<in> set (secrets d)" "sec_owner_id x = u" "sec_name x = Some n"
  shows "secret_store (d\<lparr>secrets := update_where (\<lambda>y. sec_id y = sec_id x)
            (\<lambda>y. y\<lparr>sec_encrypted_api_key := Some k\<rparr>) (secrets d)\<rparr>)
         = (secret_store d)((u, n) \<mapsto> Some k)"
proof (rule ext, clarify)
  fix o' n'
  let ?xs = "secrets d"
  let ?f = "\<lambda>y. if sec_id y = sec_id x then y\<lparr>sec_encrypted_api_key := Some k\<rparr> else y"
  let ?Q = "\<lambda>y. sec_owner_id y = o' \<and> sec_name y = Some n'"
  have sec: "update_where (\<lambda>y. sec_id y = sec_id x) (\<lambda>y. y\<lparr>sec_encrypted_api_key := Some k\<rparr>) ?xs
             = map ?f ?xs" by (simp add: update_where_def)
  have fm: "find ?Q (map ?f ?xs) = map_option ?f (find ?Q ?xs)"
    by (rule find_map_keep) simp
  show "secret_store (d\<lparr>secrets := update_where (\<lambda>y. sec_id y = sec_id x)
            (\<lambda>y. y\<lparr>sec_encrypted_api_key := Some k\<rparr>) ?xs\<rparr>) (o', n')
        = ((secret_store d)((u, n) \<mapsto> Some k)) (o', n')"
  proof (cases "(o', n') = (u, n)")
    case True
    have "find ?Q ?xs = Some x"
      using find_unique_key [OF keys x(1), of "(o', Some n')"] x(2,3) True by simp
    with fm have "find ?Q (map ?f ?xs) = Some (?f x)" by simp
    then show ?thesis using True by (simp add: secret_store_def sec)
  next
    case False
    have "map_option sec_encrypted_api_key (map_option ?f (find ?Q ?xs))
          = map_option sec_encrypted_api_key (find ?Q ?xs)"
    proof (cases "find ?Q ?xs")
      case (Some y)
      then have "y \<in> set ?xs" "?Q y" by (auto simp: find_Some_iff nth_mem)
      with False x have "y \<noteq> x" by auto
      with ids \<open>y \<in> set ?xs\<close> x(1) have "sec_id y \<noteq> sec_id x"
        by (metis distinct_map inj_on_eq_iff)
      with Some show ?thesis by simp
    qed simp
    moreover have "((secret_store d)((u, n) \<mapsto> Some k)) (o', n') = secret_store d (o', n')"
      using False by (rule fun_upd_other)
    ultimately show ?thesis by (simp only:) (simp add: secret_store_def sec fm)
  qed
qed

text \<open>Setting a key keeps the ids, owners and names of the secrets, hence the
  database's constraints and the uniqueness of names.\<close>

lemma set_secret_key_inv:
  assumes "db_integrity d" and "secret_names_unique d"
  shows "db_integrity (d\<lparr>secrets := update_where P (\<lambda>y. y\<lparr>sec_encrypted_api_key := k\<rparr>) (secrets d)\<rparr>)
       \<and> secret_names_unique (d\<lparr>secrets := update_where P (\<lambda>y. y\<lparr>sec_encrypted_api_key := k\<rparr>) (secrets d)\<rparr>)"
proof -
  let ?ys = "update_where P (\<lambda>y. y\<lparr>sec_encrypted_api_key := k\<rparr>) (secrets d)"
  have "map sec_id ?ys = map sec_id (secrets d)" "map sec_owner_id ?ys = map sec_owner_id (secrets d)"
    "map (\<lambda>y. (sec_owner_id y, sec_name y)) ?ys = map (\<lambda>y. (sec_owner_id y, sec_name y)) (secrets d)"
    by (simp_all add: update_where_def)
  moreover have "\<forall>x\<in>set ?ys. \<exists>y\<in>set (secrets d). sec_owner_id x = sec_owner_id y"
    by (auto simp: update_where_def)
  ultimately show ?thesis using assms
    by (fastforce simp: db_integrity_def secret_names_unique_def)
qed

text \<open>\<open>POST /secrets\<close> on a consistent database: 404 where the store has no entry
  at the caller's key; otherwise the new key is committed (the store updated at
  that key, the constraints kept) and the answer is the response-validation
  error of a function that returns \<open>None\<close>.\<close>

lemma update_secret_outcome:
  assumes "db_integrity (sys_db s)" and "secret_names_unique (sys_db s)"
  shows "(secret_store (sys_db s) (role_user_id r, n) = None
            \<longrightarrow> update_secret E r n v s = (Inl (HTTPException 404), s))
       \<and> (secret_store (sys_db s) (role_user_id r, n) \<noteq> None
            \<longrightarrow> (\<exists>s'. update_secret E r n v s = (Inl ResponseValidationError, s')
                  \<and> db_integrity (sys_db s') \<and> secret_names_unique (sys_db s')
                  \<and> secret_store (sys_db s')
                      = (secret_store (sys_db s))((role_user_id r, n) \<mapsto> Some (encrypt_key E v))))"
proof -
  let ?P = "\<lambda>x. sec_owner_id x = role_user_id r \<and> sec_name x = Some n"
  let ?xs = "secrets (sys_db s)"
  have look: "secret_store (sys_db s) (role_user_id r, n) = map_option sec_encrypted_api_key (find ?P ?xs)"
    by (simp add: secret_store_def)
  have "\<exists>s'. update_secret E r n v s = (Inl ResponseValidationError, s')
          \<and> db_integrity (sys_db s') \<and> secret_names_unique (sys_db s')
          \<and> secret_store (sys_db s') = (secret_store (sys_db s))((role_user_id r, n) \<mapsto> Some (encrypt_key E v))"
    if "find ?P ?xs = Some x" for x
  proof -
    from that have x: "x \<in> set ?xs" "?P x"
      using first_or_none_Some [of "filter ?P ?xs" x] by (simp_all add: first_or_none_filter)
    let ?d = "(sys_db s)\<lparr>secrets := update_where (\<lambda>y. sec_id y = sec_id x)
                (\<lambda>y. y\<lparr>sec_encrypted_api_key := Some (encrypt_key E v)\<rparr>) ?xs\<rparr>"
    have inv: "db_integrity ?d \<and> secret_names_unique ?d"
      using set_secret_key_inv [OF assms] .
    have "update_secret E r n v s = (Inl ResponseValidationError, \<lparr>sys_db = ?d, sys_uuid = sys_uuid s\<rparr>)"
      using that inv by (simp add: update_secret_def first_or_none_filter session_commit_ok)
    moreover have "secret_store ?d = (secret_store (sys_db s))((role_user_id r, n) \<mapsto> Some (encrypt_key E v))"
      using assms x by (intro set_secret_key_store) (simp_all add: db_integrity_def secret_names_unique_def)
    ultimately show ?thesis using inv by auto
  qed
  then show ?thesis
    using look by (auto simp: update_secret_def first_or_none_filter split: option.splits)
qed

lemma create_secret_store:
  assumes "create_secret E r n v s = (Inr (), s')"
  shows "secret_store (sys_db s') = (secret_store (sys_db s))((role_user_id r, n) \<mapsto> Some (encrypt_key E v))"
proof -
  let ?P = "\<lambda>x. sec_owner_id x = role_user_id r \<and> sec_name x = Some n"
  let ?xs = "secrets (sys_db s)"
  let ?x = "\<lparr>sec_id = fresh_id E s, sec_name = Some n,
             sec_encrypted_api_key = Some (encrypt_key E v), sec_owner_id = role_user_id r\<rparr>"
  have none: "find ?P ?xs = None"
    using assms by (auto simp: create_secret_def first_or_none_filter split: option.splits)
  then have "secrets (sys_db s') = ?xs @ [?x]"
    using assms by (auto simp: create_secret_def first_or_none_filter Let_def session_commit_def
        commit_db_def split: if_splits)
  then show ?thesis
    using none by (auto simp: secret_store_def find_append_split fun_eq_iff split: option.splits)
qed

text \<open>C23: creating a case context commits the row and still fails: on a
  consistent database with a fresh id, the new context is committed (with the
  caller as owner) when its \<open>user_id\<close> is NULL or a registered user, and the
  answer is a response-validation error (500), because the function returns
  the request body, which lacks the owner and timestamps \<open>CaseContext\<close>
  requires; a \<open>user_id\<close> naming no user makes the commit fail and changes
  nothing.\<close>

theorem create_case_context_commits_then_fails:
  assumes "db_integrity (sys_db s)" and "fresh_id E s \<notin> set (map cc_id (case_contexts (sys_db s)))"
  shows "(fk_opt u (map u_id (users (sys_db s))) \<longrightarrow>
            (\<exists>s'. create_case_context E r t v u s = (Inl ResponseValidationError, s')
                 \<and> db_integrity (sys_db s')
                 \<and> case_contexts (sys_db s') = case_contexts (sys_db s)
                     @ [\<lparr>cc_id = fresh_id E s, cc_tag = t, cc_value = v, cc_user_id = u,
                         cc_owner_id = role_user_id r\<rparr>]))
       \<and> (\<not> fk_opt u (map u_id (users (sys_db s))) \<longrightarrow>
            create_case_context E r t v u s = (Inl IntegrityError, s))"
proof -
  let ?c = "\<lparr>cc_id = fresh_id E s, cc_tag = t, cc_value = v, cc_user_id = u, cc_owner_id = role_user_id r\<rparr>"
  have i: "db_integrity (insert_row (RCaseContext ?c) (sys_db s)) \<longleftrightarrow> fk_opt u (map u_id (users (sys_db s)))"
    using assms by (auto simp: db_integrity_def)
  then show ?thesis
    by (auto simp: create_case_context_def Let_def session_commit_def commit_db_def)
qed

text \<open>C15: the secret endpoints implement a key-value store: abstractly the
  secrets are a map from an owner and a name to the stored (encrypted) key.
  Creating a secret is the map's update at the caller's key; updating one is
  404 where the map has no entry, and otherwise commits the map's update at
  that key but answers with a response-validation error (status 500);
  reading one is the map's lookup, 404 where it has no entry.\<close>

theorem secret_store_refinement:
  assumes "db_integrity (sys_db s)" and "secret_names_unique (sys_db s)"
  shows "(create_secret E r n v s = (Inr (), s') \<longrightarrow>
            secret_store (sys_db s') = (secret_store (sys_db s))((role_user_id r, n) \<mapsto> Some (encrypt_key E v)))
       \<and> (secret_store (sys_db s) (role_user_id r, n) = None
            \<longrightarrow> update_secret E r n v s = (Inl (HTTPException 404), s))
       \<and> (secret_store (sys_db s) (role_user_id r, n) \<noteq> None
            \<longrightarrow> (\<exists>s'. update_secret E r n v s = (Inl ResponseValidationError, s')
                  \<and> secret_store (sys_db s')
                      = (secret_store (sys_db s))((role_user_id r, n) \<mapsto> Some (encrypt_key E v))))
       \<and> map_sum id sec_encrypted_api_key (fst (get_secret r n s))
           = (case secret_store (sys_db s) (role_user_id r, n) of
                None \<Rightarrow> Inl (HTTPException 404) | Some k \<Rightarrow> Inr k)"
  using create_secret_store [of E r n v s s'] update_secret_outcome [OF assms, of r n E v]
  by (auto simp: get_secret_def first_or_none_filter secret_store_def split: option.splits)

end
