(* ===== verification/Service.thy ===== *)
theory Service
  imports Actions Accounts
begin

text \<open>
  The API as one state machine.  A request names an endpoint of
  \<^verbatim>\<open>src/tracecat/api/app.py\<close> with its parameters; \<open>endpoint_auth\<close> is the
  dependency the endpoint declares for its \<open>role\<close> parameter, and \<open>resolve\<close>
  the contract of those dependencies (\<open>tracecat.auth\<close>, not under
  \<^verbatim>\<open>src/\<close>; spec section 6): \<open>authenticate_user\<close> accepts a user credential,
  \<open>authenticate_service\<close> a service credential, \<open>authenticate_user_or_service\<close>
  either, anything else is 401.  A bare \<open>Depends()\<close> makes FastAPI build the
  \<open>Role\<close> from the request's own parameters, so the role is whatever the
  caller claims.  \<open>handle\<close> dispatches a request and keeps the state the
  handler leaves; \<open>reachable\<close> is every state the server can be in after
  \<open>initialize_db\<close> and any sequence of requests.  \<open>service_inv\<close> is the
  invariant of those states, proved by one preservation lemma per handler
  and rule induction; the last theorems use it across components.
\<close>

datatype caller = Anonymous | UserCredential string | ServiceCredential string string

datatype auth_dep = AuthUser | AuthService | AuthUserOrService | AuthNone

fun resolve :: "auth_dep \<Rightarrow> caller \<Rightarrow> role \<Rightarrow> role res" where
  "resolve AuthUser (UserCredential u) _ = Inr (UserRole u)"
| "resolve AuthService (ServiceCredential u sid) _ = Inr (ServiceRole u sid)"
| "resolve AuthUserOrService (UserCredential u) _ = Inr (UserRole u)"
| "resolve AuthUserOrService (ServiceCredential u sid) _ = Inr (ServiceRole u sid)"
| "resolve AuthNone _ claimed = Inr claimed"
| "resolve _ _ _ = Inl (HTTPException 401)"

text \<open>The requests the router can deliver.  FastAPI tries the routes in the
  order they are registered, and \<open>GET /webhooks/{webhook_id}\<close> (line 796) comes
  before \<open>GET /webhooks/search\<close> (line 840): a request to \<open>/webhooks/search\<close>
  is \<open>GetWebhook ''search''\<close>, and \<open>search_webhooks\<close> is reached only through
  \<open>get_action\<close>, which calls it directly.  The case-table endpoints and the
  completion stream, whose stores are outside the database, are not requests
  of this machine.\<close>

datatype request =
    ListWorkflows bool
  | CreateWorkflow string string
  | GetWorkflow string
  | UpdateWorkflow string update_workflow_params
  | DeleteWorkflow string
  | CopyWorkflow string "string option"
  | ListWorkflowRuns string int
  | CreateWorkflowRun string
  | GetWorkflowRun string string
  | UpdateWorkflowRun string string string
  | ListActions string
  | CreateAction string string string
  | GetAction string string
  | UpdateAction string update_action_params
  | DeleteAction string
  | ListActionRuns string int
  | CreateActionRun string string string
  | GetActionRun string string
  | UpdateActionRun string string string
  | ListWebhooks string
  | CreateWebhook string string
  | GetWebhook string
  | DeleteWebhook string
  | AuthenticateWebhook string string
  | ListCaseActions
  | CreateCaseAction string string "string option"
  | DeleteCaseAction string
  | ListCaseContexts
  | CreateCaseContext string string "string option"
  | DeleteCaseContext string
  | CreateUser
  | GetUser
  | UpdateUser user_params
  | DeleteUser
  | ListSecrets
  | GetSecret string
  | CreateSecret string string
  | UpdateSecret string string
  | SearchSecrets "string list"

fun endpoint_auth :: "request \<Rightarrow> auth_dep" where
  "endpoint_auth (GetWorkflow _) = AuthUserOrService"
| "endpoint_auth (CopyWorkflow _ _) = AuthUserOrService"
| "endpoint_auth (GetWebhook _) = AuthUserOrService"
| "endpoint_auth (GetSecret _) = AuthUserOrService"
| "endpoint_auth (CreateWorkflowRun _) = AuthService"
| "endpoint_auth (UpdateWorkflowRun _ _ _) = AuthService"
| "endpoint_auth (CreateActionRun _ _ _) = AuthService"
| "endpoint_auth (UpdateActionRun _ _ _) = AuthService"
| "endpoint_auth (AuthenticateWebhook _ _) = AuthService"
| "endpoint_auth ListSecrets = AuthNone"
| "endpoint_auth _ = AuthUser"

text \<open>A handler's outcome without its response body.\<close>

definition outcome :: "'a res \<times> sys \<Rightarrow> unit res \<times> sys" where
  "outcome rs = (case fst rs of Inl e \<Rightarrow> Inl e | Inr _ \<Rightarrow> Inr (), snd rs)"

primrec dispatch :: "env \<Rightarrow> role \<Rightarrow> request \<Rightarrow> sys \<Rightarrow> unit res \<times> sys" where
  "dispatch E r (ListWorkflows lib) s = outcome (list_workflows r lib s)"
| "dispatch E r (CreateWorkflow t d) s = outcome (create_workflow E r t d s)"
| "dispatch E r (GetWorkflow wid) s = outcome (get_workflow r wid s)"
| "dispatch E r (UpdateWorkflow wid p) s = update_workflow r wid p s"
| "dispatch E r (DeleteWorkflow wid) s = delete_workflow r wid s"
| "dispatch E r (CopyWorkflow wid p) s = copy_workflow E r wid p s"
| "dispatch E r (ListWorkflowRuns wid l) s = outcome (list_workflow_runs r wid l s)"
| "dispatch E r (CreateWorkflowRun wid) s = outcome (create_workflow_run E r wid s)"
| "dispatch E r (GetWorkflowRun wid rid) s = outcome (get_workflow_run r wid rid s)"
| "dispatch E r (UpdateWorkflowRun wid rid st) s = update_workflow_run r wid rid st s"
| "dispatch E r (ListActions wid) s = outcome (list_actions r wid s)"
| "dispatch E r (CreateAction wid ty t) s = outcome (create_action E r wid ty t s)"
| "dispatch E r (GetAction aid wid) s = outcome (get_action E r aid wid s)"
| "dispatch E r (UpdateAction aid p) s = outcome (update_action r aid p s)"
| "dispatch E r (DeleteAction aid) s = delete_action r aid s"
| "dispatch E r (ListActionRuns aid l) s = outcome (list_action_runs r aid l s)"
| "dispatch E r (CreateActionRun aid rid wrid) s = outcome (create_action_run r aid rid wrid s)"
| "dispatch E r (GetActionRun aid rid) s = outcome (get_action_run r aid rid s)"
| "dispatch E r (UpdateActionRun aid rid st) s = update_action_run r aid rid st s"
| "dispatch E r (ListWebhooks wid) s = outcome (list_webhooks r wid s)"
| "dispatch E r (CreateWebhook aid wid) s = outcome (create_webhook E r aid wid s)"
| "dispatch E r (GetWebhook hid) s = outcome (get_webhook E r hid s)"
| "dispatch E r (DeleteWebhook hid) s = delete_webhook r hid s"
| "dispatch E r (AuthenticateWebhook hid sec) s = outcome (authenticate_webhook E hid sec s)"
| "dispatch E r ListCaseActions s = outcome (list_case_actions r s)"
| "dispatch E r (CreateCaseAction t v u) s = outcome (create_case_action E r t v u s)"
| "dispatch E r (DeleteCaseAction cid) s = delete_case_action r cid s"
| "dispatch E r ListCaseContexts s = outcome (list_case_contexts r s)"
| "dispatch E r (CreateCaseContext t v u) s = outcome (create_case_context E r t v u s)"
| "dispatch E r (DeleteCaseContext cid) s = delete_case_context r cid s"
| "dispatch E r CreateUser s = outcome (create_user r s)"
| "dispatch E r GetUser s = outcome (get_user r s)"
| "dispatch E r (UpdateUser p) s = update_user r p s"
| "dispatch E r DeleteUser s = delete_user r s"
| "dispatch E r ListSecrets s = outcome (list_secrets r s)"
| "dispatch E r (GetSecret n) s = outcome (get_secret r n s)"
| "dispatch E r (CreateSecret n v) s = create_secret E r n v s"
| "dispatch E r (UpdateSecret n v) s = outcome (update_secret E r n v s)"
| "dispatch E r (SearchSecrets ns) s = outcome (search_secrets r ns s)"

text \<open>One request: resolve the role the endpoint's dependency yields, then run
  the handler.\<close>

definition handle :: "env \<Rightarrow> caller \<Rightarrow> role \<Rightarrow> request \<Rightarrow> sys \<Rightarrow> unit res \<times> sys" where
  "handle E c claimed req s =
     (case resolve (endpoint_auth req) c claimed of
        Inl e \<Rightarrow> (Inl e, s)
      | Inr r \<Rightarrow> dispatch E r req s)"

definition empty_db :: db where
  "empty_db = \<lparr>users = [], secrets = [], case_actions = [], case_contexts = [], workflows = [],
               workflow_runs = [], actions = [], action_runs = [], webhooks = []\<rparr>"

inductive reachable :: "env \<Rightarrow> string list \<Rightarrow> string list \<Rightarrow> sys \<Rightarrow> bool" for E L D where
  start: "reachable E L D \<lparr>sys_db = empty_db, sys_uuid = 0\<rparr>"
| init: "reachable E L D s \<Longrightarrow> reachable E L D (snd (initialize_db E L D s))"
| step: "reachable E L D s \<Longrightarrow> reachable E L D (snd (handle E c claimed req s))"


text \<open>The invariant of the service's state: the schema's constraints, the
  uniqueness of a secret's name per owner that \<open>create_secret\<close> maintains and
  the schema does not enforce, and that every webhook names an action (the
  column is nullable, but every webhook is created for an action and goes with
  it).\<close>

definition webhooks_bound :: "db \<Rightarrow> bool" where
  "webhooks_bound d \<longleftrightarrow> (\<forall>h\<in>set (webhooks d). wh_action_id h \<noteq> None)"

definition service_inv :: "db \<Rightarrow> bool" where
  "service_inv d \<longleftrightarrow> db_integrity d \<and> secret_names_unique d \<and> webhooks_bound d"

subsection \<open>Every handler keeps the invariant\<close>

text \<open>A session that commits leaves the database it wrote, which passed the
  constraints, or the old one; a lookup with 404 continues with the row it
  found.\<close>

lemma snd_outcome [simp]: "snd (outcome rs) = snd rs"
  by (simp add: outcome_def)

lemma session_commit_inv:
  assumes "service_inv (sys_db s)"
    and "db_integrity d \<Longrightarrow> (secrets d = secrets (sys_db s) \<or> secret_names_unique d)
           \<and> (\<forall>h\<in>set (webhooks d). h \<in> set (webhooks (sys_db s)) \<or> wh_action_id h \<noteq> None)"
  shows "service_inv (sys_db (snd (session_commit r d n s)))"
  using assms by (auto simp: session_commit_def commit_db_def service_inv_def secret_names_unique_def
      webhooks_bound_def)

lemma with_one_inv:
  assumes "service_inv (sys_db s)" and "\<And>x. xs = [x] \<Longrightarrow> service_inv (sys_db (snd (f x)))"
  shows "service_inv (sys_db (snd (with_one xs f s)))"
  using assms by (auto simp: with_one_def one_or_404_Inr split: sum.splits)

lemmas inv_intros = with_one_inv session_commit_inv

text \<open>Deletes only remove webhooks.\<close>

lemma webhooks_delete_workflow_rows: "set (webhooks (delete_workflow_rows w d)) \<subseteq> set (webhooks d)"
  by (auto simp: delete_workflow_rows_def delete_actions_rows_def Let_def)

lemma webhooks_fold_delete: "set (webhooks (fold delete_workflow_rows ws d)) \<subseteq> set (webhooks d)"
proof (induction ws arbitrary: d)
  case Nil
  then show ?case by simp
next
  case (Cons w ws)
  have "set (webhooks (fold delete_workflow_rows ws (delete_workflow_rows w d)))
        \<subseteq> set (webhooks (delete_workflow_rows w d))" by (rule Cons.IH)
  then show ?case using webhooks_delete_workflow_rows [of w d] by simp
qed

lemma create_workflow_inv: "service_inv (sys_db s) \<Longrightarrow> service_inv (sys_db (snd (create_workflow E r t d s)))"
  unfolding create_workflow_def Let_def by (rule session_commit_inv) simp_all

lemma update_workflow_inv: "service_inv (sys_db s) \<Longrightarrow> service_inv (sys_db (snd (update_workflow r w p s)))"
  unfolding update_workflow_def Let_def by (intro inv_intros) simp_all

lemma delete_workflow_inv: "service_inv (sys_db s) \<Longrightarrow> service_inv (sys_db (snd (delete_workflow r w s)))"
  unfolding delete_workflow_def
  by (intro inv_intros) (auto simp: delete_workflow_rows_tables dest: subsetD [OF webhooks_delete_workflow_rows])

lemma create_workflow_run_inv: "service_inv (sys_db s) \<Longrightarrow> service_inv (sys_db (snd (create_workflow_run E r w s)))"
  unfolding create_workflow_run_def Let_def by (rule session_commit_inv) simp_all

lemma update_workflow_run_inv: "service_inv (sys_db s) \<Longrightarrow> service_inv (sys_db (snd (update_workflow_run r w i st s)))"
  unfolding update_workflow_run_def by (intro inv_intros) simp_all

lemma create_webhook_inv: "service_inv (sys_db s) \<Longrightarrow> service_inv (sys_db (snd (create_webhook E r a w s)))"
  unfolding create_webhook_def Let_def by (rule session_commit_inv) simp_all

lemma delete_webhook_inv: "service_inv (sys_db s) \<Longrightarrow> service_inv (sys_db (snd (delete_webhook r h s)))"
  unfolding delete_webhook_def by (auto intro!: inv_intros split: sum.splits)

lemma update_action_inv: "service_inv (sys_db s) \<Longrightarrow> service_inv (sys_db (snd (update_action r a p s)))"
  unfolding update_action_def Let_def by (intro inv_intros) simp_all

lemma delete_action_inv: "service_inv (sys_db s) \<Longrightarrow> service_inv (sys_db (snd (delete_action r a s)))"
  unfolding delete_action_def by (intro inv_intros) (simp_all add: delete_actions_rows_def)

lemma create_action_run_inv: "service_inv (sys_db s) \<Longrightarrow> service_inv (sys_db (snd (create_action_run r a i w s)))"
  unfolding create_action_run_def Let_def by (rule session_commit_inv) simp_all

lemma update_action_run_inv: "service_inv (sys_db s) \<Longrightarrow> service_inv (sys_db (snd (update_action_run r a i st s)))"
  unfolding update_action_run_def by (intro inv_intros) simp_all

lemma create_action_inv: "service_inv (sys_db s) \<Longrightarrow> service_inv (sys_db (snd (create_action E r w ty t s)))"
proof -
  assume i: "service_inv (sys_db s)"
  let ?a = "\<lparr>act_id = fresh_id E s, act_type = ty, act_title = t, act_description = '''',
             act_status = ''offline'', act_inputs = None, act_workflow_id = Some w,
             act_owner_id = role_user_id r\<rparr>"
  obtain r1 s1 where c1: "session_commit () (insert_row (RAction ?a) (sys_db s)) (Suc (sys_uuid s)) s = (r1, s1)"
    by fastforce
  have i1: "service_inv (sys_db s1)"
    using session_commit_inv [OF i, of "insert_row (RAction ?a) (sys_db s)" "()" "Suc (sys_uuid s)"] c1
    by simp
  obtain r2 s2 where c2: "create_webhook E r (fresh_id E s) w s1 = (r2, s2)" by fastforce
  have i2: "service_inv (sys_db s2)" using create_webhook_inv [OF i1, of E r "fresh_id E s" w] c2 by simp
  show ?thesis
    using i1 i2 c1 c2 by (simp add: create_action_def Let_def split: sum.splits)
qed

lemma create_case_action_inv: "service_inv (sys_db s) \<Longrightarrow> service_inv (sys_db (snd (create_case_action E r t v u s)))"
  unfolding create_case_action_def Let_def by (rule session_commit_inv) simp_all

lemma delete_case_action_inv: "service_inv (sys_db s) \<Longrightarrow> service_inv (sys_db (snd (delete_case_action r c s)))"
  unfolding delete_case_action_def Let_def by (auto intro!: inv_intros split: sum.splits option.splits)

lemma create_case_context_inv: "service_inv (sys_db s) \<Longrightarrow> service_inv (sys_db (snd (create_case_context E r t v u s)))"
  unfolding create_case_context_def Let_def respond_snd by (rule session_commit_inv) simp_all

lemma delete_case_context_inv: "service_inv (sys_db s) \<Longrightarrow> service_inv (sys_db (snd (delete_case_context r c s)))"
  unfolding delete_case_context_def Let_def by (auto intro!: inv_intros split: sum.splits option.splits)

lemma create_user_inv: "service_inv (sys_db s) \<Longrightarrow> service_inv (sys_db (snd (create_user r s)))"
  unfolding create_user_def Let_def by (auto intro!: inv_intros split: option.splits)

lemma update_user_inv: "service_inv (sys_db s) \<Longrightarrow> service_inv (sys_db (snd (update_user r p s)))"
  unfolding update_user_def Let_def by (intro inv_intros) simp_all

lemma delete_user_inv: "service_inv (sys_db s) \<Longrightarrow> service_inv (sys_db (snd (delete_user r s)))"
  unfolding delete_user_def Let_def
  by (intro inv_intros) (auto simp: delete_user_rows_def Let_def secret_names_unique_def
      service_inv_def fold_delete_workflow_rows distinct_map_filter dest: subsetD [OF webhooks_fold_delete])

lemma create_secret_inv: "service_inv (sys_db s) \<Longrightarrow> service_inv (sys_db (snd (create_secret E r n v s)))"
proof -
  assume i: "service_inv (sys_db s)"
  obtain res s' where run: "create_secret E r n v s = (res, s')" by fastforce
  have "secret_names_unique (sys_db s')"
    using i run by (auto simp: service_inv_def intro: create_secret_unique)
  moreover have "db_integrity (sys_db s')"
    using i run by (auto simp: create_secret_def Let_def service_inv_def session_commit_def commit_db_def
        split: option.splits sum.splits if_splits)
  moreover have "webhooks (sys_db s') = webhooks (sys_db s)"
    using run by (auto simp: create_secret_def Let_def session_commit_def commit_db_def
        split: option.splits sum.splits if_splits)
  ultimately show ?thesis using i run by (simp add: service_inv_def webhooks_bound_def)
qed

lemma update_secret_inv: "service_inv (sys_db s) \<Longrightarrow> service_inv (sys_db (snd (update_secret E r n v s)))"
  unfolding update_secret_def Let_def
  by (auto intro!: session_commit_inv split: option.splits) (simp_all add: secret_names_unique_def service_inv_def)

lemma copy_workflow_inv: "service_inv (sys_db s) \<Longrightarrow> service_inv (sys_db (snd (copy_workflow E r w p s)))"
proof -
  assume i: "service_inv (sys_db s)"
  obtain res s' where run: "copy_workflow E r w p s = (res, s')" by fastforce
  have "db_integrity (sys_db s')"
    using i run copy_workflow_integrity by (auto simp: service_inv_def)
  moreover have "secrets (sys_db s') = secrets (sys_db s) \<and> webhooks_bound (sys_db s')"
  proof (cases res)
    case (Inl e)
    with run i show ?thesis
      by (auto simp: copy_workflow_def Let_def service_inv_def split: if_splits sum.splits prod.splits)
  next
    case (Inr u)
    with run obtain w0 cw n' rows d' where cl: "clone_workflow E (sys_db s) w0 (role_user_id r) (sys_uuid s) = Inr (cw, n', rows)"
      and "commit_inserts rows (sys_db s) = Inr d'" and st: "s' = \<lparr>sys_db = d', sys_uuid = n'\<rparr>"
      using copy_workflow_Inr [of E r w p s s'] by auto
    then have d': "d' = fold insert_row rows (sys_db s)" by (simp add: commit_inserts_Inr)
    obtain st0 :: clone_st and g where rows: "rows = cs_pending st0 @ [RWorkflow cw]"
      and hooks: "list_all (hook_of E (role_user_id r) (uuid4_hex E (sys_uuid s)) (pending_actions (cs_pending st0)))
                    (pending_webhooks (cs_pending st0))"
      using clone_workflow_loop [OF cl] by metis
    have "\<forall>h\<in>set (pending_webhooks rows). wh_action_id h \<noteq> None"
      using hooks by (auto simp: rows list_all_iff hook_of_def)
    then show ?thesis
      using commit_clone_tables [OF cl] i by (auto simp: st d' service_inv_def webhooks_bound_def)
  qed
  ultimately show ?thesis using i run by (simp add: service_inv_def secret_names_unique_def)
qed

text \<open>The handlers that only read.\<close>

lemmas read_only_handlers = list_workflows_def get_workflow_def list_workflow_runs_def
  get_workflow_run_def list_actions_def get_action_def list_action_runs_def get_action_run_def
  list_webhooks_def get_webhook_def search_webhooks_def authenticate_webhook_def
  list_case_actions_def list_case_contexts_def get_user_def list_secrets_def get_secret_def
  search_secrets_def

lemma read_only_state:
  "snd (list_workflows r lib s) = s" "snd (get_workflow r wid s) = s"
  "snd (list_workflow_runs r wid l s) = s" "snd (get_workflow_run r wid rid s) = s"
  "snd (list_actions r wid s) = s" "snd (get_action E r aid wid s) = s"
  "snd (list_action_runs r aid l s) = s" "snd (get_action_run r aid rid s) = s"
  "snd (list_webhooks r wid s) = s" "snd (get_webhook E r hid s) = s"
  "snd (search_webhooks E r ao s) = s" "snd (authenticate_webhook E hid sec s) = s"
  "snd (list_case_actions r s) = s" "snd (list_case_contexts r s) = s"
  "snd (get_user r s) = s" "snd (list_secrets r s) = s" "snd (get_secret r n s) = s"
  "snd (search_secrets r ns s) = s"
  by (simp_all add: read_only_handlers Let_def split: sum.splits)

lemmas handler_inv = create_workflow_inv update_workflow_inv delete_workflow_inv copy_workflow_inv
  create_workflow_run_inv update_workflow_run_inv create_action_inv update_action_inv
  delete_action_inv create_action_run_inv update_action_run_inv create_webhook_inv
  delete_webhook_inv create_case_action_inv delete_case_action_inv create_case_context_inv
  delete_case_context_inv create_user_inv update_user_inv delete_user_inv create_secret_inv
  update_secret_inv

text \<open>Every request, whatever its role and outcome, and the seeding at start-up.\<close>

lemma dispatch_inv: "service_inv (sys_db s) \<Longrightarrow> service_inv (sys_db (snd (dispatch E r req s)))"
  by (cases req) (simp_all add: read_only_state handler_inv)

lemma handle_inv: "service_inv (sys_db s) \<Longrightarrow> service_inv (sys_db (snd (handle E c claimed req s)))"
  by (simp add: handle_def dispatch_inv split: sum.splits)

text \<open>Seeding inserts case rows only.\<close>

lemma insert_row_case_row:
  "\<forall>x. row \<noteq> RSecret x \<Longrightarrow> \<forall>x. row \<noteq> RWebhook x
   \<Longrightarrow> secrets (insert_row row d) = secrets d \<and> webhooks (insert_row row d) = webhooks d"
  by (cases row) simp_all

lemma seed_table_inv:
  assumes "service_inv (sys_db s)" and "\<And>n v. \<forall>x. mk n v \<noteq> RSecret x"
    and "\<And>n v. \<forall>x. mk n v \<noteq> RWebhook x"
  shows "service_inv (sys_db (snd (seed_table e mk vs s)))"
proof -
  have "secrets (fold insert_row (seed_rows n mk vs) d) = secrets d
        \<and> webhooks (fold insert_row (seed_rows n mk vs) d) = webhooks d" for n d
    using assms(2,3) by (induction vs arbitrary: n d) (simp_all add: insert_row_case_row)
  then show ?thesis
    unfolding seed_table_def using assms(1) by (auto intro!: session_commit_inv)
qed

lemma initialize_db_inv:
  assumes i: "service_inv (sys_db s)"
  shows "service_inv (sys_db (snd (initialize_db E L D s)))"
proof -
  obtain r1 s1 where c1: "seed_table (case_contexts (sys_db s) = []) (mitre_context E) L s = (r1, s1)"
    by fastforce
  have i1: "service_inv (sys_db s1)"
    using seed_table_inv [OF i, of "mitre_context E" "case_contexts (sys_db s) = []" L] c1
    by (simp add: mitre_context_def)
  have i2: "service_inv (sys_db (snd (seed_table (case_actions (sys_db s1) = []) (default_case_action E) D s1)))"
    using seed_table_inv [OF i1, of "default_case_action E"] by (simp add: default_case_action_def)
  show ?thesis
    using c1 i1 i2 by (cases r1) (simp_all add: initialize_db_def)
qed

lemma service_inv_empty: "service_inv empty_db"
  by (simp add: service_inv_def empty_db_def db_integrity_def secret_names_unique_def webhooks_bound_def)

lemma reachable_inv: "reachable E L D s \<Longrightarrow> service_inv (sys_db s)"
  by (induction rule: reachable.induct) (simp_all add: service_inv_empty initialize_db_inv handle_inv)

text \<open>C5: every state the server can reach from an empty database, through the
  start-up seeding and any sequence of requests by any callers, satisfies the
  schema's constraints, has at most one secret of a name per owner, and has
  no webhook without an action.\<close>

theorem reachable_invariant: "reachable E L D s \<Longrightarrow> service_inv (sys_db s)"
  by (induction rule: reachable.induct) (simp_all add: service_inv_empty initialize_db_inv handle_inv)


text \<open>C7: \<open>GET /secrets\<close> is the one endpoint a caller without any credential
  gets through: it declares its role with a bare \<open>Depends()\<close>, so the role is
  built from the request's own parameters, and it answers; every other
  endpoint answers such a caller 401.  No anonymous request changes the
  state.\<close>

theorem anonymous_reaches_only_list_secrets:
  "(fst (handle E Anonymous claimed req s) = Inl (HTTPException 401) \<longleftrightarrow> req \<noteq> ListSecrets)
   \<and> snd (handle E Anonymous claimed req s) = s
   \<and> handle E Anonymous claimed ListSecrets s = (Inr (), s)"
  by (cases req) (simp_all add: handle_def outcome_def list_secrets_def)

text \<open>C9: in every reachable state, every stored webhook authenticates through its
  own URL: the runner splits the URL's path into an id and a secret, and the
  service, called with a service credential, answers \<open>Authorized\<close> for the
  webhook's action.  The invariant supplies what authentication needs: the
  webhook names an action and that action exists.\<close>

theorem reachable_webhook_authenticates:
  assumes "reachable E L D s" and "h \<in> set (webhooks (sys_db s))" and "CHR ''/'' \<notin> set (wh_id h)"
  shows "\<exists>a\<in>set (actions (sys_db s)). wh_action_id h = Some (act_id a)
     \<and> authenticate_webhook E
           (fst (split_at (CHR ''/'') (drop (length (runner_url E @ ''/webhook/'')) (webhook_url E (wh_id h)))))
           (snd (split_at (CHR ''/'') (drop (length (runner_url E @ ''/webhook/'')) (webhook_url E (wh_id h)))))
           s
       = (Inr \<lparr>aw_status = ''Authorized'', aw_owner_id = Some (act_owner_id a),
               aw_action_key = Some (action_key a), aw_action_id = Some (act_id a),
               aw_webhook_id = Some (wh_id h), aw_workflow_id = wh_workflow_id h\<rparr>, s)
     \<and> handle E (ServiceCredential u sid) claimed
         (AuthenticateWebhook
           (fst (split_at (CHR ''/'') (drop (length (runner_url E @ ''/webhook/'')) (webhook_url E (wh_id h)))))
           (snd (split_at (CHR ''/'') (drop (length (runner_url E @ ''/webhook/'')) (webhook_url E (wh_id h))))))
         s = (Inr (), s)"
proof -
  have inv: "service_inv (sys_db s)" using assms(1) by (rule reachable_inv)
  then have di: "db_integrity (sys_db s)" and "wh_action_id h \<noteq> None"
    using assms(2) by (auto simp: service_inv_def webhooks_bound_def)
  then obtain x where x: "wh_action_id h = Some x" by blast
  from di assms(2) have "fk_opt (wh_action_id h) (map act_id (actions (sys_db s)))"
    by (simp add: db_integrity_def)
  with x obtain a where a: "a \<in> set (actions (sys_db s))" "act_id a = x"
    by (auto simp: fk_opt_def)
  have ha: "wh_action_id h = Some (act_id a)" using x a(2) by simp
  note auth = authenticate_webhook_url [OF di assms(2) a(1) ha assms(3), of E]
  have "handle E (ServiceCredential u sid) claimed
         (AuthenticateWebhook
           (fst (split_at (CHR ''/'') (drop (length (runner_url E @ ''/webhook/'')) (webhook_url E (wh_id h)))))
           (snd (split_at (CHR ''/'') (drop (length (runner_url E @ ''/webhook/'')) (webhook_url E (wh_id h))))))
         s = (Inr (), s)"
    by (simp only: handle_def endpoint_auth.simps resolve.simps sum.case dispatch.simps auth)
      (simp add: outcome_def)
  with a(1) ha auth show ?thesis by blast
qed

end
