(* ===== verification/Cases.thy ===== *)
theory Cases
  imports Accounts
begin

text \<open>
  The endpoints of \<^verbatim>\<open>src/tracecat/api/app.py\<close> that talk to stores other than
  the relational database: events search (tantivy, lines 925--951), the
  case-completion stream (polars over the case tables, lines 1158--1216) and
  the workflow trigger (an HTTP call to the runner, lines 428--459), and the
  CORS origins.  The tantivy search, the completion stream and the runner are
  parameters: what the code does with their results is modelled, not what
  they compute.  The cases of a workflow (a LanceDB table, lines 954--1052)
  are not modelled: their rows are \<open>tracecat.types.cases.Case\<close>, which is not
  in the repository, and their queries are SQL strings built from \<open>repr\<close> of
  the caller's ids and evaluated by LanceDB.
\<close>

subsection \<open>Events search\<close>

text \<open>SQLAlchemy's \<open>Result.one_or_none()\<close>.\<close>

definition one_or_none :: "'a list \<Rightarrow> 'a option res" where
  "one_or_none xs = (case xs of [] \<Rightarrow> Inr None | [x] \<Rightarrow> Inr (Some x) | _ \<Rightarrow> Inl MultipleResultsFound)"

text \<open>\<open>GET /events/search\<close>: the caller must own the workflow (a missing or
  empty owner is refused as well); then the index is searched, where tantivy
  may raise (\<open>index_error\<close>), and the function ends without a \<open>return\<close>.\<close>

definition search_events ::
  "exc option \<Rightarrow> role \<Rightarrow> string \<Rightarrow> sys \<Rightarrow> json list res \<times> sys" where
  "search_events index_error r workflow_id s =
     (case one_or_none (map wf_owner_id (filter (\<lambda>w. wf_id w = workflow_id) (workflows (sys_db s)))) of
        Inl e \<Rightarrow> (Inl e, s)
      | Inr owner \<Rightarrow>
          if (case owner of None \<Rightarrow> True | Some o' \<Rightarrow> o' = '''') \<or> owner \<noteq> Some (role_user_id r)
          then (Inl (HTTPException 403), s)
          else (case index_error of
                  Some e \<Rightarrow> (Inl e, s)
                | None \<Rightarrow> (response_list RetNone, s)))"

subsection \<open>Case completions\<close>

text \<open>\<open>pl.col.value.str.split(".").list.first()\<close>.\<close>

definition first_segment :: "string \<Rightarrow> string" where
  "first_segment v = takeWhile (\<lambda>c. c \<noteq> CHR ''.'') v"

text \<open>The polars pipeline: unique \<open>(tag, first segment)\<close> pairs grouped by tag.
  Polars fixes no order of the groups; this model takes the order of first
  appearance, and the lemmas below do not depend on it.  A frame built from
  an empty list has no columns, so selecting \<open>tag\<close> raises
  \<open>ColumnNotFoundError\<close>.\<close>

definition category_constraints :: "(string \<times> string) list \<Rightarrow> (string \<times> string list) list res" where
  "category_constraints rows =
     (if rows = [] then Inl ColumnNotFoundError
      else let us = remdups (map (\<lambda>(t, v). (t, first_segment v)) rows)
           in Inr (map (\<lambda>t. (t, map snd (filter (\<lambda>u. fst u = t) us))) (remdups (map fst us))))"

text \<open>The constraints the endpoint builds from the caller's visible case contexts
  and actions (\<open>list_case_contexts(role)\<close>, \<open>list_case_actions(role)\<close>).\<close>

definition autofill_constraints ::
  "role \<Rightarrow> sys \<Rightarrow> (string \<times> string list) list res \<times> (string \<times> string list) list res" where
  "autofill_constraints r s =
     (category_constraints (map (\<lambda>c. (cc_tag c, cc_value c)) (projr (fst (list_case_contexts r s)))),
      category_constraints (map (\<lambda>c. (ca_tag c, ca_value c)) (projr (fst (list_case_actions r s)))))"

text \<open>\<open>POST /completions/cases/stream\<close>: the actions' constraints are computed
  first, then the contexts'; the answer is the stream of
  \<open>stream_case_completions\<close> (\<open>stream\<close>) over the cases and the two lists.\<close>

definition streaming_autofill_case_fields ::
  "('c list \<Rightarrow> (string \<times> string list) list \<Rightarrow> (string \<times> string list) list \<Rightarrow> 'o)
   \<Rightarrow> role \<Rightarrow> 'c list \<Rightarrow> sys \<Rightarrow> 'o res \<times> sys" where
  "streaming_autofill_case_fields stream r cases s =
     (let (ctx, act) = autofill_constraints r s
      in (rbind act (\<lambda>ac. rbind ctx (\<lambda>cc. Inr (stream cases cc ac))), s))"

subsection \<open>Workflow trigger\<close>

record trigger_params =
  tp_action_key :: string
  tp_payload :: json

record start_workflow_params =
  sw_entrypoint_key :: string
  sw_entrypoint_payload :: json

text \<open>httpx's \<open>raise_for_status()\<close>: a 4xx or 5xx status.\<close>

definition http_error_status :: "nat \<Rightarrow> bool" where
  "http_error_status code \<longleftrightarrow> 400 \<le> code \<and> code < 600"

text \<open>\<open>POST /workflows/{workflow_id}/trigger\<close>: one POST to the runner as the
  service \<open>tracecat-api\<close> acting for the caller's user; \<open>runner\<close> answers a
  status and a JSON body.\<close>

definition trigger_workflow_run ::
  "(role \<Rightarrow> string \<Rightarrow> start_workflow_params \<Rightarrow> nat \<times> json) \<Rightarrow> role \<Rightarrow> string \<Rightarrow> trigger_params
   \<Rightarrow> json res" where
  "trigger_workflow_run runner r workflow_id params =
     (let service_role = ServiceRole (role_user_id r) ''tracecat-api'';
          workflow_params = \<lparr>sw_entrypoint_key = tp_action_key params,
                             sw_entrypoint_payload = tp_payload params\<rparr>;
          (code, body) = runner service_role (''/workflows/'' @ workflow_id) workflow_params
      in if http_error_status code then Inl (HTTPException 500) else Inr body)"

subsection \<open>CORS origins\<close>

text \<open>The allowed origins by \<open>TRACECAT__APP_ENV\<close> (lines 92--103).\<close>

definition cors_origins :: "env \<Rightarrow> string \<Rightarrow> string list" where
  "cors_origins E app_env =
     (if app_env = ''prod'' then [''https://platform.tracecat.com'', runner_url E]
      else if app_env = ''staging'' then [''https://tracecat-*-tracecat.vercel.app'', runner_url E]
      else [''http://localhost:3000'', ''http://localhost:8000''])"

subsection \<open>Lemmas\<close>

lemma category_constraints_mem:
  "(\<exists>cs vs. category_constraints rows = Inr cs \<and> (t, vs) \<in> set cs \<and> v \<in> set vs)
   \<longleftrightarrow> (\<exists>x\<in>set rows. fst x = t \<and> first_segment (snd x) = v)"
  by (force simp: category_constraints_def Let_def)

lemma category_constraints_distinct:
  "category_constraints rows = Inr cs
   \<Longrightarrow> distinct (map fst cs) \<and> (\<forall>(t, vs)\<in>set cs. distinct vs)"
proof -
  assume "category_constraints rows = Inr cs"
  then obtain us where us: "us = remdups (map (\<lambda>(t, v). (t, first_segment v)) rows)"
    and cs: "cs = map (\<lambda>t. (t, map snd (filter (\<lambda>u. fst u = t) us))) (remdups (map fst us))"
    by (auto simp: category_constraints_def Let_def split: if_splits)
  have "distinct (map snd (filter (\<lambda>u. fst u = t) us))" for t
    using us by (auto simp: distinct_map intro: inj_onI)
  then show ?thesis using cs by (simp add: comp_def)
qed

lemma category_constraints_error:
  "category_constraints rows = Inl e \<longleftrightarrow> rows = [] \<and> e = ColumnNotFoundError"
  by (auto simp: category_constraints_def Let_def)

text \<open>C22: the events search never answers with events: a caller who does not
  own the workflow gets 403, and its owner, once the index search is done,
  gets the response-validation error of a function that returns \<open>None\<close>
  where \<open>list[Event]\<close> is declared.\<close>

theorem search_events_never_answers:
  "isl (fst (search_events index_error r workflow_id s)) \<and> snd (search_events index_error r workflow_id s) = s
   \<and> (index_error = None \<longrightarrow> db_integrity (sys_db s) \<longrightarrow> role_user_id r \<noteq> ''''
      \<longrightarrow> (\<exists>w\<in>set (workflows (sys_db s)). wf_id w = workflow_id \<and> wf_owner_id w = role_user_id r)
      \<longrightarrow> fst (search_events index_error r workflow_id s) = Inl ResponseValidationError)"
proof -
  have "isl (fst (search_events index_error r workflow_id s)) \<and> snd (search_events index_error r workflow_id s) = s"
    by (auto simp: search_events_def one_or_none_def split: list.splits sum.splits option.splits)
  moreover have "fst (search_events index_error r workflow_id s) = Inl ResponseValidationError"
    if "index_error = None" "db_integrity (sys_db s)" "role_user_id r \<noteq> ''''"
      "w \<in> set (workflows (sys_db s))" "wf_id w = workflow_id" "wf_owner_id w = role_user_id r" for w
  proof -
    from that(2) have "distinct (map wf_id (workflows (sys_db s)))" by (simp add: db_integrity_def)
    then have "filter (\<lambda>x. wf_id x = workflow_id) (workflows (sys_db s)) = [w]"
      using filter_key_unique [of wf_id _ w "\<lambda>_. True"] that(4,5) by simp
    then show ?thesis using that(1,3,6) by (simp add: search_events_def one_or_none_def)
  qed
  ultimately show ?thesis by blast
qed

text \<open>C17: the completion constraints are exactly the caller's visible case
  vocabulary: a tag and value are offered for actions (contexts) iff some case
  action (context) owned by \<open>tracecat\<close> or by the caller has that tag and a
  value whose first dot-separated segment is that value; no other user's
  labels reach the completion model, and each tag is offered once.  Where the
  caller sees no case action (context) at all, polars raises instead.\<close>

theorem autofill_constraints_visible:
  "((\<exists>cs vs. snd (autofill_constraints r s) = Inr cs \<and> (t, vs) \<in> set cs \<and> v \<in> set vs)
      \<longleftrightarrow> (\<exists>c\<in>set (case_actions (sys_db s)). (ca_owner_id c = ''tracecat'' \<or> ca_owner_id c = role_user_id r)
             \<and> ca_tag c = t \<and> first_segment (ca_value c) = v))
   \<and> ((\<exists>cs vs. fst (autofill_constraints r s) = Inr cs \<and> (t, vs) \<in> set cs \<and> v \<in> set vs)
      \<longleftrightarrow> (\<exists>c\<in>set (case_contexts (sys_db s)). (cc_owner_id c = ''tracecat'' \<or> cc_owner_id c = role_user_id r)
             \<and> cc_tag c = t \<and> first_segment (cc_value c) = v))
   \<and> (\<forall>cs. snd (autofill_constraints r s) = Inr cs \<longrightarrow> distinct (map fst cs))
   \<and> (\<forall>cs. fst (autofill_constraints r s) = Inr cs \<longrightarrow> distinct (map fst cs))
   \<and> (snd (autofill_constraints r s) = Inl ColumnNotFoundError
      \<longleftrightarrow> (\<forall>c\<in>set (case_actions (sys_db s)). ca_owner_id c \<noteq> ''tracecat'' \<and> ca_owner_id c \<noteq> role_user_id r))
   \<and> (fst (autofill_constraints r s) = Inl ColumnNotFoundError
      \<longleftrightarrow> (\<forall>c\<in>set (case_contexts (sys_db s)). cc_owner_id c \<noteq> ''tracecat'' \<and> cc_owner_id c \<noteq> role_user_id r))"
  unfolding autofill_constraints_def fst_conv snd_conv category_constraints_mem category_constraints_error
  by (auto simp: list_case_actions_def list_case_contexts_def filter_empty_conv
      dest: category_constraints_distinct)

end
