(* ===== verification/Scenario.thy ===== *)
theory Scenario
  imports Service Cases
begin

text \<open>
  The concrete scenario of the spec (section 8), used by the witnesses: the
  library owner \<open>"tracecat"\<close> has workflow \<open>W1\<close> with a webhook action \<open>a1\<close>
  (webhook \<open>w1\<close>) and an action \<open>a2\<close>, wired by the edge \<open>a1-a2\<close>; user \<open>u9\<close>
  copies it.  The identifier source \<open>uuid4_hex E0\<close> yields \<open>n\<close>, \<open>nx\<close>, \<open>nxx\<close>, ...
  and the secret of an id \<open>i\<close> is \<open>h\<close> followed by \<open>i\<close>.  The variants
  \<open>w_null\<close>, \<open>d_null_inputs\<close> and \<open>g_dangling\<close> are the failing inputs of the
  error theorems.
\<close>

definition E0 :: env where
  "E0 = \<lparr>uuid4_hex = (\<lambda>k. ''n'' @ replicate k (CHR ''x'')), compute_hash = (\<lambda>i. ''h'' @ i),
         runner_url = ''https://runner'', encrypt_key = (\<lambda>v. ''enc:'' @ v)\<rparr>"

definition a1 :: action where
  "a1 = \<lparr>act_id = ''a1'', act_type = ''webhook'', act_title = ''Receive alert'', act_description = '''',
         act_status = ''online'',
         act_inputs = Some (JDict [(''path'', JStr ''w1''), (''secret'', JStr ''hw1'')]),
         act_workflow_id = Some ''W1'', act_owner_id = ''tracecat''\<rparr>"

definition a2 :: action where
  "a2 = \<lparr>act_id = ''a2'', act_type = ''http_request'', act_title = ''Enrich'', act_description = '''',
         act_status = ''online'', act_inputs = Some (JDict [(''url'', JStr ''x'')]),
         act_workflow_id = Some ''W1'', act_owner_id = ''tracecat''\<rparr>"

definition hook_w1 :: webhook where
  "hook_w1 = \<lparr>wh_id = ''w1'', wh_action_id = Some ''a1'', wh_workflow_id = Some ''W1'',
              wh_owner_id = ''tracecat''\<rparr>"

definition node :: "string \<Rightarrow> json" where
  "node i = JDict [(''id'', JStr i), (''data'', JDict [(''id'', JStr i)])]"

definition edge :: "string \<Rightarrow> string \<Rightarrow> json" where
  "edge s t = JDict [(''id'', JStr (s @ ''-'' @ t)), (''source'', JStr s), (''target'', JStr t)]"

definition g1 :: json where
  "g1 = JDict [(''nodes'', JList [node ''a1'', node ''a2'']), (''edges'', JList [edge ''a1'' ''a2''])]"

definition w1 :: workflow where
  "w1 = \<lparr>wf_id = ''W1'', wf_title = ''Phishing triage'', wf_description = ''Triage reports'',
         wf_status = ''online'', wf_object = Some g1, wf_icon_url = None, wf_owner_id = ''tracecat''\<rparr>"

definition user_of :: "string \<Rightarrow> user" where
  "user_of u = \<lparr>u_id = u, u_tier = ''free'', u_settings = None\<rparr>"

definition d0 :: db where
  "d0 = \<lparr>users = [user_of ''tracecat'', user_of ''u9''], secrets = [], case_actions = [],
         case_contexts = [], workflows = [w1], workflow_runs = [], actions = [a1, a2],
         action_runs = [], webhooks = [hook_w1]\<rparr>"

definition s0 :: sys where
  "s0 = \<lparr>sys_db = d0, sys_uuid = 0\<rparr>"

text \<open>The expected clone: workflow \<open>n\<close>, actions \<open>nx\<close> (with webhook \<open>nxx\<close>) and
  \<open>nxxx\<close>, and the edge \<open>nx-nxxx\<close>.\<close>

definition inputs_c1 :: json where
  "inputs_c1 = JDict [(''path'', JStr ''nxx''), (''secret'', JStr ''hnxx'')]"

definition g2 :: json where
  "g2 = JDict
     [(''nodes'', JList
        [JDict [(''id'', JStr ''nx''),
                (''data'', JDict [(''id'', JStr ''nx''), (''inputs'', inputs_c1), (''selected'', JBool False)])],
         JDict [(''id'', JStr ''nxxx''),
                (''data'', JDict [(''id'', JStr ''nxxx''), (''inputs'', JDict [(''url'', JStr ''x'')]),
                                  (''selected'', JBool False)])]]),
      (''edges'', JList [edge ''nx'' ''nxxx''])]"

definition cw0 :: workflow where
  "cw0 = w1\<lparr>wf_id := ''n'', wf_status := ''offline'', wf_object := Some g2, wf_owner_id := ''u9''\<rparr>"

definition rows0 :: "row list" where
  "rows0 =
     [RWebhook \<lparr>wh_id = ''nxx'', wh_action_id = Some ''nx'', wh_workflow_id = Some ''n'', wh_owner_id = ''u9''\<rparr>,
      RAction (a1\<lparr>act_id := ''nx'', act_inputs := Some inputs_c1, act_workflow_id := Some ''n'',
                  act_owner_id := ''u9''\<rparr>),
      RAction (a2\<lparr>act_id := ''nxxx'', act_workflow_id := Some ''n'', act_owner_id := ''u9''\<rparr>),
      RWorkflow cw0]"

text \<open>Failing variants: no document, an action never given inputs, an edge to
  an action that is not in the workflow.\<close>

definition w_null :: workflow where
  "w_null = w1\<lparr>wf_object := None\<rparr>"

definition d_null_inputs :: db where
  "d_null_inputs = d0\<lparr>actions := [a1, a2\<lparr>act_inputs := None\<rparr>]\<rparr>"

definition g_dangling :: json where
  "g_dangling = JDict [(''nodes'', JList [node ''a1'']), (''edges'', JList [edge ''a1'' ''a9''])]"

definition s_null :: sys where
  "s_null = s0\<lparr>sys_db := d0\<lparr>workflows := [w_null]\<rparr>\<rparr>"

text \<open>Accounts: user \<open>u9\<close> keeps one secret named \<open>api\<close> (\<open>s_sec\<close>) or is on
  the \<open>pro\<close> tier (\<open>s_pro\<close>); \<open>s_init\<close> is the state after seeding an empty
  database with one MITRE label and one case action.\<close>

definition sec9 :: secret where
  "sec9 = \<lparr>sec_id = ''s1'', sec_name = Some ''api'', sec_encrypted_api_key = Some ''enc:k'',
           sec_owner_id = ''u9''\<rparr>"

definition s_sec :: sys where
  "s_sec = \<lparr>sys_db = d0\<lparr>secrets := [sec9]\<rparr>, sys_uuid = 0\<rparr>"

definition s_pro :: sys where
  "s_pro = \<lparr>sys_db = d0\<lparr>users := [user_of ''tracecat'', (user_of ''u9'')\<lparr>u_tier := ''pro''\<rparr>]\<rparr>,
            sys_uuid = 0\<rparr>"

definition s_init :: sys where
  "s_init = \<lparr>sys_db = empty_db\<lparr>
               case_contexts := [\<lparr>cc_id = ''n'', cc_tag = ''mitre'', cc_value = ''T1'', cc_user_id = None,
                                  cc_owner_id = ''tracecat''\<rparr>],
               case_actions := [\<lparr>ca_id = ''nx'', ca_tag = ''case_action'', ca_value = ''close'',
                                 ca_user_id = None, ca_owner_id = ''tracecat''\<rparr>]\<rparr>,
             sys_uuid = 2\<rparr>"

text \<open>A state the service reaches from an empty database: user \<open>u9\<close> registers,
  creates workflow \<open>n\<close> and in it the webhook action \<open>nx\<close>, which gets webhook
  \<open>nxx\<close>.\<close>

definition s_hook :: sys where
  "s_hook = snd (handle E0 (UserCredential ''u9'') (UserRole ''u9'') (CreateAction ''n'' ''webhook'' ''Hook'')
     (snd (handle E0 (UserCredential ''u9'') (UserRole ''u9'') (CreateWorkflow ''T'' ''D'')
       (snd (handle E0 (UserCredential ''u9'') (UserRole ''u9'') CreateUser
         \<lparr>sys_db = empty_db, sys_uuid = 0\<rparr>)))))"

definition hook_n :: webhook where
  "hook_n = \<lparr>wh_id = ''nxx'', wh_action_id = Some ''nx'', wh_workflow_id = Some ''n'', wh_owner_id = ''u9''\<rparr>"

text \<open>The response of authenticating webhook \<open>w1\<close> with its secret.\<close>

definition auth_w1 :: auth_webhook_response where
  "auth_w1 = \<lparr>aw_status = ''Authorized'', aw_owner_id = Some ''tracecat'',
              aw_action_key = Some (action_key a1), aw_action_id = Some ''a1'',
              aw_webhook_id = Some ''w1'', aw_workflow_id = Some ''W1''\<rparr>"

lemmas scenario_defs = E0_def a1_def a2_def hook_w1_def node_def edge_def g1_def w1_def user_of_def
  d0_def s0_def inputs_c1_def g2_def cw0_def rows0_def w_null_def d_null_inputs_def g_dangling_def
  s_null_def sec9_def s_sec_def s_pro_def s_init_def auth_w1_def

lemmas clone_defs = clone_workflow_def workflow_actions_def clone_action_def Let_def remap_graph_def
  remap_edge_def remap_node_def py_for_inplace_def json_dumps_def dict_update_def webhook_secret_def

subsection \<open>The scenario evaluated\<close>

lemma scenario_clone: "clone_workflow E0 d0 w1 ''u9'' 0 = Inr (cw0, 4, rows0)"
  by (simp add: scenario_defs clone_defs)

lemma scenario_integrity: "db_integrity d0"
  by (simp add: scenario_defs db_integrity_def fk_opt_def)

lemma scenario_clonable: "clonable d0 w1"
  by (simp add: scenario_defs clonable_def action_clonable_def workflow_actions_def)

lemma scenario_commit: "commit_inserts rows0 d0 = Inr (fold insert_row rows0 d0)"
  by (simp add: commit_inserts_def scenario_defs db_integrity_def fk_opt_def)

lemma scenario_copy:
  "copy_workflow E0 (UserRole ''u9'') ''W1'' None s0 = (Inr (), \<lparr>sys_db = fold insert_row rows0 d0, sys_uuid = 4\<rparr>)"
proof -
  have "filter (\<lambda>w. wf_owner_id w = ''tracecat'' \<and> wf_id w = ''W1'') (workflows d0) = [w1]"
    by (simp add: d0_def w1_def)
  then show ?thesis
    using scenario_clone scenario_commit
    by (simp add: copy_workflow_def s0_def one_or_404_def result_one_def)
qed

lemma scenario_s0_integrity: "db_integrity (sys_db s0)"
  using scenario_integrity by (simp add: s0_def)

lemma scenario_sec_integrity: "db_integrity (sys_db s_sec)"
  by (simp add: scenario_defs db_integrity_def fk_opt_def)

lemma scenario_pro_integrity: "db_integrity (sys_db s_pro)"
  by (simp add: scenario_defs db_integrity_def fk_opt_def)

lemma scenario_auth: "authenticate_webhook E0 ''w1'' ''hw1'' s0 = (Inr auth_w1, s0)"
  by (simp add: authenticate_webhook_def scenario_defs webhook_secret_def one_or_404_def
      result_one_def)

lemma scenario_init:
  "initialize_db E0 [''T1''] [''close''] \<lparr>sys_db = empty_db, sys_uuid = 0\<rparr> = (Inr (), s_init)"
  by (simp add: initialize_db_def seed_table_def session_commit_def commit_db_def db_integrity_def
      mitre_context_def default_case_action_def empty_db_def scenario_defs fk_opt_def)

lemma scenario_hook: "hook_n \<in> set (webhooks (sys_db s_hook))"
  by (simp add: s_hook_def hook_n_def handle_def create_user_def create_workflow_def create_action_def
      create_webhook_def session_commit_def commit_db_def db_integrity_def fk_opt_def empty_db_def
      first_or_none_def fresh_id_def E0_def Let_def outcome_def py_lower_def lower_char_def)

lemma scenario_hook_reachable: "reachable E0 [] [] s_hook"
  unfolding s_hook_def by (intro reachable.step reachable.start)

lemma scenario_copy_null:
  "copy_workflow E0 (UserRole ''u9'') ''W1'' None s_null = (Inl TypeError, s_null)"
  by (simp add: copy_workflow_def one_or_404_def result_one_def scenario_defs clone_defs)

end
