(* ===== verification/Spec2Isabelle.thy ===== *)
theory Spec2Isabelle
  imports Scenario
begin

text \<open>
  \<^bold>\<open>A verification model of the tracecat API server.\<close>

  \<^medskip>\<^bold>\<open>The program.\<close>  \<^verbatim>\<open>src/tracecat/db.py\<close> declares the SQLModel tables
  (users, secrets, case actions and contexts, workflows, workflow runs, actions,
  action runs, webhooks), the derived identities (\<open>Workflow.key\<close>,
  \<open>Action.key\<close>, \<open>Webhook.secret\<close>, \<open>Webhook.url\<close>), the graph clone
  \<open>clone_workflow\<close> and the start-up \<open>initialize_db\<close>.
  \<^verbatim>\<open>src/tracecat/api/app.py\<close> is the FastAPI server: each endpoint resolves a
  \<open>Role\<close> through a dependency, opens a session, reads or writes rows and commits.
  \<^verbatim>\<open>src/tracecat/types/api.py\<close> holds the request and response models.

  \<^medskip>\<^bold>\<open>The theories.\<close>
  \<^item> \<open>Prelude\<close>: exceptions as the datatype \<open>exc\<close>, results \<open>'a res = exc + 'a\<close>,
    \<open>rbind\<close>, \<open>result_one\<close> (SQLAlchemy's \<open>Result.one\<close>), FastAPI's response
    validation (\<open>returned\<close>, \<open>response_obj\<close>, \<open>response_list\<close>: a value
    whose shape is not the declared model's is a \<open>ResponseValidationError\<close>,
    answered with 500), \<open>respond\<close> (the answer built after a handler's body,
    which keeps the state the body committed) and list lemmas.
  \<^item> \<open>Identity\<close>: \<open>derive_key\<close>, \<open>slugify\<close>, \<open>webhook_secret\<close>, \<open>webhook_url\<close>;
    \<open>slugify\<close> (python-slugify, not in the repository) is modelled on ASCII
    text only: its transliteration of other characters (\<open>unidecode\<close>), its
    HTML-entity decoding and its removal of commas between digits are not
    modelled;
    the environment \<open>env\<close> holds what the code takes from outside: the
    \<open>uuid4().hex\<close> stream (\<open>uuid4_hex\<close>, indexed by a counter), \<open>compute_hash\<close>,
    the runner URL and the key encryption.
  \<^item> \<open>Json\<close>, \<open>Graph\<close>: parsed JSON values with Python's subscript, assignment and
    iteration errors; the React Flow document and the two loops of
    \<open>clone_workflow\<close> that rename its nodes and edges.
  \<^item> \<open>Store\<close>: one record per table class, the database \<open>db\<close> as one list per
    table, \<open>db_integrity\<close> (primary keys distinct, foreign keys resolve), and
    \<open>commit_inserts\<close>.  \<open>Session\<close>: in-place updates (\<open>update_where\<close>), commits
    that check the constraints (\<open>commit_db\<close>), and \<open>session.delete\<close> with the
    ORM's cascades and the \<open>ON DELETE CASCADE\<close> keys.
  \<^item> \<open>Clone\<close>, \<open>Api\<close>: \<open>clone_workflow\<close> as a fold over the workflow's actions,
    and \<open>POST /workflows/{id}/copy\<close> (\<open>copy_workflow\<close>).
  \<^item> \<open>Workflows\<close>, \<open>Actions\<close>, \<open>Accounts\<close>: every other endpoint that touches the
    database, one definition per endpoint named as the Python function, each a
    function \<open>... \<Rightarrow> sys \<Rightarrow> 'r res \<times> sys\<close> returning the response or the
    exception together with the state after its session(s); the state \<open>sys\<close> is
    the database and the index of the next \<open>uuid4()\<close> value.  \<open>Accounts\<close> also
    holds the seeding part of \<open>initialize_db\<close>.
  \<^item> \<open>Cases\<close>: the endpoints backed by other stores.  Events search keeps its
    relational ownership check and its outcome, with the tantivy search a
    parameter; the completion endpoint's constraints are computed from the
    caller's case actions and contexts (polars raises on an empty list), with
    the LLM stream a parameter; the trigger's one call to the runner is
    modelled with the runner a parameter; and the CORS origins.
  \<^item> \<open>Service\<close>: the server as a state machine.  \<open>request\<close> names an endpoint
    and its parameters, \<open>endpoint_auth\<close> the dependency its \<open>role\<close> parameter
    declares, \<open>resolve\<close> the contract of \<open>tracecat.auth\<close> (not under
    \<^verbatim>\<open>src/\<close>, modelled from the spec), \<open>dispatch\<close> and \<open>handle\<close> one request,
    routed as FastAPI routes it (first registered route first, so
    \<open>GET /webhooks/search\<close> is \<open>GET /webhooks/{webhook_id}\<close> with the id
    \<open>search\<close>),
    and the inductive \<open>reachable\<close> every state after start-up and any
    sequence of requests.
  \<^item> \<open>Scenario\<close>: the concrete states at which the witnesses below apply the
    properties.

  \<^medskip>\<^bold>\<open>What the lemmas show.\<close>
  The clone is closed and correctly wired (the cloned document names only the
  new actions, and is the source's document renamed), the copy is atomic and
  touches nothing else, and succeeds on every well-formed request.  The
  service keeps an invariant: in every reachable state the schema's keys hold,
  no owner has two secrets of one name and every webhook names an action
  (\<open>Service.reachable_invariant\<close>, by rule induction, with one preservation
  lemma per writing endpoint); from it, every stored webhook authenticates
  through its own URL (\<open>Service.reachable_webhook_authenticates\<close>), which
  composes the identity derivation, the webhook handler and the routing.
  Deleting a workflow removes it, its actions and their webhooks and keeps
  their runs with a NULL key (\<open>Workflows.delete_workflow_cascade\<close>); deleting a
  user cascades likewise; webhook URLs authenticate and only their own secret
  does; the secret endpoints refine a key-value store from an owner and a
  name to the stored key (\<open>Accounts.secret_store_refinement\<close>), where an
  update commits the store's update and then answers 500, and searching by
  one name is that store's lookup; a run listing is bounded by its limit.
  Several properties record what the code does against what it means:
  \<open>GET /secrets\<close> is the one endpoint an anonymous caller gets through, and
  it trusts the role the caller claims
  (\<open>Service.anonymous_reaches_only_list_secrets\<close>); \<open>GET /webhooks\<close> always
  raises on a non-empty result; \<open>POST /users\<close> resets the tier; searching
  secrets by several names finds nothing; actions and runs can be created in
  another user's workflow; the events search never answers with events.  The
  completion constraints are built only from the caller's visible case
  vocabulary.

  \<^medskip>\<^bold>\<open>Choices.\<close>  Identifiers are the values \<open>uuid4_hex E k\<close> of a counter
  \<open>k\<close> kept in the state, so the properties that need fresh ids say so as a
  hypothesis (injectivity, and no stored id among the next values).  There is
  no fuel: every loop of the code runs over a finite list and is structural
  recursion.  Constraints are checked at commit, as PostgreSQL does; the
  \<open>ON DELETE CASCADE\<close> keys are those of that backend.  Requests are handled
  one at a time, each to completion.

  The \<open>Cases\<close> endpoints are not requests of \<open>Service.request\<close>, whose
  invariant concerns the relational state only.  Every loop of the code runs over a finite list, so there is no
  termination property to state beyond the totality of the definitions.

  \<^medskip>\<^bold>\<open>Not modelled.\<close>  The case endpoints on the LanceDB table
  (\<open>create_case\<close>, \<open>list_cases\<close>, \<open>get_case\<close>, \<open>update_case\<close>,
  \<open>get_case_metrics\<close>): \<open>Case\<close> and \<open>CaseMetrics\<close> are not in the repository,
  and the queries are SQL strings built from \<open>repr\<close> of the ids and evaluated
  by LanceDB; what tantivy, the LLM client and the runner
  compute (they are parameters); the engine and store set-up of
  \<open>initialize_db\<close> (\<open>create_db_engine\<close>, the LanceDB table, the tantivy
  index); the \<open>Editor\<close> table and the \<open>Resource\<close> timestamps are never read by the
  modelled code; pydantic's validation of bodies is not modelled, and JSON
  columns hold the parsed value, so a body whose JSON text does not parse is
  outside the model; concurrent requests are not modelled.
\<close>

text \<open>C13: the copy succeeds on every well-formed request: an existing source
  workflow owned by the named owner, a caller the handler does not refuse, a
  source whose actions and document the clone can process, a registered new
  owner and an identifier source that yields fresh, pairwise distinct ids.
  Then the handler returns normally; with C3 this means it either commits the
  whole copy or nothing.\<close>

theorem copy_workflow_succeeds:
  assumes "db_integrity (sys_db s)"
    and "w \<in> set (workflows (sys_db s))" and "wf_id w = wid"
    and "wf_owner_id w = (case p of Some o' \<Rightarrow> o' | None \<Rightarrow> ''tracecat'')"
    and "\<not> (role_is_user r \<and> p \<noteq> None)"
    and "clonable (sys_db s) w"
    and "role_user_id r \<in> set (map u_id (users (sys_db s)))"
    and "inj (uuid4_hex E)"
    and "\<forall>k\<ge>sys_uuid s. uuid4_hex E k \<notin> set (map wf_id (workflows (sys_db s)))
           \<union> set (map act_id (actions (sys_db s))) \<union> set (map wh_id (webhooks (sys_db s)))"
  shows "fst (copy_workflow E r wid p s) = Inr ()"
proof -
  let ?o = "case p of Some o' \<Rightarrow> o' | None \<Rightarrow> ''tracecat''"
  let ?P = "\<lambda>w. wf_owner_id w = ?o \<and> wf_id w = wid"
  from assms(1) have "distinct (map wf_id (workflows (sys_db s)))" by (simp add: db_integrity_def)
  then have src: "filter ?P (workflows (sys_db s)) = [w]"
    by (rule filter_unique_key) (use assms(2-4) in auto)
  from clone_workflow_succeeds [OF assms(6)] obtain cw n' rows where
    cl: "clone_workflow E (sys_db s) w (role_user_id r) (sys_uuid s) = Inr (cw, n', rows)"
    by blast
  have cm: "commit_inserts rows (sys_db s) = Inr (fold insert_row rows (sys_db s))"
    using cl assms(1,7,8,9) by (rule commit_clone_succeeds)
  show ?thesis
    using assms(5) src cl cm by (simp add: copy_workflow_def one_or_404_def result_one_def)
qed

subsection \<open>The properties at the scenario of the spec\<close>

theorem copy_workflow_succeeds_witness:
  "fst (copy_workflow E0 (UserRole ''u9'') ''W1'' None s0) = Inr ()"
proof (rule copy_workflow_succeeds [of s0 w1 "''W1''" None "UserRole ''u9''" E0])
  show "db_integrity (sys_db s0)" using scenario_integrity by (simp add: s0_def)
  show "clonable (sys_db s0) w1" using scenario_clonable by (simp add: s0_def)
  show "inj (uuid4_hex E0)" by (simp add: E0_def inj_def)
  show "\<forall>k\<ge>sys_uuid s0. uuid4_hex E0 k \<notin> set (map wf_id (workflows (sys_db s0)))
      \<union> set (map act_id (actions (sys_db s0))) \<union> set (map wh_id (webhooks (sys_db s0)))"
    by (simp add: scenario_defs)
qed (simp_all add: scenario_defs)

theorem clone_workflow_graph_closed_witness:
  "\<exists>g'. wf_object cw0 = Some g' \<and> graph_closed {''nx'', ''nxxx''} g'"
  using clone_workflow_graph_closed [OF scenario_clone]
  by (simp add: rows0_def pending_actions_def)

theorem clone_workflow_wiring_witness:
  "\<exists>f. edge_pairs g2 = Some [(f ''a1'', f ''a2'')] \<and> f ''a1'' = ''nx'' \<and> f ''a2'' = ''nxxx''"
proof -
  have h1: "wf_object w1 = Some g1" by (simp add: w1_def)
  have h2: "edge_pairs g1 = Some [(''a1'', ''a2'')]"
    by (simp add: g1_def edge_def edge_pairs_def edge_pair_def str_field_def)
  have h3: "node_ids g1 = Some [''a1'', ''a2'']"
    by (simp add: g1_def node_def node_ids_def str_field_def)
  have wa: "workflow_actions d0 (wf_id w1) = [a1, a2]"
    by (simp add: workflow_actions_def d0_def w1_def a1_def a2_def)
  have h4: "distinct (map act_id (workflow_actions d0 (wf_id w1)))"
    by (simp add: wa a1_def a2_def)
  obtain f g' where "wf_object cw0 = Some g'"
      and ep: "edge_pairs g' = Some (map (map_prod f f) [(''a1'', ''a2'')])"
      and la: "list_all2 (\<lambda>a a'. f (act_id a) = act_id a') (workflow_actions d0 (wf_id w1))
                 (pending_actions rows0)"
    using clone_workflow_wiring [OF scenario_clone h1 h2 h3 h4] by blast
  then have "g' = g2" by (simp add: cw0_def)
  moreover from la have "f ''a1'' = ''nx'' \<and> f ''a2'' = ''nxxx''"
    by (simp add: wa rows0_def pending_actions_def a1_def a2_def)
  ultimately show ?thesis using ep by (intro exI [of _ f]) simp
qed

theorem copy_workflow_atomic_witness:
  "fst (copy_workflow E0 (UserRole ''u9'') ''W1'' None s_null) = Inl TypeError
   \<and> snd (copy_workflow E0 (UserRole ''u9'') ''W1'' None s_null) = s_null"
  using copy_workflow_atomic [OF scenario_copy_null] scenario_copy_null by simp

theorem copy_workflow_isolation_witness:
  "\<exists>cw. workflows (fold insert_row rows0 d0) = [w1, cw] \<and> wf_owner_id cw = ''u9''"
proof -
  have w: "workflows (sys_db s0) = [w1]" by (simp add: s0_def d0_def)
  from copy_workflow_isolation [OF scenario_copy] obtain cw
    where "workflows (fold insert_row rows0 d0) = workflows (sys_db s0) @ [cw]"
      and "wf_owner_id cw = role_user_id (UserRole ''u9'')"
    by (simp only: sys.select_convs) blast
  with w show ?thesis by simp
qed

theorem clone_workflow_functional_witness:
  "wf_id cw0 = ''n'' \<and> wf_owner_id cw0 = ''u9''
   \<and> list_all2 (cloned_action ''u9'' ''n'') [a1, a2] (pending_actions rows0)"
proof -
  have wa: "workflow_actions d0 (wf_id w1) = [a1, a2]"
    by (simp add: workflow_actions_def d0_def w1_def a1_def a2_def)
  from clone_workflow_functional [OF scenario_clone]
  have "wf_id cw0 = uuid4_hex E0 0" and "wf_owner_id cw0 = ''u9''"
    and "list_all2 (cloned_action ''u9'' (wf_id cw0)) (workflow_actions d0 (wf_id w1))
           (pending_actions rows0)"
    by blast+
  with wa show ?thesis by (simp add: E0_def)
qed

theorem clone_workflow_webhooks_witness:
  "length (pending_webhooks rows0) = 1
   \<and> list_all (hook_of E0 ''u9'' (wf_id cw0) (pending_actions rows0)) (pending_webhooks rows0)"
proof -
  have "length (filter (\<lambda>a. act_type a = ''webhook'') (workflow_actions d0 (wf_id w1))) = 1"
    by (simp add: workflow_actions_def d0_def w1_def a1_def a2_def)
  with clone_workflow_webhooks [OF scenario_clone] show ?thesis by simp
qed

theorem clone_workflow_ids_witness:
  "mset (wf_id cw0 # map act_id (pending_actions rows0) @ map wh_id (pending_webhooks rows0))
   = mset [''n'', ''nx'', ''nxx'', ''nxxx'']"
proof -
  have "map (uuid4_hex E0) [0..<4] = [''n'', ''nx'', ''nxx'', ''nxxx'']"
    by (simp add: E0_def upt_rec)
  with clone_workflow_ids [OF scenario_clone] show ?thesis by simp
qed

theorem copy_workflow_user_forbidden_witness:
  "copy_workflow E0 (UserRole ''u9'') ''W1'' (Some ''tracecat'') s0 = (Inl (HTTPException 403), s0)"
  by (rule copy_workflow_user_forbidden) simp_all

theorem copy_workflow_user_library_witness:
  "\<exists>w\<in>set (workflows d0). wf_id w = ''W1'' \<and> wf_owner_id w = ''tracecat''"
  using copy_workflow_user_library [OF scenario_copy] by (simp add: s0_def)

theorem copy_workflow_service_unchecked_witness:
  "fst (copy_workflow E0 (ServiceRole ''u9'' ''runner'') ''W1'' (Some ''u9'') s0)
     \<noteq> Inl (HTTPException 403)"
  by (rule copy_workflow_service_unchecked)

theorem clone_workflow_dangling_edge_witness:
  "isl (clone_workflow E0 d0 (w1\<lparr>wf_object := Some g_dangling\<rparr>) ''u9'' 0)"
proof (rule clone_workflow_dangling_edge)
  show "wf_object (w1\<lparr>wf_object := Some g_dangling\<rparr>) = Some g_dangling" by simp
  show "edge_pairs g_dangling = Some [(''a1'', ''a9'')]"
    by (simp add: g_dangling_def node_def edge_def edge_pairs_def edge_pair_def str_field_def)
  show "(''a1'', ''a9'') \<in> set [(''a1'', ''a9'')]" by simp
  show "''a1'' \<notin> set (map act_id (workflow_actions d0 (wf_id (w1\<lparr>wf_object := Some g_dangling\<rparr>))))
    \<or> ''a9'' \<notin> set (map act_id (workflow_actions d0 (wf_id (w1\<lparr>wf_object := Some g_dangling\<rparr>))))"
    by (simp add: workflow_actions_def d0_def w1_def a1_def a2_def)
qed

theorem clone_workflow_null_object_witness:
  "isl (clone_workflow E0 d0 w_null ''u9'' 0)"
  by (rule clone_workflow_null_object) (simp add: w_null_def)

theorem clone_workflow_null_inputs_witness:
  "isl (clone_workflow E0 d_null_inputs w1 ''u9'' 0)"
proof (rule clone_workflow_null_inputs)
  show "a2\<lparr>act_inputs := None\<rparr> \<in> set (workflow_actions d_null_inputs (wf_id w1))"
    by (simp add: workflow_actions_def d_null_inputs_def d0_def w1_def a2_def)
  show "act_inputs (a2\<lparr>act_inputs := None\<rparr>) = None" by simp
qed

theorem slugify_idempotent_witness:
  "slugify (CHR ''_'') (slugify (CHR ''_'') ''Receive  Alert!'') = ''receive_alert''"
proof -
  have "slugify (CHR ''_'') ''Receive  Alert!'' = ''receive_alert''"
    by code_simp
  with slugify_idempotent [of "''Receive  Alert!''"] show ?thesis by simp
qed

subsection \<open>The service properties at concrete states\<close>

theorem reachable_invariant_witness:
  "service_inv (sys_db (snd (handle E0 (UserCredential ''u9'') (UserRole ''u9'') CreateUser
     (snd (initialize_db E0 [''T1''] [''close''] \<lparr>sys_db = empty_db, sys_uuid = 0\<rparr>)))))"
proof -
  have "reachable E0 [''T1''] [''close''] (snd (handle E0 (UserCredential ''u9'') (UserRole ''u9'') CreateUser
     (snd (initialize_db E0 [''T1''] [''close''] \<lparr>sys_db = empty_db, sys_uuid = 0\<rparr>))))"
    by (intro reachable.step reachable.init reachable.start)
  then show ?thesis by (rule reachable_invariant)
qed

theorem anonymous_reaches_only_list_secrets_witness:
  "fst (handle E0 Anonymous (UserRole ''u9'') GetUser s_sec) = Inl (HTTPException 401)
   \<and> handle E0 Anonymous (UserRole ''u9'') ListSecrets s_sec = (Inr (), s_sec)"
  using anonymous_reaches_only_list_secrets [of E0 "UserRole ''u9''" GetUser s_sec] by simp

theorem authenticate_webhook_sound_witness:
  "s0 = s0 \<and> ''hw1'' = webhook_secret E0 ''w1''
   \<and> (\<exists>h\<in>set (webhooks (sys_db s0)). wh_id h = ''w1''
        \<and> (\<exists>a\<in>set (actions (sys_db s0)). wh_action_id h = Some (act_id a)
             \<and> aw_owner_id auth_w1 = Some (act_owner_id a) \<and> aw_action_key auth_w1 = Some (action_key a)
             \<and> aw_workflow_id auth_w1 = wh_workflow_id h))"
  by (rule authenticate_webhook_sound [OF scenario_auth]) (simp add: auth_w1_def)

theorem delete_workflow_cascade_witness:
  "\<exists>s'. delete_workflow (UserRole ''tracecat'') ''W1'' s0 = (Inr (), s') \<and> db_integrity (sys_db s')
     \<and> workflows (sys_db s') = [] \<and> actions (sys_db s') = [] \<and> webhooks (sys_db s') = []
     \<and> users (sys_db s') = users (sys_db s0)"
proof -
  have "w1 \<in> set (workflows (sys_db s0))" "wf_owner_id w1 = role_user_id (UserRole ''tracecat'')"
    by (simp_all add: scenario_defs)
  from delete_workflow_cascade [OF scenario_s0_integrity this] obtain s' where
    run: "delete_workflow (UserRole ''tracecat'') (wf_id w1) s0 = (Inr (), s')" and i: "db_integrity (sys_db s')"
    and tabs: "workflows (sys_db s') = filter (\<lambda>x. wf_id x \<noteq> wf_id w1) (workflows (sys_db s0))"
      "actions (sys_db s') = filter (\<lambda>a. act_workflow_id a \<noteq> Some (wf_id w1)) (actions (sys_db s0))"
      "webhooks (sys_db s') = filter (\<lambda>h. wh_workflow_id h \<noteq> Some (wf_id w1)
          \<and> wh_action_id h \<notin> Some ` act_id ` set (workflow_actions (sys_db s0) (wf_id w1))) (webhooks (sys_db s0))"
      "users (sys_db s') = users (sys_db s0)"
    by blast
  have d: "workflows (sys_db s0) = [w1]" "actions (sys_db s0) = [a1, a2]" "webhooks (sys_db s0) = [hook_w1]"
    by (simp_all add: s0_def d0_def)
  have "wf_id w1 = ''W1''" by (simp add: w1_def)
  with run i tabs show ?thesis
    by (simp add: d w1_def a1_def a2_def hook_w1_def)
qed

theorem delete_user_cascade_witness:
  "\<exists>s'. delete_user (UserRole ''u9'') s_sec = (Inr (), s') \<and> db_integrity (sys_db s')
     \<and> role_user_id (UserRole ''u9'') \<notin> set (map u_id (users (sys_db s')))
     \<and> (\<forall>w\<in>set (workflows (sys_db s')). wf_owner_id w \<noteq> role_user_id (UserRole ''u9''))
     \<and> (\<forall>x\<in>set (secrets (sys_db s')). sec_owner_id x \<noteq> role_user_id (UserRole ''u9''))"
  by (rule delete_user_cascade [OF scenario_sec_integrity, of "user_of ''u9''"])
    (simp_all add: scenario_defs)

theorem create_secret_roundtrip_witness:
  "\<exists>s'. create_secret E0 (UserRole ''u9'') ''api'' ''k'' s0 = (Inr (), s') \<and> db_integrity (sys_db s')
     \<and> (\<exists>x. get_secret (UserRole ''u9'') ''api'' s' = (Inr x, s')
           \<and> sec_encrypted_api_key x = Some (encrypt_key E0 ''k''))"
  by (rule create_secret_roundtrip [OF scenario_s0_integrity])
    (simp_all add: scenario_defs fresh_id_def)

theorem create_action_any_workflow_witness:
  "\<exists>a s'. create_action E0 (UserRole ''u9'') (wf_id w1) ''webhook'' ''Hook'' s0
              = (Inr (action_meta_of (wf_id w1) a), s')
     \<and> db_integrity (sys_db s') \<and> actions (sys_db s') = actions (sys_db s0) @ [a]
     \<and> act_id a = uuid4_hex E0 (sys_uuid s0) \<and> act_owner_id a = role_user_id (UserRole ''u9'')
     \<and> act_workflow_id a = Some (wf_id w1) \<and> act_inputs a = None
     \<and> webhooks (sys_db s') = webhooks (sys_db s0) @
         (if py_lower ''webhook'' = ''webhook''
          then [\<lparr>wh_id = uuid4_hex E0 (Suc (sys_uuid s0)), wh_action_id = Some (act_id a),
                 wh_workflow_id = Some (wf_id w1), wh_owner_id = role_user_id (UserRole ''u9'')\<rparr>]
          else [])"
  by (rule create_action_any_workflow [OF scenario_s0_integrity]) (simp_all add: scenario_defs)

theorem create_workflow_run_any_owner_witness:
  "\<exists>run s'. create_workflow_run E0 (ServiceRole ''u9'' ''runner'') (wf_id w1) s0 = (Inr (run, []), s')
     \<and> workflow_runs (sys_db s') = workflow_runs (sys_db s0) @ [run] \<and> db_integrity (sys_db s')
     \<and> wr_owner_id run = role_user_id (ServiceRole ''u9'' ''runner'') \<and> wr_workflow_id run = Some (wf_id w1)
     \<and> wr_status run = ''pending''"
  by (rule create_workflow_run_any_owner [OF scenario_s0_integrity])
    (simp_all add: scenario_defs fresh_id_def)


theorem update_workflow_stores_object_witness:
  "\<exists>s'. update_workflow (UserRole ''tracecat'') (wf_id w1)
          \<lparr>uw_title = None, uw_description = None, uw_status = None, uw_object = Some g_dangling\<rparr> s0
        = (Inr (), s') \<and> db_integrity (sys_db s')
     \<and> map wf_id (workflows (sys_db s')) = map wf_id (workflows (sys_db s0))
     \<and> (\<exists>w'\<in>set (workflows (sys_db s')). wf_id w' = wf_id w1 \<and> wf_owner_id w' = wf_owner_id w1
           \<and> wf_object w' = Some g_dangling)"
  by (rule update_workflow_stores_object [OF scenario_s0_integrity]) (simp_all add: scenario_defs)

theorem list_webhooks_raises_witness:
  "list_webhooks (UserRole ''tracecat'') ''W1'' s0 = (Inl AttributeError, s0)"
  by (rule list_webhooks_raises [of hook_w1]) (simp_all add: scenario_defs)

theorem delete_webhook_missing_witness:
  "delete_webhook (UserRole ''u9'') ''w1'' s0 = (Inl NoResultFound, s0)"
  by (rule delete_webhook_missing) (simp add: scenario_defs)

theorem update_user_resets_tier_witness:
  "\<exists>s'. update_user (UserRole ''u9'') (settings_only (Some ''{}'')) s_pro = (Inr (), s')
     \<and> db_integrity (sys_db s')
     \<and> (\<exists>u'\<in>set (users (sys_db s')). u_id u' = u_id ((user_of ''u9'')\<lparr>u_tier := ''pro''\<rparr>)
          \<and> u_tier u' = ''free'')"
  by (rule update_user_resets_tier [OF scenario_pro_integrity]) (simp_all add: scenario_defs)

theorem search_secrets_two_names_witness:
  "search_secrets (UserRole ''u9'') [''api'', ''db''] s_sec = (Inr [], s_sec)"
  by (rule search_secrets_two_names) simp

theorem list_workflow_runs_bounds_witness:
  "fst (list_workflow_runs (UserRole ''u9'') ''W1'' (-1) s0) = Inl DataError
   \<and> (\<exists>runs. fst (list_workflow_runs (UserRole ''u9'') ''W1'' 5 s0) = Inr runs \<and> length runs \<le> 5)"
  using list_workflow_runs_bounds [of "UserRole ''u9''" "''W1''" "-1" s0]
    list_workflow_runs_bounds [of "UserRole ''u9''" "''W1''" 5 s0]
  by auto

theorem reachable_webhook_authenticates_witness:
  "\<exists>a\<in>set (actions (sys_db s_hook)). wh_action_id hook_n = Some (act_id a)
     \<and> authenticate_webhook E0
           (fst (split_at (CHR ''/'') (drop (length (runner_url E0 @ ''/webhook/'')) (webhook_url E0 (wh_id hook_n)))))
           (snd (split_at (CHR ''/'') (drop (length (runner_url E0 @ ''/webhook/'')) (webhook_url E0 (wh_id hook_n)))))
           s_hook
       = (Inr \<lparr>aw_status = ''Authorized'', aw_owner_id = Some (act_owner_id a),
               aw_action_key = Some (action_key a), aw_action_id = Some (act_id a),
               aw_webhook_id = Some (wh_id hook_n), aw_workflow_id = wh_workflow_id hook_n\<rparr>, s_hook)
     \<and> handle E0 (ServiceCredential ''u9'' ''runner'') (UserRole ''u9'')
         (AuthenticateWebhook
           (fst (split_at (CHR ''/'') (drop (length (runner_url E0 @ ''/webhook/'')) (webhook_url E0 (wh_id hook_n)))))
           (snd (split_at (CHR ''/'') (drop (length (runner_url E0 @ ''/webhook/'')) (webhook_url E0 (wh_id hook_n))))))
         s_hook = (Inr (), s_hook)"
  by (rule reachable_webhook_authenticates [OF scenario_hook_reachable scenario_hook])
    (simp add: hook_n_def)

theorem search_secrets_one_name_witness:
  "fst (search_secrets (UserRole ''u9'') [''api''] s_sec)
   = (case fst (get_secret (UserRole ''u9'') ''api'' s_sec) of Inr x \<Rightarrow> Inr [x] | Inl _ \<Rightarrow> Inr [])"
  by (rule search_secrets_one_name) (simp add: scenario_defs secret_names_unique_def)

theorem secret_store_refinement_witness:
  "\<exists>s'. update_secret E0 (UserRole ''u9'') ''api'' ''k2'' s_sec = (Inl ResponseValidationError, s')
     \<and> secret_store (sys_db s') (''u9'', ''api'') = Some (Some (encrypt_key E0 ''k2''))"
proof -
  have u: "secret_names_unique (sys_db s_sec)" by (simp add: scenario_defs secret_names_unique_def)
  have "secret_store (sys_db s_sec) (role_user_id (UserRole ''u9''), ''api'') \<noteq> None"
    by (simp add: secret_store_def scenario_defs)
  from secret_store_refinement [OF scenario_sec_integrity u, of E0 "UserRole ''u9''" "''api''" "''k2''" s_sec,
      THEN conjunct2, THEN conjunct2, THEN conjunct1, THEN mp, OF this]
  obtain s' where "update_secret E0 (UserRole ''u9'') ''api'' ''k2'' s_sec = (Inl ResponseValidationError, s')"
    and "secret_store (sys_db s') = (secret_store (sys_db s_sec))((''u9'', ''api'') \<mapsto> Some (encrypt_key E0 ''k2''))"
    by auto
  then show ?thesis by auto
qed

theorem create_case_context_commits_then_fails_witness:
  "\<exists>s'. create_case_context E0 (UserRole ''u9'') ''mitre'' ''T1'' None s0 = (Inl ResponseValidationError, s')
     \<and> case_contexts (sys_db s') = [\<lparr>cc_id = fresh_id E0 s0, cc_tag = ''mitre'', cc_value = ''T1'',
                                     cc_user_id = None, cc_owner_id = ''u9''\<rparr>]"
proof -
  have "fresh_id E0 s0 \<notin> set (map cc_id (case_contexts (sys_db s0)))" by (simp add: s0_def d0_def)
  from create_case_context_commits_then_fails [OF scenario_s0_integrity this,
      of None "UserRole ''u9''" "''mitre''" "''T1''", THEN conjunct1, THEN mp]
  show ?thesis by (auto simp: fk_opt_def s0_def d0_def)
qed

subsection \<open>The other stores at concrete inputs\<close>

theorem autofill_constraints_visible_witness:
  "(\<exists>cs vs. snd (autofill_constraints (UserRole ''u9'') s_init) = Inr cs
      \<and> (''case_action'', vs) \<in> set cs \<and> ''close'' \<in> set vs)
   \<and> \<not> (\<exists>cs vs. fst (autofill_constraints (UserRole ''u9'') s_init) = Inr cs
      \<and> (''mitre'', vs) \<in> set cs \<and> ''T2'' \<in> set vs)"
  using autofill_constraints_visible [where t = "''case_action''" and v = "''close''"
      and r = "UserRole ''u9''" and s = s_init]
    autofill_constraints_visible [where t = "''mitre''" and v = "''T2''" and r = "UserRole ''u9''" and s = s_init]
  by (auto simp: s_init_def first_segment_def)

theorem search_events_never_answers_witness:
  "fst (search_events None (UserRole ''tracecat'') ''W1'' s0) = Inl ResponseValidationError"
  using search_events_never_answers [of None "UserRole ''tracecat''" "''W1''" s0] scenario_s0_integrity
  by (simp add: scenario_defs)

end
